(* ===== verification/Prelude.thy ===== *)
theory Prelude
  imports Complex_Main "HOL-Library.AList" "HOL-Library.Word"
begin

text \<open>
  Shared vocabulary of the development: the parts of the Go language and of its standard
  library that several components use, and the generic lemmas about them.

  \<^item> Go strings and byte slices are byte sequences, and so is Isabelle's \<open>string\<close>
    (a list of 8-bit \<open>char\<close>), so both are modelled by \<open>string\<close>; only the
    components that compute on bytes as numbers use \<open>8 word list\<close>.
  \<^item> \<open>int64\<close> values and \<open>time.Duration\<close> are \<open>int\<close>, with every operation that may
    overflow wrapped by \<open>wrap64\<close>.
  \<^item> \<open>time.Time\<close> is \<open>gtime\<close>: nanoseconds since the Unix epoch, with Go's zero time
    (January 1, year 1) as the value \<open>time_zero\<close>; \<open>time.Time.Sub\<close> saturates.
  \<^item> A Go map that the code ranges over is an association list in iteration order; a map
    that is only looked up is a partial function.
  \<^item> A Go \<open>error\<close> result is an option: \<open>None\<close> is \<open>nil\<close>.
\<close>

named_theorems go_time \<comment> \<open>unfolds clock arithmetic\<close>
named_theorems go_string \<comment> \<open>unfolds the string helpers\<close>

section \<open>Fixed-width integers\<close>

definition wrap64 :: "int \<Rightarrow> int" where
  "wrap64 x = (x + 2 ^ 63) mod 2 ^ 64 - 2 ^ 63"

definition int64_range :: "int \<Rightarrow> bool" where
  "int64_range x \<longleftrightarrow> - (2 ^ 63) \<le> x \<and> x < 2 ^ 63"

lemma wrap64_range: "int64_range (wrap64 x)"
  unfolding int64_range_def wrap64_def
  using pos_mod_bound [of "2 ^ 64" "x + 2 ^ 63"] pos_mod_sign [of "2 ^ 64" "x + 2 ^ 63"]
  by simp

lemma wrap64_id [simp]: "int64_range x \<Longrightarrow> wrap64 x = x"
  by (simp add: int64_range_def wrap64_def)

lemma wrap64_idem [simp]: "wrap64 (wrap64 x) = wrap64 x"
  by (rule wrap64_id) (rule wrap64_range)

lemma wrap64_cong: "x mod 2 ^ 64 = y mod 2 ^ 64 \<Longrightarrow> wrap64 x = wrap64 y"
  unfolding wrap64_def by (metis mod_add_left_eq)

lemma wrap64_mod: "wrap64 x mod 2 ^ 64 = x mod 2 ^ 64"
  unfolding wrap64_def by (simp add: mod_diff_left_eq)

lemma wrap64_add_left [simp]: "wrap64 (wrap64 x + y) = wrap64 (x + y)"
  by (rule wrap64_cong) (metis mod_add_left_eq wrap64_mod)

lemma wrap64_add_right [simp]: "wrap64 (x + wrap64 y) = wrap64 (x + y)"
  by (metis add.commute wrap64_add_left)

lemma int64_range_0 [simp]: "int64_range 0"
  by (simp add: int64_range_def)

section \<open>Time\<close>

type_synonym gtime = int
type_synonym duration = int

definition time_zero :: gtime where
  "time_zero = - 62135596800 * 10 ^ 9"

definition is_zero_time :: "gtime \<Rightarrow> bool" where
  "is_zero_time t \<longleftrightarrow> t = time_zero"

definition time_sub :: "gtime \<Rightarrow> gtime \<Rightarrow> duration" where
  "time_sub t u = max (- (2 ^ 63)) (min (2 ^ 63 - 1) (t - u))"

definition time_add :: "gtime \<Rightarrow> duration \<Rightarrow> gtime" where
  "time_add t d = t + d"

definition second :: duration where "second = 10 ^ 9"
definition minute :: duration where "minute = 60 * second"
definition hour :: duration where "hour = 60 * minute"

lemmas [go_time] = time_zero_def is_zero_time_def time_sub_def time_add_def
lemmas duration_units = second_def minute_def hour_def

lemma time_sub_le_iff: "int64_range d \<Longrightarrow> time_sub t u < d \<Longrightarrow> t - u < d"
  by (auto simp: time_sub_def int64_range_def max_def min_def split: if_splits)

lemma time_sub_gt_iff: "int64_range d \<Longrightarrow> d < time_sub t u \<Longrightarrow> d < t - u"
  by (auto simp: time_sub_def int64_range_def max_def min_def split: if_splits)

lemma time_sub_le_diff: "int64_range d \<Longrightarrow> t - u \<le> d \<Longrightarrow> time_sub t u \<le> d"
  by (auto simp: time_sub_def int64_range_def max_def min_def split: if_splits)

section \<open>IEEE doubles\<close>

text \<open>
  A \<open>float64\<close> that the code only compares or passes on: a rational value, an infinity or
  NaN. Negative zero is identified with zero.
\<close>

datatype f64 = NaN | PInf | NInf | Fin rat

fun f64_le :: "f64 \<Rightarrow> f64 \<Rightarrow> bool" where
  "f64_le NaN _ = False"
| "f64_le _ NaN = False"
| "f64_le NInf _ = True"
| "f64_le _ PInf = True"
| "f64_le (Fin x) (Fin y) = (x \<le> y)"
| "f64_le _ _ = False"

section \<open>Association lists\<close>

abbreviation distinct_keys :: "('k \<times> 'v) list \<Rightarrow> bool" where
  "distinct_keys m \<equiv> distinct (map fst m)"

lemma distinct_keys_filter: "distinct_keys m \<Longrightarrow> distinct_keys (filter p m)"
  by (induction m) auto

lemma map_of_filter_keys:
  "distinct_keys m \<Longrightarrow>
   map_of (filter p m) k = (case map_of m k of Some v \<Rightarrow> if p (k, v) then Some v else None | None \<Rightarrow> None)"
  by (induction m) (auto simp: map_of_eq_None_iff split: option.splits dest: map_of_SomeD)

lemmas alist_lookup = update_conv' delete_conv' map_of_filter_keys
lemmas alist_distinct = distinct_update distinct_delete distinct_keys_filter

section \<open>Strings\<close>

definition has_prefix :: "string \<Rightarrow> string \<Rightarrow> bool" where
  "has_prefix s p \<longleftrightarrow> take (length p) s = p"

definition has_suffix :: "string \<Rightarrow> string \<Rightarrow> bool" where
  "has_suffix s p \<longleftrightarrow> length p \<le> length s \<and> drop (length s - length p) s = p"

definition cut_prefix :: "string \<Rightarrow> string \<Rightarrow> string option" where
  "cut_prefix s p = (if has_prefix s p then Some (drop (length p) s) else None)"

definition trim_prefix :: "string \<Rightarrow> string \<Rightarrow> string" where
  "trim_prefix s p = (if has_prefix s p then drop (length p) s else s)"

definition trim_suffix :: "string \<Rightarrow> string \<Rightarrow> string" where
  "trim_suffix s p = (if has_suffix s p then take (length s - length p) s else s)"

lemmas [go_string] =
  has_prefix_def has_suffix_def cut_prefix_def trim_prefix_def trim_suffix_def

lemma has_prefix_append [simp]: "has_prefix (p @ s) p"
  by (simp add: has_prefix_def)

lemma has_suffix_append [simp]: "has_suffix (s @ p) p"
  by (simp add: has_suffix_def)

lemma has_prefix_iff: "has_prefix s p \<longleftrightarrow> (\<exists>r. s = p @ r)"
  unfolding has_prefix_def by (metis append_eq_conv_conj)

lemma has_suffix_iff: "has_suffix s p \<longleftrightarrow> (\<exists>r. s = r @ p)"
  unfolding has_suffix_def
  by (metis append_eq_conv_conj append_take_drop_id diff_diff_cancel length_append le_add2
      add_diff_cancel_right')

text \<open>\<open>strings.Split(s, sep)\<close> for a one-byte separator.\<close>

fun split_on :: "char \<Rightarrow> string \<Rightarrow> string list" where
  "split_on c [] = [[]]"
| "split_on c (x # xs) =
     (if x = c then [] # split_on c xs
      else (case split_on c xs of [] \<Rightarrow> [[x]] | y # ys \<Rightarrow> (x # y) # ys))"

fun join_with :: "string \<Rightarrow> string list \<Rightarrow> string" where
  "join_with sep [] = []"
| "join_with sep [x] = x"
| "join_with sep (x # y # ys) = x @ sep @ join_with sep (y # ys)"

lemma split_on_nonempty [simp]: "split_on c s \<noteq> []"
  by (induction s) (auto split: list.splits)

lemma split_on_parts: "x \<in> set (split_on c s) \<Longrightarrow> c \<notin> set x"
proof (induction s arbitrary: x)
  case (Cons y ys)
  then show ?case by (cases "split_on c ys") (auto split: if_splits)
qed simp

lemma split_on_plain: "c \<notin> set x \<Longrightarrow> split_on c (x @ y) = (x @ hd (split_on c y)) # tl (split_on c y)"
  by (induction x) auto

lemma split_on_join: "xs \<noteq> [] \<Longrightarrow> \<forall>x \<in> set xs. c \<notin> set x \<Longrightarrow> split_on c (join_with [c] xs) = xs"
proof (induction "[c]" xs rule: join_with.induct)
  case (2 x)
  then show ?case using split_on_plain [of c x "[]"] by simp
next
  case (3 x y ys)
  then show ?case using split_on_plain [of c x "[c] @ join_with [c] (y # ys)"] by simp
qed simp

lemma join_split_on: "join_with [c] (split_on c s) = s"
proof (induction s)
  case Nil
  then show ?case by simp
next
  case (Cons x xs)
  obtain y ys where ys: "split_on c xs = y # ys"
    by (cases "split_on c xs") auto
  show ?case using Cons ys by (cases ys) auto
qed

text \<open>
  \<open>strings.TrimSpace\<close>: strips leading and trailing Unicode white space. \<open>strip_space\<close>
  removes one leading white-space rune given by its UTF-8 bytes (ASCII, U+0085, U+00A0,
  U+1680, U+2000 to U+200A, U+2028, U+2029, U+202F, U+205F, U+3000); \<open>strip_space_rev\<close>
  is the same on a reversed string.
\<close>

definition ascii_space :: "char \<Rightarrow> bool" where
  "ascii_space c \<longleftrightarrow> c \<in> {CHR 0x09, CHR 0x0A, CHR 0x0B, CHR 0x0C, CHR 0x0D, CHR 0x20}"

definition space2 :: "char \<Rightarrow> char \<Rightarrow> bool" where
  "space2 a b \<longleftrightarrow> a = CHR 0xC2 \<and> (b = CHR 0x85 \<or> b = CHR 0xA0)"

definition space3 :: "char \<Rightarrow> char \<Rightarrow> char \<Rightarrow> bool" where
  "space3 a b c \<longleftrightarrow>
     (a = CHR 0xE1 \<and> b = CHR 0x9A \<and> c = CHR 0x80) \<or>
     (a = CHR 0xE2 \<and> b = CHR 0x80 \<and>
        (c \<in> {CHR 0x80, CHR 0x81, CHR 0x82, CHR 0x83, CHR 0x84, CHR 0x85, CHR 0x86, CHR 0x87,
              CHR 0x88, CHR 0x89, CHR 0x8A, CHR 0xA8, CHR 0xA9, CHR 0xAF})) \<or>
     (a = CHR 0xE2 \<and> b = CHR 0x81 \<and> c = CHR 0x9F) \<or>
     (a = CHR 0xE3 \<and> b = CHR 0x80 \<and> c = CHR 0x80)"

fun trim_left :: "string \<Rightarrow> string" where
  "trim_left (a # b # c # s) =
     (if ascii_space a then trim_left (b # c # s)
      else if space2 a b then trim_left (c # s)
      else if space3 a b c then trim_left s
      else a # b # c # s)"
| "trim_left [a, b] =
     (if ascii_space a then trim_left [b] else if space2 a b then [] else [a, b])"
| "trim_left [a] = (if ascii_space a then [] else [a])"
| "trim_left [] = []"

fun trim_left_rev :: "string \<Rightarrow> string" where
  "trim_left_rev (c # b # a # s) =
     (if ascii_space c then trim_left_rev (b # a # s)
      else if space2 b c then trim_left_rev (a # s)
      else if space3 a b c then trim_left_rev s
      else c # b # a # s)"
| "trim_left_rev [c, b] =
     (if ascii_space c then trim_left_rev [b] else if space2 b c then [] else [c, b])"
| "trim_left_rev [c] = (if ascii_space c then [] else [c])"
| "trim_left_rev [] = []"

definition trim_space :: "string \<Rightarrow> string" where
  "trim_space s = rev (trim_left_rev (rev (trim_left s)))"

section \<open>Decimal numbers (strconv)\<close>

definition is_digit :: "char \<Rightarrow> bool" where
  "is_digit c \<longleftrightarrow> 48 \<le> (of_char c :: nat) \<and> (of_char c :: nat) \<le> 57"

definition digit_val :: "char \<Rightarrow> int" where
  "digit_val c = of_char c - 48"

definition digit_char :: "nat \<Rightarrow> char" where
  "digit_char d = char_of (48 + d)"

fun format_nat :: "nat \<Rightarrow> string" where
  "format_nat n =
     (if n < 10 then [digit_char n] else format_nat (n div 10) @ [digit_char (n mod 10)])"

declare format_nat.simps [simp del]

definition digits_val :: "string \<Rightarrow> int" where
  "digits_val s = foldl (\<lambda>a c. 10 * a + digit_val c) 0 s"

definition parse_digits :: "string \<Rightarrow> int option" where
  "parse_digits s = (if s = [] \<or> \<not> list_all is_digit s then None else Some (digits_val s))"

text \<open>\<open>strconv.ParseInt(s, 10, 64)\<close> (and \<open>strconv.Atoi\<close> on a 64-bit platform).\<close>

definition parse_int64 :: "string \<Rightarrow> int option" where
  "parse_int64 s =
     (let neg = (case s of [] \<Rightarrow> False | c # _ \<Rightarrow> c = CHR ''-'');
          r = (case s of [] \<Rightarrow> [] | c # t \<Rightarrow> if c = CHR ''-'' \<or> c = CHR ''+'' then t else s)
      in case parse_digits r of
           None \<Rightarrow> None
         | Some n \<Rightarrow>
             (let v = (if neg then - n else n)
              in if int64_range v then Some v else None))"

definition format_int :: "int \<Rightarrow> string" where
  "format_int v = (if v < 0 then CHR ''-'' # format_nat (nat (- v)) else format_nat (nat v))"

lemma digit_char_digit: "d < 10 \<Longrightarrow> is_digit (digit_char d) \<and> digit_val (digit_char d) = int d"
proof -
  assume "d < 10"
  then have "(of_char (char_of (48 + d) :: char) :: nat) = 48 + d" by (simp add: of_char_of)
  then have "(of_char (char_of (48 + d) :: char) :: int) = 48 + int d"
    by (metis of_nat_of_char of_nat_add of_nat_numeral)
  with \<open>d < 10\<close> show ?thesis
    by (simp add: is_digit_def digit_char_def digit_val_def)
qed

lemma format_nat_digits: "format_nat n \<noteq> [] \<and> list_all is_digit (format_nat n)"
proof (induction n rule: format_nat.induct)
  case (1 n)
  then show ?case
    by (subst (1 2) format_nat.simps) (simp add: digit_char_digit)
qed

lemma digits_val_snoc: "digits_val (s @ [c]) = 10 * digits_val s + digit_val c"
  by (simp add: digits_val_def)

lemma digits_val_format_nat: "digits_val (format_nat n) = int n"
proof (induction n rule: format_nat.induct)
  case (1 n)
  show ?case
  proof (cases "n < 10")
    case True
    then show ?thesis
      by (subst format_nat.simps) (simp add: digits_val_def digit_char_digit)
  next
    case False
    with 1 have "digits_val (format_nat (n div 10)) = int (n div 10)" by simp
    with False show ?thesis
      by (subst format_nat.simps) (simp add: digits_val_snoc digit_char_digit zdiv_int zmod_int)
  qed
qed

lemma parse_digits_format_nat [simp]: "parse_digits (format_nat n) = Some (int n)"
  using format_nat_digits [of n] by (simp add: parse_digits_def digits_val_format_nat)

lemma is_digit_not_sign: "is_digit c \<Longrightarrow> c \<noteq> CHR ''-'' \<and> c \<noteq> CHR ''+''"
  by (auto simp: is_digit_def)

lemma parse_int64_format_int:
  assumes "int64_range v" shows "parse_int64 (format_int v) = Some v"
proof (cases "v < 0")
  case True
  with assms show ?thesis
    by (simp add: parse_int64_def format_int_def)
next
  case False
  obtain c t where ct: "format_nat (nat v) = c # t" and d: "is_digit c"
    using format_nat_digits [of "nat v"] by (cases "format_nat (nat v)") auto
  have p: "parse_digits (c # t) = Some (int (nat v))"
    using parse_digits_format_nat [of "nat v"] by (simp add: ct)
  from is_digit_not_sign [OF d] False assms p show ?thesis
    by (simp add: parse_int64_def format_int_def ct)
qed

end
