(* ===== verification/Http.thy ===== *)
theory Http
  imports Prelude
begin

text \<open>
  The part of \<open>net/http\<close> and \<open>net\<close> the components share: requests, responses, header
  lookup, \<open>http.Error\<close> and \<open>net.SplitHostPort\<close>. A request's body is the bytes the
  client sends; \<open>rq_body_fails\<close> says whether reading it ends in a transport error.
  Header names are in canonical form, as the server's header map holds them.
\<close>

record http_request =
  rq_method :: string
  rq_path :: string
  rq_query :: string
  rq_headers :: "(string \<times> string list) list"
  rq_remote_addr :: string
  rq_body :: string
  rq_body_fails :: bool

record http_response =
  rs_status :: int
  rs_headers :: "(string \<times> string list) list"
  rs_body :: string

definition header_get :: "(string \<times> string list) list \<Rightarrow> string \<Rightarrow> string" where
  "header_get h k = (case map_of h k of Some (v # _) \<Rightarrow> v | _ \<Rightarrow> [])"

definition status_ok :: int where "status_ok = 200"
definition status_bad_request :: int where "status_bad_request = 400"
definition status_unauthorized :: int where "status_unauthorized = 401"
definition status_forbidden :: int where "status_forbidden = 403"
definition status_not_found :: int where "status_not_found = 404"
definition status_method_not_allowed :: int where "status_method_not_allowed = 405"
definition status_too_many_requests :: int where "status_too_many_requests = 429"
definition status_internal_error :: int where "status_internal_error = 500"
definition status_bad_gateway :: int where "status_bad_gateway = 502"

lemmas http_status = status_ok_def status_bad_request_def status_unauthorized_def
  status_forbidden_def status_not_found_def status_method_not_allowed_def
  status_too_many_requests_def status_internal_error_def status_bad_gateway_def

definition error_headers :: "(string \<times> string list) list" where
  "error_headers =
     [(''Content-Type'', [''text/plain; charset=utf-8'']), (''X-Content-Type-Options'', [''nosniff''])]"

text \<open>\<open>http.Error\<close> on a response whose header map already holds \<open>h\<close>.\<close>

definition http_error_with :: "(string \<times> string list) list \<Rightarrow> string \<Rightarrow> int \<Rightarrow> http_response" where
  "http_error_with h msg code =
     \<lparr>rs_status = code, rs_headers = h @ error_headers, rs_body = msg @ [CHR 0x0A]\<rparr>"

definition http_error :: "string \<Rightarrow> int \<Rightarrow> http_response" where
  "http_error = http_error_with []"

lemma http_error_status [simp]: "rs_status (http_error_with h msg code) = code"
  by (simp add: http_error_with_def)

lemma http_error_status' [simp]: "rs_status (http_error msg code) = code"
  by (simp add: http_error_def)

section \<open>Addresses\<close>

fun index_of :: "char \<Rightarrow> string \<Rightarrow> nat option" where
  "index_of c [] = None"
| "index_of c (x # xs) = (if x = c then Some 0 else map_option Suc (index_of c xs))"

definition last_index_of :: "char \<Rightarrow> string \<Rightarrow> nat option" where
  "last_index_of c s = map_option (\<lambda>k. length s - 1 - k) (index_of c (rev s))"

text \<open>\<open>net.SplitHostPort\<close>, host part only; \<open>None\<close> is its error.\<close>

definition split_host :: "string \<Rightarrow> string option" where
  "split_host hp =
     (case last_index_of (CHR '':'') hp of
        None \<Rightarrow> None
      | Some i \<Rightarrow>
          if take 1 hp = ''['' then
            (case index_of (CHR '']'') hp of
               None \<Rightarrow> None
             | Some e \<Rightarrow>
                 if e + 1 \<noteq> i then None
                 else if CHR ''['' \<in> set (drop 1 hp) \<or> CHR '']'' \<in> set (drop (e + 1) hp) then None
                 else Some (take (e - 1) (drop 1 hp)))
          else if CHR '':'' \<in> set (take i hp) then None
          else if CHR ''['' \<in> set hp \<or> CHR '']'' \<in> set hp then None
          else Some (take i hp))"

end
