(* ===== verification/Wt_Config.thy ===== *)
theory Wt_Config
  imports Prelude "HOL-Library.Multiset"
begin

text \<open>
  The watchtower's configuration (\<open>internal/watchtower/config/config.go\<close>): the structs,
  the defaults, \<open>Load\<close> and \<open>validate\<close>. Reading the file and \<open>toml.Unmarshal\<close> (the
  third-party go-toml package) are arguments of \<open>load\<close>. The \<open>Validators\<close> map is an
  association list in the order in which \<open>range\<close> visits it; the theorems hold for every
  order.
\<close>

section \<open>Data\<close>

record validator_config =
  vc_token :: string
  vc_permissions :: "string list"
  vc_logs_min_level :: string

record token_entry =
  te_validator_name :: string
  te_config :: validator_config

record security_config =
  rate_limit_rps :: f64
  rate_limit_burst :: int
  ban_threshold :: int
  ban_duration :: duration

record wt_config =
  listen_addr :: string
  security :: security_config
  vm_url :: string
  loki_url :: string
  validators :: "(string \<times> validator_config) list"

datatype wt_config_error =
    ListenAddrRequired
  | VmUrlRequired
  | LokiUrlRequired
  | RateLimitRpsNotPositive
  | RateLimitBurstTooSmall
  | BanThresholdNotPositive
  | BanDurationNotPositive
  | TokenRequired string
  | SharedToken string string
  | UnknownPermission string string

datatype load_error = ReadFailed | UnmarshalFailed | InvalidConfig wt_config_error

section \<open>Validation\<close>

definition min_rate_limit_burst :: int where
  "min_rate_limit_burst = 4"

definition valid_permissions :: "string list" where
  "valid_permissions = [''rpc'', ''metrics'', ''logs'', ''otlp'']"

fun check_permissions :: "string \<Rightarrow> string list \<Rightarrow> wt_config_error option" where
  "check_permissions name [] = None"
| "check_permissions name (p # ps) =
     (if p \<notin> set valid_permissions then Some (UnknownPermission name p)
      else check_permissions name ps)"

fun validate_validators ::
  "(string \<rightharpoonup> string) \<Rightarrow> (string \<times> validator_config) list \<Rightarrow> wt_config_error option" where
  "validate_validators seen [] = None"
| "validate_validators seen ((name, v) # vs) =
     (if vc_token v = [] then Some (TokenRequired name)
      else case seen (vc_token v) of
        Some other \<Rightarrow> Some (SharedToken other name)
      | None \<Rightarrow>
          (case check_permissions name (vc_permissions v) of
             Some e \<Rightarrow> Some e
           | None \<Rightarrow> validate_validators (seen(vc_token v \<mapsto> name)) vs))"

definition validate :: "wt_config \<Rightarrow> wt_config_error option" where
  "validate c =
     (if listen_addr c = [] then Some ListenAddrRequired
      else if vm_url c = [] then Some VmUrlRequired
      else if loki_url c = [] then Some LokiUrlRequired
      else if f64_le (rate_limit_rps (security c)) (Fin 0) then Some RateLimitRpsNotPositive
      else if rate_limit_burst (security c) < min_rate_limit_burst then Some RateLimitBurstTooSmall
      else if ban_threshold (security c) \<le> 0 then Some BanThresholdNotPositive
      else if ban_duration (security c) \<le> 0 then Some BanDurationNotPositive
      else validate_validators Map.empty (validators c))"

definition load ::
  "(string \<Rightarrow> wt_config option) \<Rightarrow> string option \<Rightarrow> load_error + wt_config" where
  "load toml_unmarshal file =
     (case file of
        None \<Rightarrow> Inl ReadFailed
      | Some data \<Rightarrow>
          (case toml_unmarshal data of
             None \<Rightarrow> Inl UnmarshalFailed
           | Some cfg \<Rightarrow>
               (let sec = security cfg;
                    cfg' = (if rate_limit_burst sec = 0
                            then cfg\<lparr>security := sec\<lparr>rate_limit_burst := 200\<rparr>\<rparr> else cfg)
                in case validate cfg' of
                     Some e \<Rightarrow> Inl (InvalidConfig e)
                   | None \<Rightarrow> Inr cfg')))"

definition default_config :: wt_config where
  "default_config =
     \<lparr>listen_addr = ''0.0.0.0:8080'',
      security = \<lparr>rate_limit_rps = Fin 100, rate_limit_burst = 200, ban_threshold = 5,
                  ban_duration = 15 * minute\<rparr>,
      vm_url = ''<victoria-metrics-url>'',
      loki_url = ''<loki-url>'',
      validators =
        [(''my-validator'',
          \<lparr>vc_token = ''<secret-token>'',
           vc_permissions = [''rpc'', ''metrics'', ''logs'', ''otlp''],
           vc_logs_min_level = ''info''\<rparr>)]\<rparr>"

section \<open>What validation accepts\<close>

definition validator_ok :: "validator_config \<Rightarrow> bool" where
  "validator_ok v \<longleftrightarrow> vc_token v \<noteq> [] \<and> set (vc_permissions v) \<subseteq> set valid_permissions"

definition validators_ok :: "(string \<times> validator_config) list \<Rightarrow> bool" where
  "validators_ok vs \<longleftrightarrow>
     (\<forall>(name, v) \<in> set vs. validator_ok v) \<and> distinct (map (\<lambda>nv. vc_token (snd nv)) vs)"

definition config_ok :: "wt_config \<Rightarrow> bool" where
  "config_ok c \<longleftrightarrow>
     listen_addr c \<noteq> [] \<and> vm_url c \<noteq> [] \<and> loki_url c \<noteq> [] \<and>
     \<not> f64_le (rate_limit_rps (security c)) (Fin 0) \<and>
     min_rate_limit_burst \<le> rate_limit_burst (security c) \<and>
     0 < ban_threshold (security c) \<and> 0 < ban_duration (security c) \<and>
     validators_ok (validators c)"

lemma check_permissions_None_iff:
  "check_permissions name ps = None \<longleftrightarrow> set ps \<subseteq> set valid_permissions"
  by (induction ps) auto

lemma validate_validators_None_iff:
  "validate_validators seen vs = None \<longleftrightarrow>
     (\<forall>(name, v) \<in> set vs. validator_ok v) \<and>
     distinct (map (\<lambda>nv. vc_token (snd nv)) vs) \<and>
     (\<forall>(name, v) \<in> set vs. seen (vc_token v) = None)"
proof (induction vs arbitrary: seen)
  case (Cons x vs)
  obtain name v where x: "x = (name, v)" by (cases x)
  have upd: "(\<forall>(name', w) \<in> set vs. (seen(vc_token v \<mapsto> name)) (vc_token w) = None) \<longleftrightarrow>
      vc_token v \<notin> (\<lambda>nv. vc_token (snd nv)) ` set vs \<and> (\<forall>(name', w) \<in> set vs. seen (vc_token w) = None)"
    by (force split: if_splits)
  show ?case
    using check_permissions_None_iff [of name "vc_permissions v"]
    by (auto simp: x validator_ok_def Cons.IH upd simp del: fun_upd_apply split: option.split)
qed simp

lemma validate_None_iff: "validate c = None \<longleftrightarrow> config_ok c"
  by (auto simp: validate_def config_ok_def validate_validators_None_iff validators_ok_def
      split: if_splits)

lemma validators_ok_mset: "mset vs = mset ws \<Longrightarrow> validators_ok vs = validators_ok ws"
  unfolding validators_ok_def
  by (metis mset_eq_imp_distinct_iff mset_eq_setD mset_map)

lemma load_Inr_iff:
  "load u file = Inr c \<longleftrightarrow>
     (\<exists>data cfg. file = Some data \<and> u data = Some cfg \<and> config_ok c \<and>
        c = (if rate_limit_burst (security cfg) = 0
             then cfg\<lparr>security := (security cfg)\<lparr>rate_limit_burst := 200\<rparr>\<rparr> else cfg))"
  by (auto simp: load_def Let_def validate_None_iff [symmetric] split: option.splits)

section \<open>The token index\<close>

text \<open>
  \<open>auth.New\<close> and \<open>Authenticator.Reload\<close> build this index with the same loop: later
  entries overwrite earlier ones that share a token.
\<close>

fun index_tokens ::
  "(string \<rightharpoonup> token_entry) \<Rightarrow> (string \<times> validator_config) list \<Rightarrow> (string \<rightharpoonup> token_entry)" where
  "index_tokens m [] = m"
| "index_tokens m ((name, v) # vs) =
     index_tokens (m(vc_token v \<mapsto> \<lparr>te_validator_name = name, te_config = v\<rparr>)) vs"

lemma index_tokens_notin:
  "(\<And>name v. (name, v) \<in> set vs \<Longrightarrow> vc_token v \<noteq> t) \<Longrightarrow> index_tokens m vs t = m t"
proof (induction vs arbitrary: m)
  case (Cons x vs)
  obtain name v where x: "x = (name, v)" by (cases x)
  with Cons.prems have "vc_token v \<noteq> t" by auto
  moreover have "index_tokens m' vs t = m' t" for m'
    by (rule Cons.IH) (use Cons.prems in auto)
  ultimately show ?case by (simp add: x)
qed simp

lemma index_tokens_in:
  assumes "distinct (map (\<lambda>nv. vc_token (snd nv)) vs)" and "(name, v) \<in> set vs"
  shows "index_tokens m vs (vc_token v) = Some \<lparr>te_validator_name = name, te_config = v\<rparr>"
  using assms
proof (induction vs arbitrary: m)
  case (Cons x vs)
  obtain n w where x: "x = (n, w)" by (cases x)
  show ?case
  proof (cases "(name, v) = (n, w)")
    case True
    have "index_tokens m' vs (vc_token w) = m' (vc_token w)" for m'
      using Cons.prems(1) by (intro index_tokens_notin) (force simp: x)
    with True show ?thesis by (simp add: x)
  next
    case False
    with Cons.prems have "distinct (map (\<lambda>nv. vc_token (snd nv)) vs)" "(name, v) \<in> set vs"
      by (auto simp: x)
    from Cons.IH [OF this] show ?thesis by (simp add: x)
  qed
qed simp

lemma index_tokens_Some_iff:
  assumes "distinct (map (\<lambda>nv. vc_token (snd nv)) vs)"
  shows "index_tokens Map.empty vs t = Some e \<longleftrightarrow>
     (\<exists>name v. (name, v) \<in> set vs \<and> vc_token v = t \<and>
        e = \<lparr>te_validator_name = name, te_config = v\<rparr>)"
proof (cases "\<exists>name v. (name, v) \<in> set vs \<and> vc_token v = t")
  case True
  then obtain name v where v: "(name, v) \<in> set vs" "vc_token v = t" by blast
  have i: "index_tokens Map.empty vs t = Some \<lparr>te_validator_name = name, te_config = v\<rparr>"
    using index_tokens_in [OF assms v(1)] unfolding v(2) .
  have u: "name' = name \<and> v' = v" if w: "(name', v') \<in> set vs" "vc_token v' = t" for name' v'
    using index_tokens_in [OF assms w(1), of Map.empty] unfolding w(2) i by simp
  show ?thesis unfolding i using v u by (metis option.inject)
next
  case False
  then have "index_tokens Map.empty vs t = None"
    by (subst index_tokens_notin) auto
  with False show ?thesis by auto
qed

lemma index_tokens_mset:
  assumes "distinct (map (\<lambda>nv. vc_token (snd nv)) vs)" and "mset vs = mset ws"
  shows "index_tokens Map.empty vs = index_tokens Map.empty ws"
proof
  fix t
  have d: "distinct (map (\<lambda>nv. vc_token (snd nv)) ws)"
    using assms by (metis mset_eq_imp_distinct_iff mset_map)
  have s: "set vs = set ws" using assms(2) by (rule mset_eq_setD)
  have "index_tokens Map.empty vs t = Some e \<longleftrightarrow> index_tokens Map.empty ws t = Some e" for e
    by (simp add: index_tokens_Some_iff [OF assms(1)] index_tokens_Some_iff [OF d] s)
  then show "index_tokens Map.empty vs t = index_tokens Map.empty ws t"
    by (metis not_None_eq)
qed

end
