(* ===== verification/Auth.thy ===== *)
theory Auth
  imports Http Wt_Config
begin

text \<open>
  Bearer-token authentication and per-IP bans (\<open>internal/watchtower/auth/auth.go\<close>).

  The authenticator's state is a record: the token index (looked up only), the two ban
  parameters, the per-IP failure records (an association list with distinct keys, since
  \<open>maybeSweep\<close> and \<open>BannedCount\<close> range over it) and the time of the last sweep. Every
  \<open>time.Now()\<close> of the code is an argument, so that two readings in one call may differ.
  The mutex-protected operations are separate functions; \<open>auth_op\<close> names them as atomic
  steps so that any interleaving of concurrent requests is a list of steps.
\<close>

section \<open>State\<close>

record ip_record =
  failures :: int
  ban_expiry :: gtime
  last_seen :: gtime

record authenticator =
  tokens :: "string \<rightharpoonup> token_entry"
  a_ban_threshold :: int
  a_ban_duration :: duration
  ips :: "(string \<times> ip_record) list"
  last_cleanup :: gtime
  has_metrics :: bool

definition new_authenticator ::
  "(string \<times> validator_config) list \<Rightarrow> int \<Rightarrow> duration \<Rightarrow> authenticator" where
  "new_authenticator vs threshold dur =
     \<lparr>tokens = index_tokens Map.empty vs, a_ban_threshold = threshold, a_ban_duration = dur,
      ips = [], last_cleanup = time_zero, has_metrics = False\<rparr>"

definition set_metrics :: "authenticator \<Rightarrow> authenticator" where
  "set_metrics a = a\<lparr>has_metrics := True\<rparr>"

definition reload :: "(string \<times> validator_config) list \<Rightarrow> authenticator \<Rightarrow> authenticator" where
  "reload vs a = a\<lparr>tokens := index_tokens Map.empty vs\<rparr>"

section \<open>The ban table\<close>

definition sweepable :: "duration \<Rightarrow> gtime \<Rightarrow> ip_record \<Rightarrow> bool" where
  "sweepable dur now r \<longleftrightarrow>
     (\<not> is_zero_time (ban_expiry r) \<and> ban_expiry r < now) \<or>
     (is_zero_time (ban_expiry r) \<and> dur < time_sub now (last_seen r))"

definition maybe_sweep :: "gtime \<Rightarrow> gtime \<Rightarrow> authenticator \<Rightarrow> authenticator" where
  "maybe_sweep since now a =
     (if time_sub since (last_cleanup a) < a_ban_duration a then a
      else a\<lparr>ips := filter (\<lambda>(ip, r). \<not> sweepable (a_ban_duration a) now r) (ips a),
             last_cleanup := now\<rparr>)"

definition is_banned ::
  "gtime \<Rightarrow> gtime \<Rightarrow> gtime \<Rightarrow> string \<Rightarrow> authenticator \<Rightarrow> bool \<times> authenticator" where
  "is_banned since now check ip a =
     (let a1 = maybe_sweep since now a
      in case map_of (ips a1) ip of
           None \<Rightarrow> (False, a1)
         | Some r \<Rightarrow>
             if is_zero_time (ban_expiry r) then (False, a1)
             else if ban_expiry r < check then (False, a1\<lparr>ips := AList.delete ip (ips a1)\<rparr>)
             else (True, a1))"

definition banned_count :: "gtime \<Rightarrow> authenticator \<Rightarrow> int" where
  "banned_count now a =
     int (length (filter (\<lambda>(ip, r). \<not> is_zero_time (ban_expiry r) \<and> now < ban_expiry r) (ips a)))"

definition zero_record :: ip_record where
  "zero_record = \<lparr>failures = 0, ban_expiry = time_zero, last_seen = time_zero\<rparr>"

definition bump_record :: "int \<Rightarrow> duration \<Rightarrow> gtime \<Rightarrow> ip_record \<Rightarrow> ip_record" where
  "bump_record threshold dur now r =
     (let r' = r\<lparr>failures := wrap64 (failures r + 1), last_seen := now\<rparr>
      in if threshold \<le> failures r' then r'\<lparr>ban_expiry := time_add (last_seen r') dur\<rparr> else r')"

definition record_failure :: "gtime \<Rightarrow> string \<Rightarrow> authenticator \<Rightarrow> authenticator" where
  "record_failure now ip a =
     (let r = (case map_of (ips a) ip of None \<Rightarrow> zero_record | Some r \<Rightarrow> r)
      in a\<lparr>ips := AList.update ip
              (bump_record (a_ban_threshold a) (a_ban_duration a) now r) (ips a)\<rparr>)"

definition record_success :: "string \<Rightarrow> authenticator \<Rightarrow> authenticator" where
  "record_success ip a = a\<lparr>ips := AList.delete ip (ips a)\<rparr>"

section \<open>Reading the request\<close>

definition bearer_token :: "http_request \<Rightarrow> string" where
  "bearer_token r =
     (case cut_prefix (header_get (rq_headers r) ''Authorization'') ''Bearer '' of
        None \<Rightarrow> [] | Some token \<Rightarrow> token)"

definition token_prefix :: "string \<Rightarrow> string" where
  "token_prefix s = (if length s > 8 then take 8 s else s)"

definition remote_ip :: "http_request \<Rightarrow> string" where
  "remote_ip r =
     (let xff = header_get (rq_headers r) ''X-Forwarded-For'';
          lst = trim_space (last (split_on (CHR '','') xff));
          direct = (case split_host (rq_remote_addr r) of
                      None \<Rightarrow> rq_remote_addr r | Some host \<Rightarrow> host)
      in if xff \<noteq> [] \<and> lst \<noteq> [] then lst else direct)"

section \<open>The middleware\<close>

text \<open>The four clock readings of one request, in the order the code takes them.\<close>

record auth_clock =
  c_since :: gtime
  c_sweep :: gtime
  c_check :: gtime
  c_fail :: gtime

datatype auth_verdict = Rejected http_response | Authenticated string validator_config

record auth_log =
  al_reason :: string
  al_ip :: string
  al_path :: string
  al_token_prefix :: string

record auth_result =
  ar_state :: authenticator
  ar_verdict :: auth_verdict
  ar_metrics :: "string list" \<comment> \<open>reasons passed to \<open>RecordAuthFailure\<close>\<close>
  ar_logs :: "auth_log list"

definition auth_middleware :: "auth_clock \<Rightarrow> http_request \<Rightarrow> authenticator \<Rightarrow> auth_result" where
  "auth_middleware c r a =
     (let ip = remote_ip r;
          (banned, a1) = is_banned (c_since c) (c_sweep c) (c_check c) ip a;
          token = bearer_token r;
          metric = (\<lambda>reason. if has_metrics a then [reason] else []);
          entry = (\<lambda>reason. \<lparr>al_reason = reason, al_ip = ip, al_path = rq_path r,
                            al_token_prefix = token_prefix token\<rparr>)
      in if banned then
           \<lparr>ar_state = a1, ar_verdict = Rejected (http_error ''banned'' status_forbidden),
            ar_metrics = metric ''banned'', ar_logs = [entry ''banned'']\<rparr>
         else case tokens a1 token of
           None \<Rightarrow>
             \<lparr>ar_state = record_failure (c_fail c) ip a1,
              ar_verdict = Rejected (http_error ''unauthorized'' status_unauthorized),
              ar_metrics = metric ''invalid_token'', ar_logs = [entry ''invalid_token'']\<rparr>
         | Some e \<Rightarrow>
             \<lparr>ar_state = record_success ip a1,
              ar_verdict = Authenticated (te_validator_name e) (te_config e),
              ar_metrics = [], ar_logs = []\<rparr>)"

section \<open>Basic facts\<close>

lemma maybe_sweep_sel [simp]:
  "tokens (maybe_sweep s n a) = tokens a"
  "a_ban_threshold (maybe_sweep s n a) = a_ban_threshold a"
  "a_ban_duration (maybe_sweep s n a) = a_ban_duration a"
  "has_metrics (maybe_sweep s n a) = has_metrics a"
  by (simp_all add: maybe_sweep_def)

lemma is_banned_sel [simp]:
  "tokens (snd (is_banned s n c ip a)) = tokens a"
  "a_ban_threshold (snd (is_banned s n c ip a)) = a_ban_threshold a"
  "a_ban_duration (snd (is_banned s n c ip a)) = a_ban_duration a"
  "has_metrics (snd (is_banned s n c ip a)) = has_metrics a"
  by (auto simp: is_banned_def Let_def split: option.splits)

lemma record_failure_sel [simp]:
  "tokens (record_failure n ip a) = tokens a"
  "a_ban_threshold (record_failure n ip a) = a_ban_threshold a"
  "a_ban_duration (record_failure n ip a) = a_ban_duration a"
  "has_metrics (record_failure n ip a) = has_metrics a"
  by (simp_all add: record_failure_def Let_def)

lemma record_success_sel [simp]:
  "tokens (record_success ip a) = tokens a"
  "a_ban_threshold (record_success ip a) = a_ban_threshold a"
  "a_ban_duration (record_success ip a) = a_ban_duration a"
  "has_metrics (record_success ip a) = has_metrics a"
  by (simp_all add: record_success_def)

lemma distinct_maybe_sweep: "distinct_keys (ips a) \<Longrightarrow> distinct_keys (ips (maybe_sweep s n a))"
  by (simp add: maybe_sweep_def distinct_keys_filter)

lemma distinct_is_banned:
  "distinct_keys (ips a) \<Longrightarrow> distinct_keys (ips (snd (is_banned s n c ip a)))"
  using distinct_maybe_sweep [of a s n]
  by (auto simp: is_banned_def Let_def distinct_delete split: option.splits)

lemma distinct_record_failure:
  "distinct_keys (ips a) \<Longrightarrow> distinct_keys (ips (record_failure n ip a))"
  by (simp add: record_failure_def Let_def distinct_update)

lemma distinct_record_success:
  "distinct_keys (ips a) \<Longrightarrow> distinct_keys (ips (record_success ip a))"
  by (simp add: record_success_def distinct_delete)

text \<open>How each operation changes the record of one IP.\<close>

lemma lookup_maybe_sweep:
  "distinct_keys (ips a) \<Longrightarrow>
   map_of (ips (maybe_sweep s n a)) ip =
     (case map_of (ips a) ip of
        None \<Rightarrow> None
      | Some r \<Rightarrow> if a_ban_duration a \<le> time_sub s (last_cleanup a) \<and> sweepable (a_ban_duration a) n r
                  then None else Some r)"
  by (auto simp: maybe_sweep_def map_of_filter_keys split: option.splits)

lemma lookup_record_failure:
  "map_of (ips (record_failure n ip a)) ip' =
     (if ip' = ip
      then Some (bump_record (a_ban_threshold a) (a_ban_duration a) n
                  (case map_of (ips a) ip of None \<Rightarrow> zero_record | Some r \<Rightarrow> r))
      else map_of (ips a) ip')"
  by (simp add: record_failure_def Let_def update_conv')

lemma lookup_record_success:
  "map_of (ips (record_success ip a)) ip' = (if ip' = ip then None else map_of (ips a) ip')"
  by (simp add: record_success_def delete_conv')

lemma lookup_is_banned:
  "map_of (ips (snd (is_banned s n c ip a))) ip' =
     (case map_of (ips (maybe_sweep s n a)) ip' of
        None \<Rightarrow> None
      | Some r \<Rightarrow>
          if ip' = ip \<and> \<not> is_zero_time (ban_expiry r) \<and> ban_expiry r < c then None else Some r)"
  by (auto simp: is_banned_def Let_def delete_conv' split: option.splits)

lemma is_banned_iff:
  "fst (is_banned s n c ip a) \<longleftrightarrow>
     (\<exists>r. map_of (ips (maybe_sweep s n a)) ip = Some r \<and>
          \<not> is_zero_time (ban_expiry r) \<and> c \<le> ban_expiry r)"
  by (auto simp: is_banned_def Let_def split: option.splits)

lemmas auth_lookup = lookup_maybe_sweep lookup_record_failure lookup_record_success lookup_is_banned
lemmas auth_distinct =
  distinct_maybe_sweep distinct_is_banned distinct_record_failure distinct_record_success

end
