(* ===== verification/Auth_Props.thy ===== *)
theory Auth_Props
  imports Auth
begin

text \<open>
  What the authenticator promises: who is admitted, when an IP is banned and for how long,
  that clients do not affect each other's bans, and that the ban table stays well formed
  under every interleaving of its operations.
\<close>

section \<open>Runs\<close>

definition clock_within :: "gtime \<Rightarrow> gtime \<Rightarrow> auth_clock \<Rightarrow> bool" where
  "clock_within lo hi c \<longleftrightarrow>
     (\<forall>t \<in> {c_since c, c_sweep c, c_check c, c_fail c}. lo \<le> t \<and> t \<le> hi)"

fun auth_run :: "(auth_clock \<times> http_request) list \<Rightarrow> authenticator \<Rightarrow> authenticator" where
  "auth_run [] a = a"
| "auth_run ((c, r) # crs) a = auth_run crs (ar_state (auth_middleware c r a))"

datatype auth_op =
    OpIsBanned gtime gtime gtime string
  | OpFailure gtime string
  | OpSuccess string
  | OpReload "(string \<times> validator_config) list"

fun auth_step :: "auth_op \<Rightarrow> authenticator \<Rightarrow> authenticator" where
  "auth_step (OpIsBanned s n c ip) a = snd (is_banned s n c ip a)"
| "auth_step (OpFailure n ip) a = record_failure n ip a"
| "auth_step (OpSuccess ip) a = record_success ip a"
| "auth_step (OpReload vs) a = reload vs a"

lemma auth_middleware_state_sel [simp]:
  "tokens (ar_state (auth_middleware c r a)) = tokens a"
  "a_ban_threshold (ar_state (auth_middleware c r a)) = a_ban_threshold a"
  "a_ban_duration (ar_state (auth_middleware c r a)) = a_ban_duration a"
  by (auto simp: auth_middleware_def Let_def split: prod.split option.split)
     (metis is_banned_sel snd_conv)+

lemma distinct_auth_middleware:
  "distinct_keys (ips a) \<Longrightarrow> distinct_keys (ips (ar_state (auth_middleware c r a)))"
  using distinct_is_banned [of a "c_since c" "c_sweep c" "c_check c" "remote_ip r"]
  by (auto simp: auth_middleware_def Let_def distinct_record_failure distinct_record_success
      split: prod.split option.split)

section \<open>Sample inputs\<close>

definition demo_clock :: auth_clock where
  "demo_clock = \<lparr>c_since = 0, c_sweep = 0, c_check = 0, c_fail = 0\<rparr>"

definition demo_request :: "string \<Rightarrow> string \<Rightarrow> http_request" where
  "demo_request ip token =
     \<lparr>rq_method = ''POST'', rq_path = ''/rpc'', rq_query = [],
      rq_headers = [(''Authorization'', [''Bearer '' @ token]), (''X-Forwarded-For'', [ip])],
      rq_remote_addr = ''172.17.0.2:4000'', rq_body = ''{}'', rq_body_fails = False\<rparr>"

section \<open>Who is admitted\<close>

text \<open>The state after a request, by the three ways it can go.\<close>

lemma auth_middleware_banned:
  assumes "fst (is_banned (c_since c) (c_sweep c) (c_check c) (remote_ip r) a)"
  shows "ar_verdict (auth_middleware c r a) = Rejected (http_error ''banned'' status_forbidden)"
    and "ar_state (auth_middleware c r a) =
         snd (is_banned (c_since c) (c_sweep c) (c_check c) (remote_ip r) a)"
  using assms
  by (cases "is_banned (c_since c) (c_sweep c) (c_check c) (remote_ip r) a";
      simp add: auth_middleware_def Let_def)+

lemma auth_middleware_unknown:
  assumes "\<not> fst (is_banned (c_since c) (c_sweep c) (c_check c) (remote_ip r) a)"
    and "tokens a (bearer_token r) = None"
  shows "ar_verdict (auth_middleware c r a) =
           Rejected (http_error ''unauthorized'' status_unauthorized)"
    and "ar_state (auth_middleware c r a) = record_failure (c_fail c) (remote_ip r)
         (snd (is_banned (c_since c) (c_sweep c) (c_check c) (remote_ip r) a))"
  using assms is_banned_sel(1) [of "c_since c" "c_sweep c" "c_check c" "remote_ip r" a]
  by (cases "is_banned (c_since c) (c_sweep c) (c_check c) (remote_ip r) a";
      simp add: auth_middleware_def Let_def)+

lemma auth_middleware_known:
  assumes "\<not> fst (is_banned (c_since c) (c_sweep c) (c_check c) (remote_ip r) a)"
    and "tokens a (bearer_token r) = Some e"
  shows "ar_verdict (auth_middleware c r a) = Authenticated (te_validator_name e) (te_config e)"
    and "ar_state (auth_middleware c r a) = record_success (remote_ip r)
         (snd (is_banned (c_since c) (c_sweep c) (c_check c) (remote_ip r) a))"
  using assms is_banned_sel(1) [of "c_since c" "c_sweep c" "c_check c" "remote_ip r" a]
  by (cases "is_banned (c_since c) (c_sweep c) (c_check c) (remote_ip r) a";
      simp add: auth_middleware_def Let_def)+

lemma bearer_token_eq:
  "t \<noteq> [] \<Longrightarrow> bearer_token r = t \<longleftrightarrow>
     header_get (rq_headers r) ''Authorization'' = ''Bearer '' @ t"
  by (auto simp: bearer_token_def cut_prefix_def has_prefix_iff split: option.splits if_splits)

lemma auth_middleware_authenticated_iff:
  "ar_verdict (auth_middleware c r a) = Authenticated name v \<longleftrightarrow>
     \<not> fst (is_banned (c_since c) (c_sweep c) (c_check c) (remote_ip r) a) \<and>
     tokens a (bearer_token r) = Some \<lparr>te_validator_name = name, te_config = v\<rparr>"
proof (cases "fst (is_banned (c_since c) (c_sweep c) (c_check c) (remote_ip r) a)")
  case True
  then show ?thesis by (simp add: auth_middleware_banned)
next
  case False
  then show ?thesis
    by (cases "tokens a (bearer_token r)")
       (auto simp: auth_middleware_unknown auth_middleware_known intro: token_entry.equality)
qed

text \<open>C5: with a configuration that passes validation, a request gets past the middleware as
  validator \<open>name\<close> exactly when its IP is not banned and its Authorization header is
  \<open>Bearer\<close> followed by the (non-empty) token of that validator's section.\<close>

theorem admitted_iff_registered_token:
  assumes "validate cfg = None"
    and "tokens a = tokens (new_authenticator (validators cfg) n d)"
  shows "ar_verdict (auth_middleware c r a) = Authenticated name v \<longleftrightarrow>
     \<not> fst (is_banned (c_since c) (c_sweep c) (c_check c) (remote_ip r) a) \<and>
     (name, v) \<in> set (validators cfg) \<and>
     header_get (rq_headers r) ''Authorization'' = ''Bearer '' @ vc_token v"
proof -
  have ok: "validators_ok (validators cfg)"
    using assms(1) by (simp add: validate_None_iff config_ok_def)
  have tok: "tokens a (bearer_token r) = Some \<lparr>te_validator_name = name, te_config = v\<rparr> \<longleftrightarrow>
      (name, v) \<in> set (validators cfg) \<and> vc_token v = bearer_token r"
    using index_tokens_Some_iff [of "validators cfg"] ok assms(2)
    by (auto simp: new_authenticator_def validators_ok_def)
  show ?thesis
  proof (cases "(name, v) \<in> set (validators cfg)")
    case True
    then have "vc_token v \<noteq> []"
      using ok by (auto simp: validators_ok_def validator_ok_def)
    from bearer_token_eq [OF this, of r] True tok show ?thesis
      by (auto simp: auth_middleware_authenticated_iff)
  next
    case False
    with tok show ?thesis by (simp add: auth_middleware_authenticated_iff)
  qed
qed

theorem admitted_iff_registered_token_witness:
  "validate default_config = None \<and>
   ar_verdict (auth_middleware demo_clock (demo_request ''10.0.0.1'' ''<secret-token>'')
     (new_authenticator (validators default_config) 5 (15 * minute))) =
   Authenticated ''my-validator'' (snd (hd (validators default_config)))"
proof -
  have v: "validate default_config = None"
    by (simp add: default_config_def validate_def min_rate_limit_burst_def valid_permissions_def
        duration_units)
  have nb: "\<not> fst (is_banned 0 0 0 ip (new_authenticator (validators default_config) 5 d))" for ip d
    by (simp add: is_banned_iff maybe_sweep_def new_authenticator_def)
  show ?thesis
    unfolding admitted_iff_registered_token [OF v refl]
    using v nb
    by (auto simp: demo_clock_def demo_request_def header_get_def default_config_def)
qed

section \<open>Banning\<close>

text \<open>
  The record of \<open>ip\<close> after \<open>k\<close> failed requests, all within \<open>dur\<close> of \<open>start\<close>.
\<close>

definition failing :: "int \<Rightarrow> duration \<Rightarrow> gtime \<Rightarrow> nat \<Rightarrow> ip_record option \<Rightarrow> bool" where
  "failing threshold dur start k rec \<longleftrightarrow>
     (case rec of
        None \<Rightarrow> k = 0
      | Some r \<Rightarrow>
          0 < k \<and>
          (if int k < threshold
           then failures r = int k \<and> is_zero_time (ban_expiry r) \<and>
                start \<le> last_seen r \<and> last_seen r \<le> start + dur
           else start + dur \<le> ban_expiry r \<and> \<not> is_zero_time (ban_expiry r)))"

lemma failing_sweep:
  assumes "failing threshold dur start k (map_of (ips a) ip)"
    and "distinct_keys (ips a)" and "a_ban_duration a = dur" and "int64_range dur"
    and "start \<le> n" and "n \<le> start + dur"
  shows "map_of (ips (maybe_sweep s n a)) ip = map_of (ips a) ip"
proof (cases "map_of (ips a) ip")
  case (Some r)
  have "\<not> sweepable dur n r"
  proof (cases "int k < threshold")
    case True
    with Some assms have "time_sub n (last_seen r) \<le> dur" "is_zero_time (ban_expiry r)"
      by (auto simp: failing_def intro: time_sub_le_diff)
    then show ?thesis by (simp add: sweepable_def)
  next
    case False
    with Some assms show ?thesis by (auto simp: failing_def sweepable_def)
  qed
  with Some assms show ?thesis by (simp add: lookup_maybe_sweep)
qed (use assms in \<open>simp add: lookup_maybe_sweep\<close>)

lemma failing_is_banned:
  assumes "failing threshold dur start k (map_of (ips a) ip)"
    and "distinct_keys (ips a)" and "a_ban_duration a = dur" and "int64_range dur"
    and "start \<le> n" and "n \<le> start + dur" and "c \<le> start + dur"
  shows "map_of (ips (snd (is_banned s n c ip' a))) ip = map_of (ips a) ip"
    and "0 < threshold \<Longrightarrow> fst (is_banned s n c ip a) \<longleftrightarrow> threshold \<le> int k"
proof -
  note sw = failing_sweep [OF assms(1-6), of s]
  show "map_of (ips (snd (is_banned s n c ip' a))) ip = map_of (ips a) ip"
    using assms(1,7) by (auto simp: lookup_is_banned sw failing_def split: option.splits if_splits)
  show "0 < threshold \<Longrightarrow> fst (is_banned s n c ip a) \<longleftrightarrow> threshold \<le> int k"
    using assms(1,7) by (auto simp: is_banned_iff sw failing_def split: option.splits if_splits)
qed

lemma failing_bump:
  assumes "failing threshold dur start k rec" and "int k < threshold"
    and "start \<le> n" and "n \<le> start + dur" and "0 < dur" and "time_zero < start" and "int64_range threshold"
  shows "failing threshold dur start (Suc k)
    (Some (bump_record threshold dur n (case rec of None \<Rightarrow> zero_record | Some r \<Rightarrow> r)))"
proof -
  have "failures (case rec of None \<Rightarrow> zero_record | Some r \<Rightarrow> r) = int k"
    using assms(1,2) by (auto simp: failing_def zero_record_def split: option.splits)
  moreover have "is_zero_time (ban_expiry (case rec of None \<Rightarrow> zero_record | Some r \<Rightarrow> r))"
    using assms(1,2) by (auto simp: failing_def zero_record_def is_zero_time_def split: option.splits)
  moreover have "int64_range (int k + 1)"
    using assms(2,7) by (simp add: int64_range_def)
  ultimately show ?thesis
    using assms
    by (auto simp: failing_def bump_record_def Let_def time_add_def is_zero_time_def add.commute)
qed

definition from_ip :: "string \<Rightarrow> auth_clock \<times> http_request \<Rightarrow> bool" where
  "from_ip ip cr \<longleftrightarrow> remote_ip (snd cr) = ip"

lemma failing_request:
  assumes "failing threshold dur start k (map_of (ips a) ip)" and "distinct_keys (ips a)"
    and "a_ban_threshold a = threshold" and "a_ban_duration a = dur"
    and "0 < threshold" and "int64_range threshold" and "0 < dur" and "int64_range dur"
    and "time_zero < start" and "clock_within start (start + dur) c"
    and "remote_ip r = ip \<longrightarrow> tokens a (bearer_token r) = None"
  shows "\<exists>k'. (if remote_ip r = ip then min (Suc k) (nat threshold) \<le> k' else k \<le> k') \<and>
     failing threshold dur start k' (map_of (ips (ar_state (auth_middleware c r a))) ip)"
proof -
  let ?ib = "is_banned (c_since c) (c_sweep c) (c_check c) (remote_ip r) a"
  have cl: "start \<le> c_sweep c" "c_sweep c \<le> start + dur" "c_check c \<le> start + dur"
      "start \<le> c_fail c" "c_fail c \<le> start + dur"
    using assms(10) by (auto simp: clock_within_def)
  note same = failing_is_banned(1) [OF assms(1,2,4,8) cl(1-3)]
  note ban = failing_is_banned(2) [OF assms(1,2,4,8) cl(1-3) assms(5)]
  show ?thesis
  proof (cases "remote_ip r = ip")
    case False
    have "map_of (ips (ar_state (auth_middleware c r a))) ip = map_of (ips a) ip"
    proof (cases "fst ?ib")
      case True
      then show ?thesis by (simp add: auth_middleware_banned same)
    next
      case nb: False
      then show ?thesis
        using False same [of "c_since c" "remote_ip r"]
        by (cases "tokens a (bearer_token r)")
           (simp_all add: auth_middleware_unknown auth_middleware_known auth_lookup(2,3))
    qed
    with False assms(1) show ?thesis by auto
  next
    case True
    show ?thesis
    proof (cases "fst ?ib")
      case b: True
      with True ban have "threshold \<le> int k" by simp
      with b True same assms(1) show ?thesis
        by (intro exI [of _ k]) (auto simp: auth_middleware_banned)
    next
      case nb: False
      with True ban have "int k < threshold" by simp
      from failing_bump [OF assms(1) this cl(4,5) assms(7,9,6)] nb True assms(3,4,11) same
      show ?thesis
        by (intro exI [of _ "Suc k"]) (auto simp: auth_middleware_unknown lookup_record_failure)
    qed
  qed
qed

lemma failing_run:
  assumes "failing threshold dur start k (map_of (ips a) ip)" and "distinct_keys (ips a)"
    and "a_ban_threshold a = threshold" and "a_ban_duration a = dur"
    and "0 < threshold" and "int64_range threshold" and "0 < dur" and "int64_range dur"
    and "time_zero < start" and "\<forall>(c, r) \<in> set crs. clock_within start (start + dur) c"
    and "\<forall>(c, r) \<in> set crs. remote_ip r = ip \<longrightarrow> tokens a (bearer_token r) = None"
  shows "\<exists>k'. min (k + length (filter (from_ip ip) crs)) (nat threshold) \<le> k' \<and>
     failing threshold dur start k' (map_of (ips (auth_run crs a)) ip) \<and>
     distinct_keys (ips (auth_run crs a)) \<and> a_ban_duration (auth_run crs a) = dur"
  using assms
proof (induction crs arbitrary: a k)
  case Nil
  then show ?case by (intro exI [of _ k]) simp
next
  case (Cons cr crs)
  obtain c r where cr: "cr = (c, r)" by (cases cr)
  let ?a' = "ar_state (auth_middleware c r a)"
  obtain k1 where k1: "if remote_ip r = ip then min (Suc k) (nat threshold) \<le> k1 else k \<le> k1"
      "failing threshold dur start k1 (map_of (ips ?a') ip)"
    using failing_request [of threshold dur start k a ip c r] Cons.prems by (auto simp: cr)
  from Cons.IH [OF k1(2)] Cons.prems distinct_auth_middleware
  obtain k2 where k2: "min (k1 + length (filter (from_ip ip) crs)) (nat threshold) \<le> k2"
      "failing threshold dur start k2 (map_of (ips (auth_run crs ?a')) ip)"
      "distinct_keys (ips (auth_run crs ?a'))" "a_ban_duration (auth_run crs ?a') = dur"
    by (auto simp: cr)
  have "min (k + length (filter (from_ip ip) (cr # crs))) (nat threshold) \<le> k2"
    using k1(1) k2(1) by (auto simp: cr from_ip_def split: if_splits)
  with k2 show ?case by (auto simp: cr)
qed

text \<open>C6: an IP without a failure record whose requests carry unregistered tokens is banned once
  it has made \<open>BanThreshold\<close> of them within a window of \<open>BanDuration\<close>, whatever other
  clients do in between: every later request in the window, even one with a valid token,
  is answered 403.\<close>

theorem banned_after_threshold:
  assumes "distinct_keys (ips a)" and "map_of (ips a) ip = None"
    and "0 < a_ban_threshold a" and "int64_range (a_ban_threshold a)"
    and "0 < a_ban_duration a" and "int64_range (a_ban_duration a)" and "time_zero < start"
    and "\<forall>(c, r) \<in> set crs. clock_within start (start + a_ban_duration a) c"
    and "\<forall>(c, r) \<in> set crs. remote_ip r = ip \<longrightarrow> tokens a (bearer_token r) = None"
    and "a_ban_threshold a \<le> int (length (filter (from_ip ip) crs))"
    and "remote_ip r = ip" and "clock_within start (start + a_ban_duration a) c"
  shows "ar_verdict (auth_middleware c r (auth_run crs a)) =
           Rejected (http_error ''banned'' status_forbidden)"
proof -
  have "failing (a_ban_threshold a) (a_ban_duration a) start 0 (map_of (ips a) ip)"
    using assms(2) by (simp add: failing_def)
  moreover have "nat (a_ban_threshold a) \<le> length (filter (from_ip ip) crs)"
    using assms(10) by simp
  ultimately obtain k' where
    k': "nat (a_ban_threshold a) \<le> k'"
      "failing (a_ban_threshold a) (a_ban_duration a) start k' (map_of (ips (auth_run crs a)) ip)"
      "distinct_keys (ips (auth_run crs a))" "a_ban_duration (auth_run crs a) = a_ban_duration a"
    using failing_run [OF _ assms(1) refl refl assms(3-9), of 0]
    by (simp add: min_absorb2) blast
  from failing_is_banned(2) [OF k'(2-4) assms(6) _ _ _ assms(3), of "c_sweep c" "c_check c"]
    k'(1) assms(11,12)
  show ?thesis
    by (intro auth_middleware_banned(1)) (auto simp: clock_within_def)
qed

theorem banned_after_threshold_witness:
  "ar_verdict (auth_middleware demo_clock (demo_request ''10.0.0.1'' ''<secret-token>'')
     (auth_run [(demo_clock, demo_request ''10.0.0.1'' ''wrong''),
                (demo_clock, demo_request ''10.0.0.2'' ''<secret-token>''),
                (demo_clock, demo_request ''10.0.0.1'' ''wrong'')]
        (new_authenticator (validators default_config) 2 minute))) =
   Rejected (http_error ''banned'' status_forbidden)"
proof -
  have ip: "remote_ip (demo_request ''10.0.0.1'' t) = ''10.0.0.1''"
    "remote_ip (demo_request ''10.0.0.2'' t) = ''10.0.0.2''" for t
    by (simp_all add: remote_ip_def demo_request_def header_get_def trim_space_def ascii_space_def
        space2_def space3_def)
  have bt: "bearer_token (demo_request ip ''wrong'') = ''wrong''" for ip
    by (subst bearer_token_eq) (simp_all add: demo_request_def header_get_def)
  show ?thesis
    by (rule banned_after_threshold [where ip = "''10.0.0.1''" and start = 0])
       (simp_all add: ip bt from_ip_def new_authenticator_def clock_within_def demo_clock_def
          default_config_def int64_range_def duration_units time_zero_def)
qed

end
