(* ===== verification/Keyed_Store.thy ===== *)
theory Keyed_Store
  imports Prelude
begin

text \<open>
  The interface shared by every component that keeps one piece of state per key behind one
  map: the rate limiter (a bucket per validator), the delta filter (a digest per key) and
  the two traffic counters (a row per type). The provider's law is that an operation on key
  \<open>k\<close> reads and writes only the state of \<open>k\<close>; what the client gets is that the state and
  the answers a key sees in any interleaving are those of its own operations run alone.
\<close>

fun run_ops :: "('op \<Rightarrow> 's \<Rightarrow> 'o \<times> 's) \<Rightarrow> 'op list \<Rightarrow> 's \<Rightarrow> 'o list \<times> 's" where
  "run_ops step [] s = ([], s)"
| "run_ops step (x # xs) s =
     (let (y, s1) = step x s; (ys, s2) = run_ops step xs s1 in (y # ys, s2))"

lemma run_ops_fst [simp]:
  "fst (run_ops step (x # xs) s) = fst (step x s) # fst (run_ops step xs (snd (step x s)))"
  by (simp split: prod.split)

lemma run_ops_snd [simp]:
  "snd (run_ops step (x # xs) s) = snd (run_ops step xs (snd (step x s)))"
  by (simp split: prod.split)

declare run_ops.simps(2) [simp del]

lemma run_ops_length [simp]: "length (fst (run_ops step xs s)) = length xs"
  by (induction xs arbitrary: s) auto

lemma run_ops_invariant:
  "(\<And>x s. x \<in> set xs \<Longrightarrow> P s \<Longrightarrow> P (snd (step x s))) \<Longrightarrow> P s \<Longrightarrow> P (snd (run_ops step xs s))"
  by (induction xs arbitrary: s) auto

locale keyed_store =
  fixes view :: "'s \<Rightarrow> 'k \<Rightarrow> 'v"
    and key :: "'op \<Rightarrow> 'k"
    and step :: "'op \<Rightarrow> 's \<Rightarrow> 'o \<times> 's"
    and local_step :: "'op \<Rightarrow> 'v \<Rightarrow> 'o \<times> 'v"
  assumes answer: "fst (step x s) = fst (local_step x (view s (key x)))"
    and view_own: "view (snd (step x s)) (key x) = snd (local_step x (view s (key x)))"
    and view_other: "k \<noteq> key x \<Longrightarrow> view (snd (step x s)) k = view s k"
begin

definition answers_for :: "'k \<Rightarrow> 'op list \<Rightarrow> 's \<Rightarrow> 'o list" where
  "answers_for k xs s = map snd (filter (\<lambda>(x, y). key x = k) (zip xs (fst (run_ops step xs s))))"

lemma view_run:
  "view (snd (run_ops step xs s)) k =
     snd (run_ops local_step (filter (\<lambda>x. key x = k) xs) (view s k))"
  by (induction xs arbitrary: s) (auto simp: view_own view_other)

lemma answers_isolated:
  "answers_for k xs s = fst (run_ops local_step (filter (\<lambda>x. key x = k) xs) (view s k))"
  by (induction xs arbitrary: s) (auto simp: answers_for_def answer view_own view_other)

lemma untouched:
  "(\<And>x. x \<in> set xs \<Longrightarrow> key x \<noteq> k) \<Longrightarrow> view (snd (run_ops step xs s)) k = view s k"
  by (simp add: view_run filter_empty_conv [THEN iffD2])

end

end
