(* ===== verification/Ratelimit.thy ===== *)
theory Ratelimit
  imports Auth Keyed_Store
begin

text \<open>
  The per-validator rate limiter (\<open>internal/watchtower/ratelimit/ratelimit.go\<close>). The token
  bucket itself is \<open>golang.org/x/time/rate\<close>, a package outside the repository: its
  constructor and its \<open>Allow\<close> (given the clock reading it takes) are the arguments
  \<open>new_bucket\<close> and \<open>allow_bucket\<close>. The rest is the map of buckets and the middleware.
\<close>

record 'l limiter =
  l_rps :: f64
  l_burst :: int
  l_on_limit :: bool \<comment> \<open>whether the \<open>onLimit\<close> callback is set\<close>
  limiters :: "string \<rightharpoonup> 'l"

definition new_limiter :: "f64 \<Rightarrow> int \<Rightarrow> bool \<Rightarrow> 'l limiter" where
  "new_limiter rps burst on_limit =
     \<lparr>l_rps = rps, l_burst = burst, l_on_limit = on_limit, limiters = Map.empty\<rparr>"

definition allow ::
  "(f64 \<Rightarrow> int \<Rightarrow> 'l) \<Rightarrow> (gtime \<Rightarrow> 'l \<Rightarrow> bool \<times> 'l) \<Rightarrow> gtime \<Rightarrow> string \<Rightarrow>
   'l limiter \<Rightarrow> bool \<times> 'l limiter" where
  "allow new_bucket allow_bucket now name l =
     (let bk = (case limiters l name of
                   None \<Rightarrow> new_bucket (l_rps l) (l_burst l) | Some bk \<Rightarrow> bk);
          (ok, bk') = allow_bucket now bk
      in (ok, l\<lparr>limiters := (limiters l)(name \<mapsto> bk')\<rparr>))"

record 'l limit_result =
  lr_state :: "'l limiter"
  lr_response :: "http_response option" \<comment> \<open>\<open>None\<close>: the next handler runs\<close>
  lr_limited :: "string list" \<comment> \<open>validators passed to \<open>onLimit\<close>\<close>

definition limit_middleware ::
  "(f64 \<Rightarrow> int \<Rightarrow> 'l) \<Rightarrow> (gtime \<Rightarrow> 'l \<Rightarrow> bool \<times> 'l) \<Rightarrow> gtime \<Rightarrow>
   (string \<times> validator_config) option \<Rightarrow> 'l limiter \<Rightarrow> 'l limit_result" where
  "limit_middleware new_bucket allow_bucket now ctx l =
     (case ctx of
        None \<Rightarrow>
          \<lparr>lr_state = l, lr_response = Some (http_error ''unauthorized'' status_unauthorized),
           lr_limited = []\<rparr>
      | Some (name, _) \<Rightarrow>
          (let (ok, l') = allow new_bucket allow_bucket now name l
           in if ok then \<lparr>lr_state = l', lr_response = None, lr_limited = []\<rparr>
              else \<lparr>lr_state = l',
                    lr_response = Some (http_error_with [(''Retry-After'', [''1''])]
                       ''rate limit exceeded'' status_too_many_requests),
                    lr_limited = (if l_on_limit l then [name] else [])\<rparr>))"

section \<open>One bucket per validator\<close>

text \<open>A rate-limit decision: which validator asks, and when.\<close>

type_synonym limit_op = "gtime \<times> string"

definition limit_step ::
  "(f64 \<Rightarrow> int \<Rightarrow> 'l) \<Rightarrow> (gtime \<Rightarrow> 'l \<Rightarrow> bool \<times> 'l) \<Rightarrow> limit_op \<Rightarrow> 'l limiter \<Rightarrow> bool \<times> 'l limiter" where
  "limit_step nb ab x = allow nb ab (fst x) (snd x)"

text \<open>What one validator sees: its bucket (fresh until its first request).\<close>

definition bucket_of :: "(f64 \<Rightarrow> int \<Rightarrow> 'l) \<Rightarrow> 'l limiter \<Rightarrow> string \<Rightarrow> (f64 \<times> int) \<times> 'l" where
  "bucket_of nb l name =
     ((l_rps l, l_burst l),
      (case limiters l name of None \<Rightarrow> nb (l_rps l) (l_burst l) | Some bk \<Rightarrow> bk))"

definition bucket_step ::
  "(gtime \<Rightarrow> 'l \<Rightarrow> bool \<times> 'l) \<Rightarrow> limit_op \<Rightarrow> (f64 \<times> int) \<times> 'l \<Rightarrow> bool \<times> ((f64 \<times> int) \<times> 'l)" where
  "bucket_step ab x v = (let (ok, bk) = ab (fst x) (snd v) in (ok, (fst v, bk)))"

interpretation rl: keyed_store "bucket_of nb" snd "limit_step nb ab" "bucket_step ab"
  for nb :: "f64 \<Rightarrow> int \<Rightarrow> 'l" and ab
  by unfold_locales
     (auto simp: limit_step_def bucket_step_def bucket_of_def allow_def Let_def
        split: prod.splits option.splits)

lemma allow_sel [simp]:
  "l_rps (snd (allow nb ab t n l)) = l_rps l"
  "l_burst (snd (allow nb ab t n l)) = l_burst l"
  "l_on_limit (snd (allow nb ab t n l)) = l_on_limit l"
  by (simp_all add: allow_def Let_def split: prod.split)

text \<open>The answers a validator gets in a run of the limiter, in order.\<close>

definition verdicts_for ::
  "(f64 \<Rightarrow> int \<Rightarrow> 'l) \<Rightarrow> (gtime \<Rightarrow> 'l \<Rightarrow> bool \<times> 'l) \<Rightarrow> string \<Rightarrow> limit_op list \<Rightarrow> 'l limiter \<Rightarrow> bool list" where
  "verdicts_for nb ab name xs l =
     map snd (filter (\<lambda>(x, ok). snd x = name) (zip xs (fst (run_ops (limit_step nb ab) xs l))))"

lemma bucket_run:
  "fst (run_ops (bucket_step ab) xs (p, bk)) = fst (run_ops ab (map fst xs) bk)"
  by (induction xs arbitrary: bk) (auto simp: bucket_step_def split: prod.split)

text \<open>C36: the answers a validator gets from the shared limiter, whatever other validators send in
  between, are those of a private bucket fed only with its own requests; no validator can
  use up another one's budget.\<close>

theorem rate_limit_isolation:
  "verdicts_for nb ab name xs (new_limiter rps burst on_limit) =
     fst (run_ops ab (map fst (filter (\<lambda>x. snd x = name) xs)) (nb rps burst))"
proof -
  have "verdicts_for nb ab name xs (new_limiter rps burst on_limit) =
      fst (run_ops (bucket_step ab) (filter (\<lambda>x. snd x = name) xs)
        (bucket_of nb (new_limiter rps burst on_limit) name))"
    unfolding verdicts_for_def rl.answers_for_def [symmetric] by (rule rl.answers_isolated)
  then show ?thesis
    by (simp add: bucket_of_def new_limiter_def bucket_run split: prod.split)
qed

end
