(* ===== verification/Json.thy ===== *)
theory Json
  imports Prelude
begin

text \<open>
  Decoding with \<open>encoding/json\<close>, as far as the program uses it. \<open>json_parse\<close> is the syntax
  check and the parser in one: it turns a byte sequence into a tree in which every array
  element and object member also carries the raw bytes it was written with, because the
  program keeps many values as \<open>json.RawMessage\<close>. Nesting is limited to 10,000 levels, as
  in the library; this limit is also the recursion bound of the parser. The \<open>dec_\<close>
  functions are \<open>json.Unmarshal\<close> into Go values: they update a given value (absent and
  \<open>null\<close> fields leave it alone) and are \<open>None\<close> where \<open>Unmarshal\<close> reports an error.
\<close>

section \<open>Syntax\<close>

datatype json =
    JNull
  | JBool bool
  | JNum string
  | JStr string
  | JArr "(string \<times> json) list"
  | JObj "(string \<times> string \<times> json) list"

definition json_space :: "char \<Rightarrow> bool" where
  "json_space c \<longleftrightarrow> c \<in> {CHR 0x20, CHR 0x09, CHR 0x0A, CHR 0x0D}"

definition skip_ws :: "string \<Rightarrow> string" where
  "skip_ws = dropWhile json_space"

subsection \<open>Numbers\<close>

definition take_digits :: "string \<Rightarrow> string \<times> string" where
  "take_digits s = (takeWhile is_digit s, dropWhile is_digit s)"

definition scan_int :: "string \<Rightarrow> (string \<times> string) option" where
  "scan_int s =
     (case s of
        [] \<Rightarrow> None
      | c # t \<Rightarrow>
          if c = CHR ''0'' then Some ([c], t)
          else if is_digit c then Some (take_digits s) else None)"

definition scan_frac :: "string \<Rightarrow> (string \<times> string) option" where
  "scan_frac s =
     (case s of
        [] \<Rightarrow> Some ([], [])
      | c # t \<Rightarrow>
          if c = CHR ''.'' then
            (let (ds, r) = take_digits t in if ds = [] then None else Some (c # ds, r))
          else Some ([], s))"

definition scan_exp :: "string \<Rightarrow> (string \<times> string) option" where
  "scan_exp s =
     (case s of
        [] \<Rightarrow> Some ([], [])
      | c # t \<Rightarrow>
          if c = CHR ''e'' \<or> c = CHR ''E'' then
            (let (sg, u) = (case t of
                              [] \<Rightarrow> ([], [])
                            | d # v \<Rightarrow> if d = CHR ''+'' \<or> d = CHR ''-'' then ([d], v) else ([], t));
                 (ds, r) = take_digits u
             in if ds = [] then None else Some (c # sg @ ds, r))
          else Some ([], s))"

definition scan_number :: "string \<Rightarrow> (string \<times> string) option" where
  "scan_number s =
     (let (sg, t) = (case s of [] \<Rightarrow> ([], []) | c # u \<Rightarrow> if c = CHR ''-'' then ([c], u) else ([], s))
      in case scan_int t of
           None \<Rightarrow> None
         | Some (i, u) \<Rightarrow>
             (case scan_frac u of
                None \<Rightarrow> None
              | Some (f, v) \<Rightarrow>
                  (case scan_exp v of None \<Rightarrow> None | Some (e, r) \<Rightarrow> Some (sg @ i @ f @ e, r))))"

definition is_valid_number :: "string \<Rightarrow> bool" where
  "is_valid_number s \<longleftrightarrow> (case scan_number s of Some (n, r) \<Rightarrow> r = [] | None \<Rightarrow> False)"

subsection \<open>Strings\<close>

definition hex_val :: "char \<Rightarrow> nat option" where
  "hex_val c =
     (let n = of_char c :: nat
      in if 48 \<le> n \<and> n \<le> 57 then Some (n - 48)
         else if 97 \<le> n \<and> n \<le> 102 then Some (n - 87)
         else if 65 \<le> n \<and> n \<le> 70 then Some (n - 55) else None)"

definition hex4 :: "char \<Rightarrow> char \<Rightarrow> char \<Rightarrow> char \<Rightarrow> int option" where
  "hex4 a b c d =
     (case (hex_val a, hex_val b, hex_val c, hex_val d) of
        (Some w, Some x, Some y, Some z) \<Rightarrow> Some (int w * 4096 + int x * 256 + int y * 16 + int z)
      | _ \<Rightarrow> None)"

text \<open>\<open>utf8.EncodeRune\<close> (surrogates and out-of-range values become U+FFFD).\<close>

definition utf8_encode :: "int \<Rightarrow> string" where
  "utf8_encode r =
     (if 0 \<le> r \<and> r < 128 then [char_of r]
      else if 128 \<le> r \<and> r < 2048 then [char_of (192 + r div 64), char_of (128 + r mod 64)]
      else if r < 0 \<or> (55296 \<le> r \<and> r \<le> 57343) \<or> 1114111 < r then [CHR 0xEF, CHR 0xBF, CHR 0xBD]
      else if r < 65536 then
        [char_of (224 + r div 4096), char_of (128 + r div 64 mod 64), char_of (128 + r mod 64)]
      else
        [char_of (240 + r div 262144), char_of (128 + r div 4096 mod 64),
         char_of (128 + r div 64 mod 64), char_of (128 + r mod 64)])"

definition is_surrogate :: "int \<Rightarrow> bool" where
  "is_surrogate r \<longleftrightarrow> 55296 \<le> r \<and> r < 57344"

text \<open>The bytes of a multi-byte UTF-8 sequence at the head: its length, 1 where it is invalid.\<close>

definition cont_byte :: "nat \<Rightarrow> nat \<Rightarrow> char \<Rightarrow> bool" where
  "cont_byte lo hi c \<longleftrightarrow> lo \<le> (of_char c :: nat) \<and> (of_char c :: nat) \<le> hi"

definition utf8_len :: "string \<Rightarrow> nat option" where
  "utf8_len s =
     (case s of
        [] \<Rightarrow> None
      | a # t \<Rightarrow>
          (let n = of_char a :: nat in
           if n < 128 then Some 1
           else if 194 \<le> n \<and> n \<le> 223 then
             (case t of b # _ \<Rightarrow> if cont_byte 128 191 b then Some 2 else None | _ \<Rightarrow> None)
           else if 224 \<le> n \<and> n \<le> 239 then
             (case t of b # c # _ \<Rightarrow>
                if cont_byte (if n = 224 then 160 else 128) (if n = 237 then 159 else 191) b \<and>
                   cont_byte 128 191 c then Some 3 else None
              | _ \<Rightarrow> None)
           else if 240 \<le> n \<and> n \<le> 244 then
             (case t of b # c # d # _ \<Rightarrow>
                if cont_byte (if n = 240 then 144 else 128) (if n = 244 then 143 else 191) b \<and>
                   cont_byte 128 191 c \<and> cont_byte 128 191 d then Some 4 else None
              | _ \<Rightarrow> None)
           else None))"

text \<open>
  The part of a string literal after the opening quote: its unquoted value and the rest
  after the closing quote. The first argument is a bound on the bytes looked at; the length
  of the input always suffices.
\<close>

definition simple_escape :: "char \<Rightarrow> char option" where
  "simple_escape c =
     (if c = CHR 0x22 \<or> c = CHR 0x5C \<or> c = CHR ''/'' then Some c
      else if c = CHR ''b'' then Some (CHR 0x08)
      else if c = CHR ''f'' then Some (CHR 0x0C)
      else if c = CHR ''n'' then Some (CHR 0x0A)
      else if c = CHR ''r'' then Some (CHR 0x0D)
      else if c = CHR ''t'' then Some (CHR 0x09)
      else None)"

definition unicode_escape :: "string \<Rightarrow> (int \<times> string) option" where
  "unicode_escape s =
     (case s of
        p # u # a # b # c # d # r \<Rightarrow>
          if p = CHR 0x5C \<and> u = CHR ''u'' then map_option (\<lambda>n. (n, r)) (hex4 a b c d) else None
      | _ \<Rightarrow> None)"

definition escaped_rune :: "string \<Rightarrow> (string \<times> string) option" where
  "escaped_rune s =
     (case unicode_escape s of
        None \<Rightarrow> None
      | Some (r, t) \<Rightarrow>
          if is_surrogate r then
            (case unicode_escape t of
               Some (r2, t2) \<Rightarrow>
                 if r < 56320 \<and> 56320 \<le> r2 \<and> r2 < 57344
                 then Some (utf8_encode ((r - 55296) * 1024 + (r2 - 56320) + 65536), t2)
                 else Some (utf8_encode 65533, t)
             | None \<Rightarrow> Some (utf8_encode 65533, t))
          else Some (utf8_encode r, t))"

fun scan_string :: "nat \<Rightarrow> string \<Rightarrow> (string \<times> string) option" where
  "scan_string 0 s = None"
| "scan_string (Suc n) s =
     (case s of
        [] \<Rightarrow> None
      | c # t \<Rightarrow>
          if c = CHR 0x22 then Some ([], t)
          else if c = CHR 0x5C then
            (case t of
               [] \<Rightarrow> None
             | e # u \<Rightarrow>
                 (case simple_escape e of
                    Some x \<Rightarrow> map_option (\<lambda>(v, r). (x # v, r)) (scan_string n u)
                  | None \<Rightarrow>
                      (case escaped_rune s of
                         None \<Rightarrow> None
                       | Some (x, u') \<Rightarrow> map_option (\<lambda>(v, r). (x @ v, r)) (scan_string n u'))))
          else if (of_char c :: nat) < 32 then None
          else
            (case utf8_len s of
               None \<Rightarrow> map_option (\<lambda>(v, r). (utf8_encode 65533 @ v, r)) (scan_string n t)
             | Some k \<Rightarrow> map_option (\<lambda>(v, r). (take k s @ v, r)) (scan_string n (drop k s))))"

subsection \<open>Values\<close>

definition raw_of :: "string \<Rightarrow> string \<Rightarrow> string" where
  "raw_of s rest = take (length s - length rest) s"

fun scan_elems ::
  "(string \<Rightarrow> (json \<times> string) option) \<Rightarrow> nat \<Rightarrow> string \<Rightarrow> ((string \<times> json) list \<times> string) option" where
  "scan_elems pv 0 s = None"
| "scan_elems pv (Suc n) s =
     (let s1 = skip_ws s
      in case pv s1 of
           None \<Rightarrow> None
         | Some (v, r) \<Rightarrow>
             (case skip_ws r of
                [] \<Rightarrow> None
              | c # t \<Rightarrow>
                  if c = CHR '']'' then Some ([(raw_of s1 r, v)], t)
                  else if c = CHR '','' then
                    map_option (\<lambda>(es, q). ((raw_of s1 r, v) # es, q)) (scan_elems pv n t)
                  else None))"

fun scan_members ::
  "(string \<Rightarrow> (json \<times> string) option) \<Rightarrow> nat \<Rightarrow> string \<Rightarrow>
   ((string \<times> string \<times> json) list \<times> string) option" where
  "scan_members pv 0 s = None"
| "scan_members pv (Suc n) s =
     (case skip_ws s of
        [] \<Rightarrow> None
      | q # s0 \<Rightarrow>
          if q \<noteq> CHR 0x22 then None
          else
            (case scan_string (length s0) s0 of
               None \<Rightarrow> None
             | Some (k, s1) \<Rightarrow>
                 (case skip_ws s1 of
                    [] \<Rightarrow> None
                  | col # s2 \<Rightarrow>
                      if col \<noteq> CHR '':'' then None
                      else
                        (let s3 = skip_ws s2
                         in case pv s3 of
                              None \<Rightarrow> None
                            | Some (v, r) \<Rightarrow>
                                (case skip_ws r of
                                   [] \<Rightarrow> None
                                 | c # t \<Rightarrow>
                                     if c = CHR ''}'' then Some ([(k, raw_of s3 r, v)], t)
                                     else if c = CHR '','' then
                                       map_option (\<lambda>(ms, z). ((k, raw_of s3 r, v) # ms, z))
                                         (scan_members pv n t)
                                     else None)))))"

fun scan_value :: "nat \<Rightarrow> string \<Rightarrow> (json \<times> string) option" where
  "scan_value depth s =
     (case s of
        [] \<Rightarrow> None
      | c # t \<Rightarrow>
          if c = CHR 0x22 then map_option (\<lambda>(v, r). (JStr v, r)) (scan_string (length t) t)
          else if c = CHR ''['' then
            (case depth of
               0 \<Rightarrow> None
             | Suc d \<Rightarrow>
                 (case skip_ws t of
                    [] \<Rightarrow> None
                  | c1 # t1 \<Rightarrow>
                      if c1 = CHR '']'' then Some (JArr [], t1)
                      else map_option (\<lambda>(es, r). (JArr es, r)) (scan_elems (\<lambda>u. scan_value d u) (length t) t)))
          else if c = CHR ''{'' then
            (case depth of
               0 \<Rightarrow> None
             | Suc d \<Rightarrow>
                 (case skip_ws t of
                    [] \<Rightarrow> None
                  | c1 # t1 \<Rightarrow>
                      if c1 = CHR ''}'' then Some (JObj [], t1)
                      else map_option (\<lambda>(ms, r). (JObj ms, r)) (scan_members (\<lambda>u. scan_value d u) (length t) t)))
          else if has_prefix s ''true'' then Some (JBool True, drop 4 s)
          else if has_prefix s ''false'' then Some (JBool False, drop 5 s)
          else if has_prefix s ''null'' then Some (JNull, drop 4 s)
          else map_option (\<lambda>(n, r). (JNum n, r)) (scan_number s))"

declare scan_value.simps [simp del]

definition max_nesting_depth :: nat where
  "max_nesting_depth = 10000"

type_synonym rawval = "string \<times> json"

text \<open>The whole input is one value (\<open>json.Unmarshal\<close>, \<open>json.Valid\<close>), or its first value is
  taken (\<open>json.Decoder.Decode\<close>).\<close>

definition json_first :: "string \<Rightarrow> (rawval \<times> string) option" where
  "json_first s =
     (let s1 = skip_ws s
      in map_option (\<lambda>(v, r). ((raw_of s1 r, v), r)) (scan_value max_nesting_depth s1))"

definition json_parse :: "string \<Rightarrow> rawval option" where
  "json_parse s =
     (case json_first s of
        Some (rv, r) \<Rightarrow> if skip_ws r = [] then Some rv else None
      | None \<Rightarrow> None)"

definition json_valid :: "string \<Rightarrow> bool" where
  "json_valid s \<longleftrightarrow> json_parse s \<noteq> None"

end
