(* ===== verification/Float64.thy ===== *)
theory Float64
  imports Json "HOL-Library.Log_Nat"
begin

text \<open>
  Finite IEEE doubles as rationals: rounding to the nearest representable value (ties to
  even, subnormals included, \<open>None\<close> beyond the largest finite value), the conversions
  \<open>float64(n)\<close> and \<open>int64(x)\<close>, and the value of a decimal literal as
  \<open>strconv.ParseFloat\<close> computes it. Negative zero is identified with zero.
\<close>

type_synonym float64 = rat

definition pow2 :: "int \<Rightarrow> rat" where
  "pow2 k = (if 0 \<le> k then 2 ^ nat k else 1 / 2 ^ nat (- k))"

definition floor_log2 :: "rat \<Rightarrow> int" where
  "floor_log2 x =
     (let (n, d) = quotient_of x; e = bitlen n - bitlen d
      in if pow2 e \<le> x then e else e - 1)"

definition round_half_even :: "rat \<Rightarrow> int" where
  "round_half_even q =
     (let f = \<lfloor>q\<rfloor>; r = q - of_int f
      in if r < 1 / 2 then f else if 1 / 2 < r then f + 1 else if even f then f else f + 1)"

definition round_f64_pos :: "rat \<Rightarrow> rat" where
  "round_f64_pos x =
     (let k = max (floor_log2 x - 52) (- 1074)
      in of_int (round_half_even (x / pow2 k)) * pow2 k)"

definition round_f64 :: "rat \<Rightarrow> float64 option" where
  "round_f64 x =
     (let y = (if x = 0 then 0 else if 0 < x then round_f64_pos x else - round_f64_pos (- x))
      in if \<bar>y\<bar> < 2 ^ 1024 then Some y else None)"

text \<open>
  Arithmetic whose exact result is far below the overflow threshold: the value itself. The
  code's uses are \<open>float64\<close> of 64-bit integers, a division by \<open>1e9\<close> and differences of
  such values.
\<close>

definition f64_val :: "rat \<Rightarrow> float64" where
  "f64_val x = (case round_f64 x of Some y \<Rightarrow> y | None \<Rightarrow> x)"

definition f64_of_int :: "int \<Rightarrow> float64" where
  "f64_of_int n = f64_val (of_int n)"

text \<open>\<open>int64(x)\<close>: truncation; out-of-range values give the implementation's
  \<open>0x8000000000000000\<close> (amd64).\<close>

definition int64_of_f64 :: "float64 \<Rightarrow> int" where
  "int64_of_f64 x =
     (let t = (if 0 \<le> x then \<lfloor>x\<rfloor> else \<lceil>x\<rceil>) in if int64_range t then t else - (2 ^ 63))"

definition literal_value :: "string \<Rightarrow> rat" where
  "literal_value s =
     (let (neg, t) = (case s of [] \<Rightarrow> (False, []) | c # u \<Rightarrow> if c = CHR ''-'' then (True, u) else (False, s));
          ip = takeWhile is_digit t;
          r1 = dropWhile is_digit t;
          (fp, r2) = (case r1 of
                        c # u \<Rightarrow> if c = CHR ''.'' then (takeWhile is_digit u, dropWhile is_digit u) else ([], r1)
                      | [] \<Rightarrow> ([], []));
          ex = (case r2 of
                  [] \<Rightarrow> 0
                | c # u \<Rightarrow>
                    (case u of
                       [] \<Rightarrow> 0
                     | d # v \<Rightarrow>
                         if d = CHR ''-'' then - digits_val v
                         else if d = CHR ''+'' then digits_val v
                         else digits_val u));
          m = of_int (digits_val (ip @ fp)) :: rat;
          e = ex - int (length fp);
          v = (if 0 \<le> e then m * 10 ^ nat e else m / 10 ^ nat (- e))
      in if neg then - v else v)"

definition parse_f64 :: "string \<Rightarrow> float64 option" where
  "parse_f64 s = round_f64 (literal_value s)"

section \<open>Integers below 2^53 are exact\<close>

lemma round_half_even_of_int [simp]: "round_half_even (of_int n) = n"
  by (simp add: round_half_even_def)

lemma pow2_pos [simp]: "0 < pow2 k"
  by (simp add: pow2_def)

lemma bitlen_1: "bitlen 1 = 1"
  by (simp add: compute_bitlen)

lemma floor_log2_of_int_le:
  assumes "0 < n" and "n \<le> 2 ^ 53" shows "floor_log2 (of_int n) \<le> 53"
proof -
  have "bitlen n \<le> 54"
    using assms by (intro bitlen_le_iff_power [THEN iffD2]) auto
  then show ?thesis
    using assms by (auto simp: floor_log2_def Let_def bitlen_1)
qed

lemma pow2_floor_log2_le:
  assumes "0 < n" shows "pow2 (floor_log2 (of_int n)) \<le> of_int n"
proof -
  have q: "quotient_of (of_int n) = (n, 1)" by simp
  have b: "2 ^ nat (bitlen n - 1) \<le> n" using bitlen_bounds [OF assms] by simp
  have "0 < bitlen n" using assms bitlen_eq_zero_iff [of n] bitlen_nonneg [of n] by linarith
  then have "pow2 (bitlen n - 1) = of_int (2 ^ nat (bitlen n - 1))"
    by (simp add: pow2_def)
  with b have l: "pow2 (bitlen n - 1) \<le> (of_int n :: rat)"
    by (metis of_int_le_iff)
  show ?thesis
  proof (cases "pow2 (bitlen n - bitlen 1) \<le> (of_int n :: rat)")
    case True
    then show ?thesis by (simp add: floor_log2_def q)
  next
    case False
    with l show ?thesis by (simp add: bitlen_1)
  qed
qed

lemma round_f64_pos_int:
  assumes "0 < n" and "n \<le> 2 ^ 53" shows "round_f64_pos (of_int n) = of_int n"
proof (cases "floor_log2 (of_int n) \<le> 52")
  case True
  define k where "k = max (floor_log2 (of_int n) - 52) (- 1074)"
  have k: "k \<le> 0" "0 \<le> - k" using True by (auto simp: k_def)
  then have "of_int n / pow2 k = (of_int (n * 2 ^ nat (- k)) :: rat)"
    by (cases "k = 0") (auto simp: pow2_def)
  then have "round_half_even (of_int n / pow2 k) = n * 2 ^ nat (- k)"
    by (metis round_half_even_of_int)
  moreover have "of_int (n * 2 ^ nat (- k)) * pow2 k = (of_int n :: rat)"
    using k by (cases "k = 0") (auto simp: pow2_def)
  ultimately show ?thesis
    by (simp add: round_f64_pos_def k_def [symmetric] del: of_int_mult)
next
  case False
  then have e: "floor_log2 (of_int n) = 53"
    using floor_log2_of_int_le [OF assms] by linarith
  then have "(2 :: rat) ^ 53 \<le> of_int n"
    using pow2_floor_log2_le [OF assms(1)] by (simp add: pow2_def)
  then have "of_int (2 ^ 53) \<le> (of_int n :: rat)" by simp
  then have "2 ^ 53 \<le> n" by (simp only: of_int_le_iff)
  with assms(2) have n: "n = 2 ^ 53" by simp
  have "of_int n / pow2 1 = (of_int (2 ^ 52) :: rat)" by (simp add: n pow2_def)
  then have "round_half_even (of_int n / pow2 1) = 2 ^ 52"
    by (metis round_half_even_of_int)
  then have "of_int (round_half_even (of_int n / pow2 1)) * pow2 1 = (of_int n :: rat)"
    by (simp add: n pow2_def)
  then show ?thesis by (simp add: round_f64_pos_def e)
qed

lemma round_f64_int:
  assumes "\<bar>n\<bar> \<le> 2 ^ 53" shows "round_f64 (of_int n) = Some (of_int n)"
proof -
  have "\<bar>of_int n :: rat\<bar> \<le> of_int (2 ^ 53)"
    using assms by (simp only: of_int_abs [symmetric] of_int_le_iff)
  also have "\<dots> < (2 ^ 1024 :: rat)" by simp
  finally have b: "\<bar>of_int n :: rat\<bar> < 2 ^ 1024" .
  show ?thesis
  proof (cases "n < 0")
    case True
    have "round_f64_pos (- of_int n) = - of_int n"
      using round_f64_pos_int [of "- n"] True assms by simp
    with True b show ?thesis by (simp add: round_f64_def)
  next
    case False
    have "n \<noteq> 0 \<Longrightarrow> round_f64_pos (of_int n) = of_int n"
      using round_f64_pos_int [of n] False assms by simp
    with False b show ?thesis by (auto simp: round_f64_def)
  qed
qed

lemma f64_of_int_exact: "\<bar>n\<bar> \<le> 2 ^ 53 \<Longrightarrow> f64_of_int n = of_int n"
  by (simp add: f64_of_int_def f64_val_def round_f64_int)

end
