(* ===== verification/Json_Codec.thy ===== *)
theory Json_Codec
  imports Float64
begin

text \<open>
  \<open>json.Unmarshal\<close> into the Go types the program declares, and \<open>json.Marshal\<close> of the
  maps it writes. A decoder takes a raw value and the current content of the target and
  gives the new content, or \<open>None\<close> for an error. Struct fields are matched as the library
  does: case-insensitively, in the order of the input, later members overriding earlier
  ones. A Go map is \<open>None\<close> when it is nil.
\<close>

section \<open>Decoding\<close>

type_synonym 'a decoder = "rawval \<Rightarrow> 'a \<Rightarrow> 'a option"

fun fold_name :: "string \<Rightarrow> string" where
  "fold_name [] = []"
| "fold_name (c # s) =
     (let n = of_char c :: nat in
      if 97 \<le> n \<and> n \<le> 122 then char_of (n - 32) # fold_name s
      else if c = CHR 0xC5 \<and> take 1 s = [CHR 0xBF] then CHR ''S'' # fold_name (drop 1 s)
      else if c = CHR 0xE2 \<and> take 2 s = [CHR 0x84, CHR 0xAA] then CHR ''K'' # fold_name (drop 2 s)
      else c # fold_name s)"

definition members_named :: "(string \<times> string \<times> json) list \<Rightarrow> string \<Rightarrow> rawval list" where
  "members_named ms f = map snd (filter (\<lambda>m. fold_name (fst m) = fold_name f) ms)"

fun dec_seq :: "'a decoder \<Rightarrow> rawval list \<Rightarrow> 'a \<Rightarrow> 'a option" where
  "dec_seq dec [] x = Some x"
| "dec_seq dec (rv # rvs) x = (case dec rv x of None \<Rightarrow> None | Some y \<Rightarrow> dec_seq dec rvs y)"

definition dec_field :: "(string \<times> string \<times> json) list \<Rightarrow> string \<Rightarrow> 'a decoder \<Rightarrow> 'a \<Rightarrow> 'a option" where
  "dec_field ms f dec = dec_seq dec (members_named ms f)"

definition dec_string :: "string decoder" where
  "dec_string rv old =
     (case snd rv of JNull \<Rightarrow> Some old | JStr s \<Rightarrow> Some s | _ \<Rightarrow> None)"

definition dec_bool :: "bool decoder" where
  "dec_bool rv old =
     (case snd rv of JNull \<Rightarrow> Some old | JBool b \<Rightarrow> Some b | _ \<Rightarrow> None)"

text \<open>\<open>json.Number\<close>: the literal's text; a string is accepted if it spells a number.\<close>

definition dec_number :: "string decoder" where
  "dec_number rv old =
     (case snd rv of
        JNull \<Rightarrow> Some old
      | JNum n \<Rightarrow> Some n
      | JStr s \<Rightarrow> if is_valid_number s then Some s else None
      | _ \<Rightarrow> None)"

definition dec_int64 :: "int decoder" where
  "dec_int64 rv old =
     (case snd rv of JNull \<Rightarrow> Some old | JNum n \<Rightarrow> parse_int64 n | _ \<Rightarrow> None)"

definition dec_uint64 :: "int decoder" where
  "dec_uint64 rv old =
     (case snd rv of
        JNull \<Rightarrow> Some old
      | JNum n \<Rightarrow>
          (case parse_digits n of
             Some v \<Rightarrow> if v < 2 ^ 64 then Some v else None
           | None \<Rightarrow> None)
      | _ \<Rightarrow> None)"

definition dec_f64 :: "float64 decoder" where
  "dec_f64 rv old =
     (case snd rv of JNull \<Rightarrow> Some old | JNum n \<Rightarrow> parse_f64 n | _ \<Rightarrow> None)"

text \<open>\<open>json.RawMessage\<close> keeps the bytes, of \<open>null\<close> too.\<close>

definition dec_raw :: "string decoder" where
  "dec_raw rv old = Some (fst rv)"

text \<open>
  A slice: the library decodes into the elements the target already holds, so an element
  of a repeated field starts from its predecessor's value.
\<close>

fun dec_list :: "'a decoder \<Rightarrow> 'a \<Rightarrow> rawval list \<Rightarrow> 'a list \<Rightarrow> 'a list option" where
  "dec_list dec zero [] olds = Some []"
| "dec_list dec zero (rv # rvs) olds =
     (case dec rv (case olds of [] \<Rightarrow> zero | x # _ \<Rightarrow> x) of
        None \<Rightarrow> None
      | Some x \<Rightarrow>
          (case dec_list dec zero rvs (drop 1 olds) of None \<Rightarrow> None | Some xs \<Rightarrow> Some (x # xs)))"

definition dec_slice :: "'a decoder \<Rightarrow> 'a \<Rightarrow> 'a list decoder" where
  "dec_slice dec zero rv old =
     (case snd rv of JNull \<Rightarrow> Some [] | JArr es \<Rightarrow> dec_list dec zero es old | _ \<Rightarrow> None)"

type_synonym 'a gomap = "(string \<times> 'a) list option"

definition gomap_items :: "'a gomap \<Rightarrow> (string \<times> 'a) list" where
  "gomap_items m = (case m of None \<Rightarrow> [] | Some kvs \<Rightarrow> kvs)"

fun dec_entries ::
  "'a decoder \<Rightarrow> 'a \<Rightarrow> (string \<times> string \<times> json) list \<Rightarrow> (string \<times> 'a) list \<Rightarrow> (string \<times> 'a) list option" where
  "dec_entries dec zero [] m = Some m"
| "dec_entries dec zero ((k, rv) # ms) m =
     (case dec rv zero of None \<Rightarrow> None | Some x \<Rightarrow> dec_entries dec zero ms (AList.update k x m))"

definition dec_map :: "'a decoder \<Rightarrow> 'a \<Rightarrow> 'a gomap decoder" where
  "dec_map dec zero rv old =
     (case snd rv of
        JNull \<Rightarrow> Some None
      | JObj ms \<Rightarrow> map_option Some (dec_entries dec zero ms (gomap_items old))
      | _ \<Rightarrow> None)"

definition dec_ptr :: "'a decoder \<Rightarrow> 'a \<Rightarrow> 'a option decoder" where
  "dec_ptr dec zero rv old =
     (case snd rv of
        JNull \<Rightarrow> Some None
      | _ \<Rightarrow> map_option Some (dec rv (case old of None \<Rightarrow> zero | Some x \<Rightarrow> x)))"

text \<open>A struct: \<open>null\<close> leaves it alone, an object fills its fields, anything else is an error.\<close>

definition dec_struct :: "((string \<times> string \<times> json) list \<Rightarrow> 'a \<Rightarrow> 'a option) \<Rightarrow> 'a decoder" where
  "dec_struct fields rv old =
     (case snd rv of JNull \<Rightarrow> Some old | JObj ms \<Rightarrow> fields ms old | _ \<Rightarrow> None)"

definition unmarshal :: "'a decoder \<Rightarrow> 'a \<Rightarrow> string \<Rightarrow> 'a option" where
  "unmarshal dec zero data =
     (case json_parse data of None \<Rightarrow> None | Some rv \<Rightarrow> dec rv zero)"

abbreviation unmarshal_raw_map :: "string \<Rightarrow> string gomap option" where
  "unmarshal_raw_map \<equiv> unmarshal (dec_map dec_raw []) None"

lemmas json_decoders = dec_string_def dec_bool_def dec_number_def dec_int64_def dec_uint64_def
  dec_f64_def dec_raw_def dec_slice_def dec_map_def dec_ptr_def dec_struct_def dec_field_def
  members_named_def

lemma distinct_dec_entries:
  "dec_entries dec zero ms m = Some m' \<Longrightarrow> distinct_keys m \<Longrightarrow> distinct_keys m'"
  by (induction dec zero ms m rule: dec_entries.induct)
     (auto simp: distinct_update split: option.splits)

lemma dec_map_distinct:
  "dec_map dec zero rv m = Some (Some m') \<Longrightarrow> distinct_keys (gomap_items m) \<Longrightarrow> distinct_keys m'"
  by (auto simp: dec_map_def distinct_dec_entries split: json.splits)

lemma unmarshal_map_distinct:
  "unmarshal (dec_map dec zero) None data = Some (Some m) \<Longrightarrow> distinct_keys m"
  using dec_map_distinct [of dec zero _ None m]
  by (auto simp: unmarshal_def gomap_items_def split: option.splits)

section \<open>Encoding\<close>

definition hex_digit :: "nat \<Rightarrow> char" where
  "hex_digit d = (if d < 10 then char_of (48 + d) else char_of (87 + d))"

text \<open>\<open>json.Compact\<close> with HTML escaping, as \<open>Marshal\<close> applies it to a \<open>RawMessage\<close>: white
  space outside strings goes, \<open><\<close>, \<open>>\<close>, \<open>&\<close>, U+2028 and U+2029 are escaped. The state says
  whether the scan is inside a string and just after a backslash.\<close>

fun compact_html :: "bool \<Rightarrow> bool \<Rightarrow> string \<Rightarrow> string" where
  "compact_html in_str esc [] = []"
| "compact_html in_str esc (c # s) =
     (let n = of_char c :: nat;
          in_str' = (if in_str then \<not> (c = CHR 0x22 \<and> \<not> esc) else c = CHR 0x22);
          esc' = (in_str \<and> \<not> esc \<and> c = CHR 0x5C)
      in if \<not> in_str \<and> json_space c then compact_html in_str False s
         else if c = CHR ''<'' \<or> c = CHR ''>'' \<or> c = CHR ''&'' then
           [CHR 0x5C, CHR ''u'', CHR ''0'', CHR ''0'', hex_digit (n div 16), hex_digit (n mod 16)] @
           compact_html in_str' esc' s
         else if c = CHR 0xE2 \<and> take 2 s = [CHR 0x80, CHR 0xA8] then
           [CHR 0x5C] @ ''u2028'' @ compact_html in_str' esc' (drop 2 s)
         else if c = CHR 0xE2 \<and> take 2 s = [CHR 0x80, CHR 0xA9] then
           [CHR 0x5C] @ ''u2029'' @ compact_html in_str' esc' (drop 2 s)
         else c # compact_html in_str' esc' s)"

definition compact :: "string \<Rightarrow> string" where
  "compact = compact_html False False"

text \<open>A string literal without its quotes. Invalid UTF-8 becomes \<open>U+FFFD\<close>, escaped.\<close>

definition quote_char :: "char \<Rightarrow> string" where
  "quote_char c =
     (let n = of_char c :: nat in
      if c = CHR 0x22 \<or> c = CHR 0x5C then [CHR 0x5C, c]
      else if c = CHR 0x08 then [CHR 0x5C, CHR ''b'']
      else if c = CHR 0x0C then [CHR 0x5C, CHR ''f'']
      else if c = CHR 0x0A then [CHR 0x5C, CHR ''n'']
      else if c = CHR 0x0D then [CHR 0x5C, CHR ''r'']
      else if c = CHR 0x09 then [CHR 0x5C, CHR ''t'']
      else if n < 32 \<or> c = CHR ''<'' \<or> c = CHR ''>'' \<or> c = CHR ''&'' then
        [CHR 0x5C, CHR ''u'', CHR ''0'', CHR ''0'', hex_digit (n div 16), hex_digit (n mod 16)]
      else [c])"

fun quote_body :: "nat \<Rightarrow> string \<Rightarrow> string" where
  "quote_body 0 s = []"
| "quote_body (Suc n) s =
     (case s of
        [] \<Rightarrow> []
      | c # t \<Rightarrow>
          if (of_char c :: nat) < 128 then quote_char c @ quote_body n t
          else
            (case utf8_len s of
               None \<Rightarrow> [CHR 0x5C] @ ''ufffd'' @ quote_body n t
             | Some k \<Rightarrow>
                 (if take 3 s = [CHR 0xE2, CHR 0x80, CHR 0xA8] then [CHR 0x5C] @ ''u2028''
                  else if take 3 s = [CHR 0xE2, CHR 0x80, CHR 0xA9] then [CHR 0x5C] @ ''u2029''
                  else take k s) @ quote_body n (drop k s)))"

definition quote_string :: "string \<Rightarrow> string" where
  "quote_string s = CHR 0x22 # quote_body (length s) s @ [CHR 0x22]"

text \<open>\<open>json.Marshal\<close> of a map whose values are already encoded: keys in byte order.\<close>

fun bytes_less :: "string \<Rightarrow> string \<Rightarrow> bool" where
  "bytes_less [] [] = False"
| "bytes_less [] (_ # _) = True"
| "bytes_less (_ # _) [] = False"
| "bytes_less (a # s) (b # t) =
     ((of_char a :: nat) < of_char b \<or> (a = b \<and> bytes_less s t))"

fun insert_key :: "string \<times> 'a \<Rightarrow> (string \<times> 'a) list \<Rightarrow> (string \<times> 'a) list" where
  "insert_key kv [] = [kv]"
| "insert_key kv (kw # m) = (if bytes_less (fst kw) (fst kv) then kw # insert_key kv m else kv # kw # m)"

definition sort_keys :: "(string \<times> 'a) list \<Rightarrow> (string \<times> 'a) list" where
  "sort_keys m = foldr insert_key m []"

definition marshal_entries :: "(string \<times> string) list \<Rightarrow> string" where
  "marshal_entries m =
     CHR ''{'' # join_with '','' (map (\<lambda>(k, v). quote_string k @ '':'' @ v) (sort_keys m)) @ ''}''"

definition marshal_raw_map :: "string gomap \<Rightarrow> string" where
  "marshal_raw_map m =
     (case m of None \<Rightarrow> ''null''
      | Some kvs \<Rightarrow> marshal_entries (map (\<lambda>(k, raw). (k, compact raw)) kvs))"

definition marshal_string_map :: "(string \<times> string) list \<Rightarrow> string" where
  "marshal_string_map m = marshal_entries (map (\<lambda>(k, v). (k, quote_string v)) m)"

lemma set_insert_key [simp]: "set (insert_key kv m) = insert kv (set m)"
  by (induction m) auto

lemma set_sort_keys [simp]: "set (sort_keys m) = set m"
  by (induction m) (auto simp: sort_keys_def)

lemma length_insert_key: "length (insert_key kv m) = Suc (length m)"
  by (induction m) auto

lemma length_sort_keys [simp]: "length (sort_keys m) = length m"
  by (induction m) (auto simp: sort_keys_def length_insert_key)

end
