(* ===== verification/Rfc3339.thy ===== *)
theory Rfc3339
  imports Json_Codec
begin

text \<open>
  The parts of Go's \<open>time\<close> package the program uses on data it receives:
  \<open>time.Parse(time.RFC3339Nano, s)\<close>, the stricter \<open>time.Time.UnmarshalJSON\<close>,
  \<open>time.Unix\<close>, \<open>UnixMilli\<close> and \<open>UnixNano\<close>.
\<close>

section \<open>Calendar\<close>

definition leap_year :: "int \<Rightarrow> bool" where
  "leap_year y \<longleftrightarrow> y mod 4 = 0 \<and> (y mod 100 \<noteq> 0 \<or> y mod 400 = 0)"

definition days_in :: "int \<Rightarrow> int \<Rightarrow> int" where
  "days_in m y =
     (if m = 2 then (if leap_year y then 29 else 28)
      else if m \<in> {4, 6, 9, 11} then 30 else 31)"

definition days_before_month :: "int \<Rightarrow> int \<Rightarrow> int" where
  "days_before_month m y = sum_list (map (\<lambda>k. days_in (int k) y) [1..<nat m])"

text \<open>Days from January 1, year 1 to the given date (proleptic Gregorian calendar).\<close>

definition days_from_civil :: "int \<Rightarrow> int \<Rightarrow> int \<Rightarrow> int" where
  "days_from_civil y m d =
     (let p = y - 1 in
      365 * p + p div 4 - p div 100 + p div 400 + days_before_month m y + (d - 1))"

definition utc_date ::
  "int \<Rightarrow> int \<Rightarrow> int \<Rightarrow> int \<Rightarrow> int \<Rightarrow> int \<Rightarrow> int \<Rightarrow> gtime" where
  "utc_date y m d hh mm ss ns =
     time_zero + (((days_from_civil y m d * 24 + hh) * 60 + mm) * 60 + ss) * 10 ^ 9 + ns"

section \<open>time.Parse with the RFC3339Nano layout\<close>

definition in_range :: "int \<Rightarrow> int \<Rightarrow> int \<Rightarrow> int option" where
  "in_range lo hi n = (if lo \<le> n \<and> n \<le> hi then Some n else None)"

text \<open>\<open>k\<close> digits (the hour alone may have one), and a literal byte.\<close>

definition digits_n :: "nat \<Rightarrow> string \<Rightarrow> (int \<times> string) option" where
  "digits_n k s =
     (if k \<le> length s \<and> list_all is_digit (take k s) then Some (digits_val (take k s), drop k s)
      else None)"

definition hour_digits :: "string \<Rightarrow> (int \<times> string) option" where
  "hour_digits s = (case digits_n 2 s of Some r \<Rightarrow> Some r | None \<Rightarrow> digits_n 1 s)"

definition skip_char :: "char \<Rightarrow> string \<Rightarrow> string option" where
  "skip_char c s = (case s of [] \<Rightarrow> None | d # t \<Rightarrow> if d = c then Some t else None)"

text \<open>A fraction of any length, truncated to nine digits.\<close>

definition nanoseconds :: "string \<Rightarrow> int" where
  "nanoseconds ds = digits_val (take 9 ds) * 10 ^ (9 - length (take 9 ds))"

definition fraction :: "string \<Rightarrow> int \<times> string" where
  "fraction s =
     (case s of
        [] \<Rightarrow> (0, s)
      | c # t \<Rightarrow>
          if (c = CHR ''.'' \<or> c = CHR '','') \<and> takeWhile is_digit t \<noteq> []
          then (nanoseconds (takeWhile is_digit t), dropWhile is_digit t) else (0, s))"

text \<open>The offset in seconds east of UTC. As the library, hours up to 24 and minutes up to 60.\<close>

definition zone :: "string \<Rightarrow> int option" where
  "zone s =
     (if s = ''Z'' then Some 0
      else if length s \<noteq> 6 \<or> s ! 3 \<noteq> CHR '':'' then None
      else
        (case (digits_n 2 (take 2 (drop 1 s)), digits_n 2 (drop 4 s)) of
           (Some (hr, _), Some (mm, _)) \<Rightarrow>
             if 24 < hr \<or> 60 < mm then None
             else if s ! 0 = CHR ''+'' then Some ((hr * 60 + mm) * 60)
             else if s ! 0 = CHR ''-'' then Some (- ((hr * 60 + mm) * 60))
             else None
         | _ \<Rightarrow> None))"

definition parse_rfc3339_nano :: "string \<Rightarrow> gtime option" where
  "parse_rfc3339_nano s =
     Option.bind (digits_n 4 s) (\<lambda>(y, s).
     Option.bind (skip_char (CHR ''-'') s) (\<lambda>s.
     Option.bind (digits_n 2 s) (\<lambda>(m, s).
     Option.bind (in_range 1 12 m) (\<lambda>m.
     Option.bind (skip_char (CHR ''-'') s) (\<lambda>s.
     Option.bind (digits_n 2 s) (\<lambda>(d, s).
     Option.bind (in_range 1 (days_in m y) d) (\<lambda>d.
     Option.bind (skip_char (CHR ''T'') s) (\<lambda>s.
     Option.bind (hour_digits s) (\<lambda>(hh, s).
     Option.bind (in_range 0 23 hh) (\<lambda>hh.
     Option.bind (skip_char (CHR '':'') s) (\<lambda>s.
     Option.bind (digits_n 2 s) (\<lambda>(mm, s).
     Option.bind (in_range 0 59 mm) (\<lambda>mm.
     Option.bind (skip_char (CHR '':'') s) (\<lambda>s.
     Option.bind (digits_n 2 s) (\<lambda>(ss, s).
     Option.bind (in_range 0 59 ss) (\<lambda>ss.
       (let (ns, s) = fraction s in
        map_option (\<lambda>off. utc_date y m d hh mm ss ns - off * 10 ^ 9) (zone s))))))))))))))))))"

section \<open>time.Time.UnmarshalJSON\<close>

text \<open>
  The strict syntax: two-digit hour, no comma fraction, offset below 24:00. The bytes
  between the quotes are used as they are, so escapes are errors.
\<close>

definition parse_rfc3339_strict :: "string \<Rightarrow> gtime option" where
  "parse_rfc3339_strict s =
     (case parse_rfc3339_nano s of
        None \<Rightarrow> None
      | Some t \<Rightarrow>
          if s ! 12 = CHR '':'' \<or> s ! 19 = CHR '','' then None
          else if last s \<noteq> CHR ''Z'' \<and>
                  (24 \<le> digits_val (take 2 (drop (length s - 5) s)) \<or>
                   60 \<le> digits_val (drop (length s - 2) s)) then None
          else Some t)"

definition dec_time :: "gtime decoder" where
  "dec_time rv old =
     (case snd rv of
        JNull \<Rightarrow> Some old
      | JStr _ \<Rightarrow> parse_rfc3339_strict (take (length (fst rv) - 2) (drop 1 (fst rv)))
      | _ \<Rightarrow> None)"

section \<open>Unix times\<close>

definition unix_seconds :: "int \<Rightarrow> gtime" where
  "unix_seconds sec = (wrap64 (sec + 62135596800) - 62135596800) * 10 ^ 9"

definition time_unix :: "int \<Rightarrow> int \<Rightarrow> gtime" where
  "time_unix sec nsec = unix_seconds (wrap64 (sec + nsec div 10 ^ 9)) + nsec mod 10 ^ 9"

definition unix_milli :: "gtime \<Rightarrow> int" where
  "unix_milli t = wrap64 (t div 10 ^ 6)"

definition unix_nano :: "gtime \<Rightarrow> int" where
  "unix_nano t = wrap64 t"

end
