(* ===== verification/Vm_Lines.thy ===== *)
theory Vm_Lines
  imports Rfc3339 "HOL-Library.Monad_Syntax" "HOL-Library.Multiset"
begin

text \<open>
  The VictoriaMetrics import format (\<open>vmLine\<close>, \<open>vmSample\<close> and the encoding loop of
  \<open>postVMLines\<close> in \<open>internal/watchtower/forwarder\<close>) and the JSON encoding of doubles it
  needs: the shortest decimal that reads back as the same double, in positional or
  scientific notation.
\<close>

section \<open>Encoding doubles\<close>

definition pow10 :: "int \<Rightarrow> rat" where
  "pow10 k = (if 0 \<le> k then 10 ^ nat k else 1 / 10 ^ nat (- k))"

definition floor_log10 :: "rat \<Rightarrow> int" where
  "floor_log10 x =
     (let e = floor_log2 x * 30103 div 100000
      in if pow10 (e + 1) \<le> x then e + 1 else if pow10 e \<le> x then e else e - 1)"

text \<open>The \<open>n\<close>-digit decimal closest to \<open>x\<close> among those that read back as \<open>x\<close>.\<close>

definition decimal_of_length :: "rat \<Rightarrow> nat \<Rightarrow> (int \<times> int) option" where
  "decimal_of_length x n =
     (let k = floor_log10 x + 1 - int n;
          q = x / pow10 k;
          lo = \<lfloor>q\<rfloor>;
          near = round_half_even q;
          far = (if near = lo then lo + 1 else lo);
          norm = (\<lambda>d. if d = 10 ^ n then (1, k + int n) else (d, k));
          reads_back = (\<lambda>(d, e). round_f64 (of_int d * pow10 e) = Some x)
      in if reads_back (norm near) then Some (norm near)
         else if reads_back (norm far) then Some (norm far) else None)"

fun first_decimal :: "rat \<Rightarrow> nat list \<Rightarrow> (int \<times> int) option" where
  "first_decimal x [] = None"
| "first_decimal x (n # ns) =
     (case decimal_of_length x n of Some dk \<Rightarrow> Some dk | None \<Rightarrow> first_decimal x ns)"

definition shortest_decimal :: "rat \<Rightarrow> (int \<times> int) option" where
  "shortest_decimal x = first_decimal x [1..<18]"

definition plain_decimal :: "int \<Rightarrow> int \<Rightarrow> string" where
  "plain_decimal d k =
     (let ds = format_nat (nat d) in
      if 0 \<le> k then ds @ replicate (nat k) (CHR ''0'')
      else
        (let f = nat (- k);
             padded = replicate (Suc f - length ds) (CHR ''0'') @ ds
         in take (length padded - f) padded @ ''.'' @ drop (length padded - f) padded))"

definition exp_decimal :: "int \<Rightarrow> int \<Rightarrow> string" where
  "exp_decimal d k =
     (let ds = format_nat (nat d); e = k + int (length ds) - 1
      in take 1 ds @ (if length ds = 1 then [] else ''.'' @ drop 1 ds) @ ''e'' @
         (if e < 0 then ''-'' else ''+'') @ format_nat (nat \<bar>e\<bar>))"

text \<open>
  Below \<open>1e-6\<close> (as a double) and from \<open>1e21\<close> on the notation is scientific, its exponent without
  leading zeros. Seventeen digits always suffice for a double.
\<close>

definition encode_f64 :: "float64 \<Rightarrow> string" where
  "encode_f64 x =
     (if x = 0 then ''0''
      else
        (let a = \<bar>x\<bar>; (d, k) = (case shortest_decimal a of Some dk \<Rightarrow> dk | None \<Rightarrow> (0, 0))
         in (if x < 0 then ''-'' else []) @
            (if a < f64_val (1 / 10 ^ 6) \<or> 10 ^ 21 \<le> a then exp_decimal d k else plain_decimal d k)))"

lemma decimal_of_length_reads_back:
  "decimal_of_length x n = Some (d, k) \<Longrightarrow> round_f64 (of_int d * pow10 k) = Some x"
  by (auto simp: decimal_of_length_def Let_def split: if_splits)

lemma shortest_decimal_reads_back:
  "shortest_decimal x = Some (d, k) \<Longrightarrow> round_f64 (of_int d * pow10 k) = Some x"
proof -
  have "first_decimal x ns = Some (d, k) \<Longrightarrow> round_f64 (of_int d * pow10 k) = Some x" for ns
    by (induction ns) (auto split: option.splits dest: decimal_of_length_reads_back)
  then show "shortest_decimal x = Some (d, k) \<Longrightarrow> round_f64 (of_int d * pow10 k) = Some x"
    by (simp add: shortest_decimal_def)
qed

section \<open>Lines\<close>

type_synonym labels = "(string \<times> string) list"

record vm_line =
  vm_metric :: labels
  vm_values :: "float64 list"
  vm_timestamps :: "int list"

definition vm_sample :: "string \<Rightarrow> labels \<Rightarrow> float64 \<Rightarrow> int \<Rightarrow> vm_line" where
  "vm_sample name lbls value ts =
     \<lparr>vm_metric = AList.update ''__name__'' name lbls, vm_values = [value], vm_timestamps = [ts]\<rparr>"

definition encode_vm_line :: "vm_line \<Rightarrow> string" where
  "encode_vm_line l =
     [CHR ''{'', CHR 0x22] @ ''metric'' @ [CHR 0x22, CHR '':''] @ marshal_string_map (vm_metric l) @
     [CHR '','', CHR 0x22] @ ''values'' @ [CHR 0x22, CHR '':'', CHR ''['']  @
     join_with '','' (map encode_f64 (vm_values l)) @
     [CHR '']'', CHR '','', CHR 0x22] @ ''timestamps'' @ [CHR 0x22, CHR '':'', CHR ''['']  @
     join_with '','' (map format_int (vm_timestamps l)) @ [CHR '']'', CHR ''}'', CHR 0x0A]"

definition encode_vm_lines :: "vm_line list \<Rightarrow> string" where
  "encode_vm_lines ls = concat (map encode_vm_line ls)"

text \<open>
  A line is attributed to a validator: one sample, taken at \<open>ts\<close>, whose \<open>validator\<close>
  label names it.
\<close>

definition attributed :: "string \<Rightarrow> int \<Rightarrow> vm_line \<Rightarrow> bool" where
  "attributed validator ts l \<longleftrightarrow>
     map_of (vm_metric l) ''validator'' = Some validator \<and>
     map_of (vm_metric l) ''__name__'' \<noteq> None \<and> distinct_keys (vm_metric l) \<and>
     length (vm_values l) = 1 \<and> vm_timestamps l = [ts]"

lemma attributed_sample [intro]:
  "map_of lbls ''validator'' = Some validator \<Longrightarrow> distinct_keys lbls \<Longrightarrow>
   attributed validator ts (vm_sample name lbls v ts)"
  by (simp add: attributed_def vm_sample_def update_conv' distinct_update)

definition metric_name :: "vm_line \<Rightarrow> string" where
  "metric_name l = (case map_of (vm_metric l) ''__name__'' of None \<Rightarrow> [] | Some n \<Rightarrow> n)"

definition label_of :: "vm_line \<Rightarrow> string \<Rightarrow> string" where
  "label_of l k = (case map_of (vm_metric l) k of None \<Rightarrow> [] | Some v \<Rightarrow> v)"

lemma metric_name_sample [simp]: "metric_name (vm_sample n lbls v ts) = n"
  by (simp add: metric_name_def vm_sample_def update_conv')

lemma vm_values_sample [simp]: "vm_values (vm_sample n lbls v ts) = [v]"
  by (simp add: vm_sample_def)

lemma label_of_sample: "k \<noteq> ''__name__'' \<Longrightarrow>
  label_of (vm_sample n lbls v ts) k = (case map_of lbls k of None \<Rightarrow> [] | Some v \<Rightarrow> v)"
  by (simp add: label_of_def vm_sample_def update_conv')

section \<open>Extractors\<close>

text \<open>
  What a family of \<open>append\<close> functions shares: the lines of a key are added at the end and
  do not depend on those already there. Then the lines of a payload are those of its keys,
  in the order visited; another order permutes them.
\<close>

locale line_extractor =
  fixes app :: "vm_line list \<Rightarrow> string \<times> string \<Rightarrow> vm_line list"
  assumes appends: "app ls kv = ls @ app [] kv"
begin

lemma fold_concat: "foldl app ls kvs = ls @ concat (map (app []) kvs)"
proof (induction kvs arbitrary: ls)
  case (Cons kv kvs)
  then show ?case using appends [of ls kv] by simp
qed simp

lemma fold_permuted: "mset kvs = mset kws \<Longrightarrow> mset (foldl app [] kvs) = mset (foldl app [] kws)"
proof -
  have "mset (concat (map f xs)) = (\<Sum>\<^sub># (image_mset (\<lambda>x. mset (f x)) (mset xs)))"
    for f :: "string \<times> string \<Rightarrow> vm_line list" and xs
    by (induction xs) auto
  then show "mset kvs = mset kws \<Longrightarrow> ?thesis" by (simp add: fold_concat)
qed

lemma fold_all:
  assumes "\<And>kv l. l \<in> set (app [] kv) \<Longrightarrow> P l" and "l \<in> set (foldl app [] kvs)"
  shows "P l"
  using assms by (auto simp: fold_concat)

end

end
