(* ===== verification/Fwd_Metrics.thy ===== *)
theory Fwd_Metrics
  imports Vm_Lines
begin

text \<open>
  From a sentinel's resource payload to VictoriaMetrics lines
  (\<open>internal/watchtower/forwarder/metrics.go\<close>): one decoder per JSON shape and one
  \<open>append\<close> function per well-known key, each adding its lines to those already there. Go
  maps (the payload, a type's drops, a container's networks) are association lists in the
  order \<open>range\<close> visits them. Debug logs are left out.
\<close>

section \<open>The payload\<close>

record payload =
  collected_at :: gtime
  p_data :: "string gomap"

definition zero_payload :: payload where
  "zero_payload = \<lparr>collected_at = time_zero, p_data = None\<rparr>"

text \<open>\<open>protocol.MetricsPayload\<close> and \<open>protocol.RPCPayload\<close> have the same fields.\<close>

definition dec_payload :: "payload decoder" where
  "dec_payload = dec_struct (\<lambda>ms s. do {
     t \<leftarrow> dec_field ms ''collected_at'' dec_time (collected_at s);
     d \<leftarrow> dec_field ms ''data'' (dec_map dec_raw []) (p_data s);
     Some (s\<lparr>collected_at := t, p_data := d\<rparr>) })"

section \<open>Self statistics\<close>

record self_type_stats =
  ss_uncompressed_bytes :: int
  ss_wire_bytes :: int
  ss_drops :: "int gomap"

definition zero_self_type_stats :: self_type_stats where
  "zero_self_type_stats = \<lparr>ss_uncompressed_bytes = 0, ss_wire_bytes = 0, ss_drops = None\<rparr>"

definition dec_self_type_stats :: "self_type_stats decoder" where
  "dec_self_type_stats = dec_struct (\<lambda>ms s. do {
     u \<leftarrow> dec_field ms ''uncompressed_bytes'' dec_int64 (ss_uncompressed_bytes s);
     w \<leftarrow> dec_field ms ''wire_bytes'' dec_int64 (ss_wire_bytes s);
     d \<leftarrow> dec_field ms ''drops'' (dec_map dec_int64 0) (ss_drops s);
     Some (s\<lparr>ss_uncompressed_bytes := u, ss_wire_bytes := w, ss_drops := d\<rparr>) })"

definition self_type_lines :: "string \<Rightarrow> int \<Rightarrow> string \<times> self_type_stats \<Rightarrow> vm_line list" where
  "self_type_lines validator ts ty_s =
     (let (ty, s) = ty_s;
          uncomp_labels = [(''validator'', validator), (''type'', ty), (''encoding'', ''uncompressed'')];
          wire_labels = [(''validator'', validator), (''type'', ty), (''encoding'', ''wire'')]
      in [vm_sample ''sentinel_self_bytes_sent_total'' uncomp_labels (f64_of_int (ss_uncompressed_bytes s)) ts,
          vm_sample ''sentinel_self_bytes_sent_total'' wire_labels (f64_of_int (ss_wire_bytes s)) ts] @
         map (\<lambda>(reason, n). vm_sample ''sentinel_self_drops_total''
                [(''validator'', validator), (''type'', ty), (''reason'', reason)] (f64_of_int n) ts)
           (gomap_items (ss_drops s)))"

definition append_self_stats :: "vm_line list \<Rightarrow> string \<Rightarrow> int \<Rightarrow> string \<Rightarrow> vm_line list" where
  "append_self_stats ls validator ts raw =
     (case unmarshal (dec_map dec_self_type_stats zero_self_type_stats) None raw of
        None \<Rightarrow> ls
      | Some by_type \<Rightarrow> ls @ concat (map (self_type_lines validator ts) (gomap_items by_type)))"

section \<open>Node configuration\<close>

definition config_lines :: "string \<Rightarrow> string \<Rightarrow> int \<Rightarrow> string gomap \<Rightarrow> vm_line list" where
  "config_lines name validator ts vals =
     map (\<lambda>(k, v). vm_sample name [(''validator'', validator), (''key'', k), (''value'', v)] 1 ts)
       (gomap_items vals)"

definition append_node_config :: "vm_line list \<Rightarrow> string \<Rightarrow> int \<Rightarrow> string \<Rightarrow> vm_line list" where
  "append_node_config ls validator ts raw =
     (case unmarshal (dec_map dec_string []) None raw of
        None \<Rightarrow> ls
      | Some vals \<Rightarrow> ls @ config_lines ''sentinel_node_config'' validator ts vals)"

section \<open>Host\<close>

definition append_host_cpu :: "vm_line list \<Rightarrow> string \<Rightarrow> int \<Rightarrow> string \<Rightarrow> vm_line list" where
  "append_host_cpu ls validator ts raw =
     (case unmarshal (dec_slice dec_f64 0) [] raw of
        None \<Rightarrow> ls
      | Some [] \<Rightarrow> ls
      | Some (p # _) \<Rightarrow>
          ls @ [\<lparr>vm_metric = [(''__name__'', ''sentinel_host_cpu_percent''), (''validator'', validator)],
                 vm_values = [p], vm_timestamps = [ts]\<rparr>])"

record memory_stat =
  ms_total :: int
  ms_available :: int
  ms_used :: int
  ms_free :: int

definition dec_memory_stat :: "memory_stat decoder" where
  "dec_memory_stat = dec_struct (\<lambda>ms s. do {
     t \<leftarrow> dec_field ms ''total'' dec_uint64 (ms_total s);
     a \<leftarrow> dec_field ms ''available'' dec_uint64 (ms_available s);
     u \<leftarrow> dec_field ms ''used'' dec_uint64 (ms_used s);
     f \<leftarrow> dec_field ms ''free'' dec_uint64 (ms_free s);
     Some \<lparr>ms_total = t, ms_available = a, ms_used = u, ms_free = f\<rparr> })"

definition append_host_memory :: "vm_line list \<Rightarrow> string \<Rightarrow> int \<Rightarrow> string \<Rightarrow> vm_line list" where
  "append_host_memory ls validator ts raw =
     (case unmarshal dec_memory_stat \<lparr>ms_total = 0, ms_available = 0, ms_used = 0, ms_free = 0\<rparr> raw of
        None \<Rightarrow> ls
      | Some m \<Rightarrow>
          (let base = [(''validator'', validator)]
           in ls @
             [vm_sample ''sentinel_host_memory_total_bytes'' base (f64_of_int (ms_total m)) ts,
              vm_sample ''sentinel_host_memory_available_bytes'' base (f64_of_int (ms_available m)) ts,
              vm_sample ''sentinel_host_memory_used_bytes'' base (f64_of_int (ms_used m)) ts,
              vm_sample ''sentinel_host_memory_free_bytes'' base (f64_of_int (ms_free m)) ts]))"

record disk_stat =
  ds_path :: string
  ds_fstype :: string
  ds_total :: int
  ds_free :: int
  ds_used :: int

definition dec_disk_stat :: "disk_stat decoder" where
  "dec_disk_stat = dec_struct (\<lambda>ms s. do {
     p \<leftarrow> dec_field ms ''path'' dec_string (ds_path s);
     f \<leftarrow> dec_field ms ''fstype'' dec_string (ds_fstype s);
     t \<leftarrow> dec_field ms ''total'' dec_uint64 (ds_total s);
     r \<leftarrow> dec_field ms ''free'' dec_uint64 (ds_free s);
     u \<leftarrow> dec_field ms ''used'' dec_uint64 (ds_used s);
     Some \<lparr>ds_path = p, ds_fstype = f, ds_total = t, ds_free = r, ds_used = u\<rparr> })"

definition append_host_disk :: "vm_line list \<Rightarrow> string \<Rightarrow> int \<Rightarrow> string \<Rightarrow> vm_line list" where
  "append_host_disk ls validator ts raw =
     (case unmarshal dec_disk_stat
             \<lparr>ds_path = [], ds_fstype = [], ds_total = 0, ds_free = 0, ds_used = 0\<rparr> raw of
        None \<Rightarrow> ls
      | Some d \<Rightarrow>
          (let lbls = [(''validator'', validator), (''path'', ds_path d), (''fstype'', ds_fstype d)]
           in ls @
             [vm_sample ''sentinel_host_disk_total_bytes'' lbls (f64_of_int (ds_total d)) ts,
              vm_sample ''sentinel_host_disk_free_bytes'' lbls (f64_of_int (ds_free d)) ts,
              vm_sample ''sentinel_host_disk_used_bytes'' lbls (f64_of_int (ds_used d)) ts]))"

record net_stat =
  nic_name :: string
  nic_bytes_sent :: int
  nic_bytes_recv :: int

definition dec_net_stat :: "net_stat decoder" where
  "dec_net_stat = dec_struct (\<lambda>ms s. do {
     n \<leftarrow> dec_field ms ''name'' dec_string (nic_name s);
     t \<leftarrow> dec_field ms ''bytesSent'' dec_uint64 (nic_bytes_sent s);
     r \<leftarrow> dec_field ms ''bytesRecv'' dec_uint64 (nic_bytes_recv s);
     Some \<lparr>nic_name = n, nic_bytes_sent = t, nic_bytes_recv = r\<rparr> })"

definition nic_lines :: "string \<Rightarrow> int \<Rightarrow> net_stat \<Rightarrow> vm_line list" where
  "nic_lines validator ts n =
     (let lbls = [(''validator'', validator), (''interface'', nic_name n)]
      in [vm_sample ''sentinel_host_network_receive_bytes_total'' lbls (f64_of_int (nic_bytes_recv n)) ts,
          vm_sample ''sentinel_host_network_transmit_bytes_total'' lbls (f64_of_int (nic_bytes_sent n)) ts])"

definition append_host_network :: "vm_line list \<Rightarrow> string \<Rightarrow> int \<Rightarrow> string \<Rightarrow> vm_line list" where
  "append_host_network ls validator ts raw =
     (case unmarshal (dec_slice dec_net_stat \<lparr>nic_name = [], nic_bytes_sent = 0, nic_bytes_recv = 0\<rparr>)
             [] raw of
        None \<Rightarrow> ls
      | Some nics \<Rightarrow> ls @ concat (map (nic_lines validator ts) nics))"

section \<open>Container\<close>

record memory_usage =
  mu_usage :: int
  mu_limit :: int
  mu_stats :: "int gomap"

record container_stats =
  cs_name :: string
  cs_total_usage :: int \<comment> \<open>\<open>cpu_stats.cpu_usage.total_usage\<close>\<close>
  cs_memory :: memory_usage
  cs_networks :: "(int \<times> int) gomap" \<comment> \<open>\<open>rx_bytes\<close>, \<open>tx_bytes\<close>\<close>

definition zero_container_stats :: container_stats where
  "zero_container_stats =
     \<lparr>cs_name = [], cs_total_usage = 0,
      cs_memory = \<lparr>mu_usage = 0, mu_limit = 0, mu_stats = None\<rparr>, cs_networks = None\<rparr>"

definition dec_memory_usage :: "memory_usage decoder" where
  "dec_memory_usage = dec_struct (\<lambda>ms s. do {
     u \<leftarrow> dec_field ms ''usage'' dec_uint64 (mu_usage s);
     l \<leftarrow> dec_field ms ''limit'' dec_uint64 (mu_limit s);
     t \<leftarrow> dec_field ms ''stats'' (dec_map dec_uint64 0) (mu_stats s);
     Some \<lparr>mu_usage = u, mu_limit = l, mu_stats = t\<rparr> })"

definition dec_network :: "(int \<times> int) decoder" where
  "dec_network = dec_struct (\<lambda>ms s. do {
     r \<leftarrow> dec_field ms ''rx_bytes'' dec_uint64 (fst s);
     t \<leftarrow> dec_field ms ''tx_bytes'' dec_uint64 (snd s);
     Some (r, t) })"

definition dec_container_stats :: "container_stats decoder" where
  "dec_container_stats = dec_struct (\<lambda>ms s. do {
     n \<leftarrow> dec_field ms ''name'' dec_string (cs_name s);
     c \<leftarrow> dec_field ms ''cpu_stats''
           (dec_struct (\<lambda>ms. dec_field ms ''cpu_usage''
              (dec_struct (\<lambda>ms. dec_field ms ''total_usage'' dec_uint64)))) (cs_total_usage s);
     m \<leftarrow> dec_field ms ''memory_stats'' dec_memory_usage (cs_memory s);
     w \<leftarrow> dec_field ms ''networks'' (dec_map dec_network (0, 0)) (cs_networks s);
     Some \<lparr>cs_name = n, cs_total_usage = c, cs_memory = m, cs_networks = w\<rparr> })"

definition container_name :: "string \<Rightarrow> container_stats \<Rightarrow> string" where
  "container_name validator c =
     (let name = trim_prefix (cs_name c) ''/'' in if name = [] then validator else name)"

definition working_set :: "memory_usage \<Rightarrow> float64" where
  "working_set m =
     (case map_of (gomap_items (mu_stats m)) ''inactive_file'' of
        None \<Rightarrow> f64_of_int (mu_usage m)
      | Some inactive \<Rightarrow>
          if inactive \<le> mu_usage m then f64_of_int (mu_usage m - inactive) else f64_of_int (mu_usage m))"

definition sum_uint64 :: "int list \<Rightarrow> int" where
  "sum_uint64 xs = foldl (\<lambda>a x. (a + x) mod 2 ^ 64) 0 xs"

definition container_lines :: "string \<Rightarrow> int \<Rightarrow> container_stats \<Rightarrow> vm_line list" where
  "container_lines validator ts c =
     (let lbls = [(''validator'', validator), (''container'', container_name validator c)];
          cpu_seconds = f64_val (f64_of_int (cs_total_usage c) / 10 ^ 9);
          nets = map snd (gomap_items (cs_networks c));
          rx = sum_uint64 (map fst nets);
          tx = sum_uint64 (map snd nets)
      in [vm_sample ''sentinel_container_cpu_usage_seconds_total'' lbls cpu_seconds ts,
          vm_sample ''sentinel_container_memory_usage_bytes'' lbls (f64_of_int (mu_usage (cs_memory c))) ts,
          vm_sample ''sentinel_container_memory_limit_bytes'' lbls (f64_of_int (mu_limit (cs_memory c))) ts,
          vm_sample ''sentinel_container_memory_working_set_bytes'' lbls (working_set (cs_memory c)) ts,
          vm_sample ''sentinel_container_network_receive_bytes_total'' lbls (f64_of_int rx) ts,
          vm_sample ''sentinel_container_network_transmit_bytes_total'' lbls (f64_of_int tx) ts])"

definition append_container :: "vm_line list \<Rightarrow> string \<Rightarrow> int \<Rightarrow> string \<Rightarrow> vm_line list" where
  "append_container ls validator ts raw =
     (case unmarshal dec_container_stats zero_container_stats raw of
        None \<Rightarrow> ls | Some c \<Rightarrow> ls @ container_lines validator ts c)"

section \<open>The dispatch\<close>

definition append_metrics_key ::
  "string \<Rightarrow> int \<Rightarrow> vm_line list \<Rightarrow> string \<times> string \<Rightarrow> vm_line list" where
  "append_metrics_key validator ts ls kv =
     (let (key, raw) = kv in
      if key = ''cpu'' then append_host_cpu ls validator ts raw
      else if key = ''memory'' then append_host_memory ls validator ts raw
      else if key = ''disk'' then append_host_disk ls validator ts raw
      else if key = ''network'' then append_host_network ls validator ts raw
      else if key = ''container'' then append_container ls validator ts raw
      else if key = ''config'' then append_node_config ls validator ts raw
      else if key = ''self_stats'' then append_self_stats ls validator ts raw
      else ls)"

definition extract_metrics :: "string \<Rightarrow> payload \<Rightarrow> vm_line list" where
  "extract_metrics validator p =
     foldl (append_metrics_key validator (unix_milli (collected_at p))) [] (gomap_items (p_data p))"

section \<open>Each key contributes its own lines\<close>

lemma metrics_appends:
  "append_metrics_key validator ts ls kv = ls @ append_metrics_key validator ts [] kv"
  by (auto simp: append_metrics_key_def append_host_cpu_def append_host_memory_def
      append_host_disk_def append_host_network_def append_container_def append_node_config_def
      append_self_stats_def Let_def split: option.splits list.splits prod.splits)

interpretation mx: line_extractor "append_metrics_key validator ts" for validator ts
  by unfold_locales (rule metrics_appends)


section \<open>Attribution\<close>

lemma attributed_lines:
  "l \<in> set (config_lines name validator ts vals) \<Longrightarrow> attributed validator ts l"
  "l \<in> set (nic_lines validator ts n) \<Longrightarrow> attributed validator ts l"
  "l \<in> set (self_type_lines validator ts e) \<Longrightarrow> attributed validator ts l"
  "l \<in> set (container_lines validator ts c) \<Longrightarrow> attributed validator ts l"
  by (auto simp: config_lines_def nic_lines_def self_type_lines_def container_lines_def Let_def
      split: prod.splits)

lemma attributed_cpu:
  "l \<in> set (append_host_cpu [] validator ts raw) \<Longrightarrow> attributed validator ts l"
  by (auto simp: append_host_cpu_def attributed_def split: option.splits list.splits)

lemma attributed_appends:
  "l \<in> set (append_host_memory [] validator ts raw) \<Longrightarrow> attributed validator ts l"
  "l \<in> set (append_host_disk [] validator ts raw) \<Longrightarrow> attributed validator ts l"
  "l \<in> set (append_host_network [] validator ts raw) \<Longrightarrow> attributed validator ts l"
  "l \<in> set (append_container [] validator ts raw) \<Longrightarrow> attributed validator ts l"
  "l \<in> set (append_node_config [] validator ts raw) \<Longrightarrow> attributed validator ts l"
  "l \<in> set (append_self_stats [] validator ts raw) \<Longrightarrow> attributed validator ts l"
  by (auto simp: append_host_memory_def append_host_disk_def append_host_network_def
        append_container_def append_node_config_def append_self_stats_def Let_def attributed_lines
        split: option.splits)

lemma attributed_metrics_key:
  "l \<in> set (append_metrics_key validator ts [] kv) \<Longrightarrow> attributed validator ts l"
  by (cases kv) (simp add: append_metrics_key_def attributed_cpu attributed_appends split: if_splits)

lemma attributed_metrics:
  "l \<in> set (extract_metrics validator p) \<Longrightarrow> attributed validator (unix_milli (collected_at p)) l"
  unfolding extract_metrics_def by (rule mx.fold_all) (rule attributed_metrics_key)

end
