(* ===== verification/Gpub.thy ===== *)
theory Gpub
  imports Prelude
begin

unbundle bit_operations_syntax

text \<open>
  The \<open>gpub1...\<close> bech32 encoding of a validator's ed25519 public key
  (\<open>pkg/gpub/gpub.go\<close>): base64 decoding, the protobuf \<open>Any\<close> wrapping, the 8-to-5 bit
  regrouping and the BIP173 checksum. Bytes are \<open>8 word\<close>, the checksum register is
  \<open>32 word\<close> and the regrouping accumulator \<open>64 word\<close> (Go's \<open>uint\<close>), shifting out its
  high bits as the code does. The human-readable part is ASCII (\<open>range\<close> over it visits
  bytes).
\<close>

section \<open>base64.StdEncoding.DecodeString\<close>

definition b64_val :: "char \<Rightarrow> 8 word option" where
  "b64_val c =
     (let n = of_char c :: nat in
      if 65 \<le> n \<and> n \<le> 90 then Some (of_nat (n - 65))
      else if 97 \<le> n \<and> n \<le> 122 then Some (of_nat (n - 71))
      else if 48 \<le> n \<and> n \<le> 57 then Some (of_nat (n + 4))
      else if c = CHR ''+'' then Some 62
      else if c = CHR ''/'' then Some 63 else None)"

fun b64_groups :: "string \<Rightarrow> 8 word list option" where
  "b64_groups [] = Some []"
| "b64_groups (a # b # c # d # s) =
     (case (b64_val a, b64_val b) of
        (Some w, Some x) \<Rightarrow>
          (let p = push_bit 2 w OR drop_bit 4 x in
           if c = CHR ''='' then (if d = CHR ''='' \<and> s = [] then Some [p] else None)
           else
             (case b64_val c of
                None \<Rightarrow> None
              | Some y \<Rightarrow>
                  (let q = push_bit 4 x OR drop_bit 2 y in
                   if d = CHR ''='' then (if s = [] then Some [p, q] else None)
                   else
                     (case b64_val d of
                        None \<Rightarrow> None
                      | Some z \<Rightarrow> map_option (\<lambda>r. p # q # (push_bit 6 y OR z) # r) (b64_groups s)))))
      | _ \<Rightarrow> None)"
| "b64_groups _ = None"

definition base64_decode :: "string \<Rightarrow> 8 word list option" where
  "base64_decode s = b64_groups (filter (\<lambda>c. c \<noteq> CHR 0x0A \<and> c \<noteq> CHR 0x0D) s)"

section \<open>BIP173 bech32\<close>

definition charset :: string where
  "charset = ''qpzry9x8gf2tvdw0s3jn54khce6mua7l''"

definition bech32_gen :: "32 word list" where
  "bech32_gen = [0x3b6a57b2, 0x26508e6d, 0x1ea119fa, 0x3d4233dd, 0x2a1462b3]"

fun emit_groups :: "nat \<Rightarrow> 64 word \<Rightarrow> nat \<Rightarrow> 64 word \<Rightarrow> 8 word list \<times> nat" where
  "emit_groups to_bits maxv bits acc =
     (if to_bits = 0 \<or> bits < to_bits then ([], bits)
      else
        (let (out, bits') = emit_groups to_bits maxv (bits - to_bits) acc
         in (ucast (drop_bit (bits - to_bits) acc AND maxv) # out, bits')))"

declare emit_groups.simps [simp del]

fun convert_loop ::
  "nat \<Rightarrow> nat \<Rightarrow> 64 word \<Rightarrow> 8 word list \<Rightarrow> 64 word \<times> nat \<Rightarrow> 8 word list \<times> 64 word \<times> nat" where
  "convert_loop from_bits to_bits maxv [] (acc, bits) = ([], acc, bits)"
| "convert_loop from_bits to_bits maxv (b # bs) (acc, bits) =
     (let acc' = push_bit from_bits acc OR ucast b;
          (out, bits') = emit_groups to_bits maxv (bits + from_bits) acc';
          (out', r) = convert_loop from_bits to_bits maxv bs (acc', bits')
      in (out @ out', r))"

definition convert_bits :: "8 word list \<Rightarrow> nat \<Rightarrow> nat \<Rightarrow> bool \<Rightarrow> 8 word list" where
  "convert_bits data from_bits to_bits pad =
     (let maxv = push_bit to_bits 1 - 1;
          (out, acc, bits) = convert_loop from_bits to_bits maxv data (0, 0)
      in if pad \<and> 0 < bits then out @ [ucast (push_bit (to_bits - bits) acc AND maxv)] else out)"

definition polymod_step :: "32 word \<Rightarrow> 8 word \<Rightarrow> 32 word" where
  "polymod_step chk v =
     (let top = drop_bit 25 chk;
          chk' = push_bit 5 (chk AND 0x1ffffff) XOR ucast v
      in foldl (\<lambda>c i. if drop_bit i top AND 1 = 1 then c XOR bech32_gen ! i else c) chk' [0..<5])"

definition polymod :: "8 word list \<Rightarrow> 32 word" where
  "polymod values = foldl polymod_step 1 values"

definition hrp_expand :: "string \<Rightarrow> 8 word list" where
  "hrp_expand hrp =
     map (\<lambda>c. drop_bit 5 (of_char c)) hrp @ [0] @ map (\<lambda>c. of_char c AND 31) hrp"

definition create_checksum :: "string \<Rightarrow> 8 word list \<Rightarrow> 8 word list" where
  "create_checksum hrp data =
     (let pm = polymod (hrp_expand hrp @ data @ replicate 6 0) XOR 1
      in map (\<lambda>i. ucast (drop_bit (5 * (5 - i)) pm AND 31)) [0..<6])"

definition bech32_encode :: "string \<Rightarrow> 8 word list \<Rightarrow> string" where
  "bech32_encode hrp data =
     (let d5 = convert_bits data 8 5 True
      in hrp @ ''1'' @ map (\<lambda>b. charset ! unat b) (d5 @ create_checksum hrp d5))"

section \<open>The key encoding\<close>

definition type_url :: "8 word list" where
  "type_url = map of_char ''/tm.PubKeyEd25519''"

definition encode_ed25519 :: "8 word list \<Rightarrow> string" where
  "encode_ed25519 pk =
     bech32_encode ''gpub''
       ([0x0a, of_nat (length type_url)] @ type_url @ [0x12, 0x22, 0x0a, 0x20] @ pk)"

definition encode_ed25519_from_base64 :: "string \<Rightarrow> string option" where
  "encode_ed25519_from_base64 b64 =
     (case base64_decode b64 of
        None \<Rightarrow> None
      | Some raw \<Rightarrow> if length raw \<noteq> 32 then None else Some (encode_ed25519 raw))"

end
