(* ===== verification/Fwd_Rpc.thy ===== *)
theory Fwd_Rpc
  imports Fwd_Metrics Gpub
begin

text \<open>
  From a sentinel's RPC payload to VictoriaMetrics lines
  (\<open>internal/watchtower/forwarder/rpc.go\<close>): the JSON shapes of the node's endpoints and
  one \<open>append\<close> function per key. Conventions as in \<open>Fwd_Metrics\<close>.
\<close>

section \<open>Samples\<close>

definition decode_result :: "'a decoder \<Rightarrow> 'a \<Rightarrow> string \<Rightarrow> 'a option" where
  "decode_result = unmarshal"

definition int_sample :: "string \<Rightarrow> labels \<Rightarrow> string \<Rightarrow> int \<Rightarrow> vm_line option" where
  "int_sample name lbls num ts =
     (case parse_int64 num of None \<Rightarrow> None | Some n \<Rightarrow> Some (vm_sample name lbls (f64_of_int n) ts))"

definition append_opt :: "vm_line list \<Rightarrow> vm_line option \<Rightarrow> vm_line list" where
  "append_opt ls s = (case s of None \<Rightarrow> ls | Some l \<Rightarrow> ls @ [l])"

definition bool_to_float :: "bool \<Rightarrow> float64" where
  "bool_to_float b = (if b then 1 else 0)"

section \<open>status\<close>

record node_info =
  ni_moniker :: string
  ni_network :: string
  ni_version :: string

record sync_info =
  si_latest_block_height :: string
  si_catching_up :: bool

record validator_info =
  vi_address :: string
  vi_voting_power :: string

record rpc_status =
  st_node_info :: node_info
  st_sync_info :: sync_info
  st_validator_info :: "validator_info option"

definition zero_rpc_status :: rpc_status where
  "zero_rpc_status =
     \<lparr>st_node_info = \<lparr>ni_moniker = [], ni_network = [], ni_version = []\<rparr>,
      st_sync_info = \<lparr>si_latest_block_height = [], si_catching_up = False\<rparr>,
      st_validator_info = None\<rparr>"

definition dec_node_info :: "node_info decoder" where
  "dec_node_info = dec_struct (\<lambda>ms s. do {
     m \<leftarrow> dec_field ms ''moniker'' dec_string (ni_moniker s);
     n \<leftarrow> dec_field ms ''network'' dec_string (ni_network s);
     v \<leftarrow> dec_field ms ''version'' dec_string (ni_version s);
     Some \<lparr>ni_moniker = m, ni_network = n, ni_version = v\<rparr> })"

definition dec_sync_info :: "sync_info decoder" where
  "dec_sync_info = dec_struct (\<lambda>ms s. do {
     h \<leftarrow> dec_field ms ''latest_block_height'' dec_number (si_latest_block_height s);
     c \<leftarrow> dec_field ms ''catching_up'' dec_bool (si_catching_up s);
     Some \<lparr>si_latest_block_height = h, si_catching_up = c\<rparr> })"

definition dec_validator_info :: "validator_info decoder" where
  "dec_validator_info = dec_struct (\<lambda>ms s. do {
     a \<leftarrow> dec_field ms ''address'' dec_string (vi_address s);
     p \<leftarrow> dec_field ms ''voting_power'' dec_number (vi_voting_power s);
     Some \<lparr>vi_address = a, vi_voting_power = p\<rparr> })"

definition dec_rpc_status :: "rpc_status decoder" where
  "dec_rpc_status = dec_struct (\<lambda>ms s. do {
     n \<leftarrow> dec_field ms ''node_info'' dec_node_info (st_node_info s);
     y \<leftarrow> dec_field ms ''sync_info'' dec_sync_info (st_sync_info s);
     v \<leftarrow> dec_field ms ''validator_info''
           (dec_ptr dec_validator_info \<lparr>vi_address = [], vi_voting_power = []\<rparr>) (st_validator_info s);
     Some \<lparr>st_node_info = n, st_sync_info = y, st_validator_info = v\<rparr> })"

definition append_rpc_status :: "vm_line list \<Rightarrow> string \<Rightarrow> int \<Rightarrow> string \<Rightarrow> vm_line list" where
  "append_rpc_status ls validator ts raw =
     (case decode_result dec_rpc_status zero_rpc_status raw of
        None \<Rightarrow> ls
      | Some r \<Rightarrow>
          (let base = [(''validator'', validator)];
               catching_up = si_catching_up (st_sync_info r);
               ls1 = append_opt ls
                 (int_sample ''sentinel_rpc_latest_block_height'' base
                    (si_latest_block_height (st_sync_info r)) ts);
               ls2 = ls1 @ [vm_sample ''sentinel_rpc_catching_up'' base (bool_to_float catching_up) ts];
               ls3 = (case st_validator_info r of
                        None \<Rightarrow> ls2
                      | Some vi \<Rightarrow>
                          (let vp_labels = [(''validator'', validator), (''address'', vi_address vi)];
                               l = append_opt ls2
                                 (int_sample ''sentinel_rpc_validator_voting_power'' vp_labels
                                    (vi_voting_power vi) ts)
                           in if vi_address vi \<noteq> [] \<and> \<not> catching_up
                              then l @ [vm_sample ''sentinel_validator_online'' vp_labels 1 ts] else l));
               info_labels = [(''validator'', validator), (''chain_id'', ni_network (st_node_info r)),
                              (''moniker'', ni_moniker (st_node_info r)),
                              (''version'', ni_version (st_node_info r))]
           in ls3 @ [vm_sample ''sentinel_node_build_info'' info_labels 1 ts]))"

section \<open>net_info, num_unconfirmed_txs, dump_consensus_state, block\<close>

definition dec_net_info :: "string decoder" where
  "dec_net_info = dec_struct (\<lambda>ms. dec_field ms ''n_peers'' dec_number)"

definition append_rpc_net_info :: "vm_line list \<Rightarrow> string \<Rightarrow> int \<Rightarrow> string \<Rightarrow> vm_line list" where
  "append_rpc_net_info ls validator ts raw =
     (case decode_result dec_net_info [] raw of
        None \<Rightarrow> ls
      | Some n_peers \<Rightarrow>
          append_opt ls (int_sample ''sentinel_rpc_peers'' [(''validator'', validator)] n_peers ts))"

definition dec_mempool :: "(string \<times> string) decoder" where
  "dec_mempool = dec_struct (\<lambda>ms s. do {
     n \<leftarrow> dec_field ms ''n_txs'' dec_number (fst s);
     b \<leftarrow> dec_field ms ''total_bytes'' dec_number (snd s);
     Some (n, b) })"

definition append_rpc_mempool :: "vm_line list \<Rightarrow> string \<Rightarrow> int \<Rightarrow> string \<Rightarrow> vm_line list" where
  "append_rpc_mempool ls validator ts raw =
     (case decode_result dec_mempool ([], []) raw of
        None \<Rightarrow> ls
      | Some (n_txs, total_bytes) \<Rightarrow>
          (let base = [(''validator'', validator)];
               ls1 = append_opt ls (int_sample ''sentinel_rpc_mempool_txs'' base n_txs ts)
           in append_opt ls1 (int_sample ''sentinel_rpc_mempool_bytes'' base total_bytes ts)))"

definition dec_consensus :: "(string \<times> string \<times> string) decoder" where
  "dec_consensus = dec_struct (\<lambda>ms. dec_field ms ''round_state'' (dec_struct (\<lambda>ms s. do {
     h \<leftarrow> dec_field ms ''height'' dec_number (fst s);
     r \<leftarrow> dec_field ms ''round'' dec_number (fst (snd s));
     p \<leftarrow> dec_field ms ''step'' dec_number (snd (snd s));
     Some (h, r, p) })))"

definition append_rpc_consensus :: "vm_line list \<Rightarrow> string \<Rightarrow> int \<Rightarrow> string \<Rightarrow> vm_line list" where
  "append_rpc_consensus ls validator ts raw =
     (case decode_result dec_consensus ([], [], []) raw of
        None \<Rightarrow> ls
      | Some (h, r, p) \<Rightarrow>
          (let base = [(''validator'', validator)];
               ls1 = append_opt ls (int_sample ''sentinel_rpc_consensus_height'' base h ts);
               ls2 = append_opt ls1 (int_sample ''sentinel_rpc_consensus_round'' base r ts)
           in append_opt ls2 (int_sample ''sentinel_rpc_consensus_step'' base p ts)))"

definition dec_block :: "string decoder" where
  "dec_block = dec_struct (\<lambda>ms. dec_field ms ''block'' (dec_struct (\<lambda>ms. dec_field ms ''header''
     (dec_struct (\<lambda>ms. dec_field ms ''num_txs'' dec_number)))))"

definition append_rpc_block :: "vm_line list \<Rightarrow> string \<Rightarrow> int \<Rightarrow> string \<Rightarrow> vm_line list" where
  "append_rpc_block ls validator ts raw =
     (case decode_result dec_block [] raw of
        None \<Rightarrow> ls
      | Some num_txs \<Rightarrow>
          append_opt ls (int_sample ''sentinel_rpc_block_num_txs'' [(''validator'', validator)] num_txs ts))"

section \<open>validators\<close>

record rpc_validator =
  rv_address :: string
  rv_voting_power :: string
  rv_pub_key_type :: string
  rv_pub_key_value :: string

definition zero_rpc_validator :: rpc_validator where
  "zero_rpc_validator =
     \<lparr>rv_address = [], rv_voting_power = [], rv_pub_key_type = [], rv_pub_key_value = []\<rparr>"

definition dec_rpc_validator :: "rpc_validator decoder" where
  "dec_rpc_validator = dec_struct (\<lambda>ms s. do {
     a \<leftarrow> dec_field ms ''address'' dec_string (rv_address s);
     p \<leftarrow> dec_field ms ''voting_power'' dec_number (rv_voting_power s);
     k \<leftarrow> dec_field ms ''pub_key'' (dec_struct (\<lambda>ms k. do {
            t \<leftarrow> dec_field ms ''@type'' dec_string (fst k);
            v \<leftarrow> dec_field ms ''value'' dec_string (snd k);
            Some (t, v) })) (rv_pub_key_type s, rv_pub_key_value s);
     Some \<lparr>rv_address = a, rv_voting_power = p, rv_pub_key_type = fst k, rv_pub_key_value = snd k\<rparr> })"

definition dec_rpc_validators :: "rpc_validator list decoder" where
  "dec_rpc_validators =
     dec_struct (\<lambda>ms. dec_field ms ''validators'' (dec_slice dec_rpc_validator zero_rpc_validator))"

definition pub_key_type_ed25519 :: string where
  "pub_key_type_ed25519 = ''/tm.PubKeyEd25519''"

record member =
  m_address :: string
  m_power :: int
  m_pub_key_b32 :: string

definition member_of :: "rpc_validator \<Rightarrow> int \<Rightarrow> member" where
  "member_of v p =
     \<lparr>m_address = rv_address v, m_power = p,
      m_pub_key_b32 =
        (if rv_pub_key_type v = pub_key_type_ed25519 \<and> rv_pub_key_value v \<noteq> []
         then (case encode_ed25519_from_base64 (rv_pub_key_value v) of None \<Rightarrow> [] | Some b32 \<Rightarrow> b32)
         else [])\<rparr>"

fun collect_members :: "rpc_validator list \<Rightarrow> member list \<Rightarrow> int \<Rightarrow> (member list \<times> int) option" where
  "collect_members [] members tot = Some (members, tot)"
| "collect_members (v # vs) members tot =
     (case parse_int64 (rv_voting_power v) of
        None \<Rightarrow> None
      | Some p \<Rightarrow> collect_members vs (members @ [member_of v p]) (wrap64 (tot + p)))"

definition member_line :: "string \<Rightarrow> int \<Rightarrow> member \<Rightarrow> vm_line list" where
  "member_line validator ts m =
     (if m_address m = [] then []
      else
        (let lbls = [(''validator'', validator), (''address'', m_address m)] @
                    (if m_pub_key_b32 m = [] then [] else [(''pub_key_bech32'', m_pub_key_b32 m)])
         in [vm_sample ''sentinel_rpc_validator_set_power'' lbls (f64_of_int (m_power m)) ts]))"

definition append_rpc_validators :: "vm_line list \<Rightarrow> string \<Rightarrow> int \<Rightarrow> string \<Rightarrow> vm_line list" where
  "append_rpc_validators ls validator ts raw =
     (case decode_result dec_rpc_validators [] raw of
        None \<Rightarrow> ls
      | Some vs \<Rightarrow>
          (case collect_members vs [] 0 of
             None \<Rightarrow> ls
           | Some (members, tot) \<Rightarrow>
               (let base = [(''validator'', validator)]
                in ls @
                  [vm_sample ''sentinel_rpc_validator_set_size'' base (f64_of_int (int (length vs))) ts,
                   vm_sample ''sentinel_rpc_validator_set_total_power'' base (f64_of_int tot) ts] @
                  concat (map (member_line validator ts) members))))"

section \<open>The sentry's view\<close>

definition append_rpc_sentry_status :: "vm_line list \<Rightarrow> string \<Rightarrow> int \<Rightarrow> string \<Rightarrow> vm_line list" where
  "append_rpc_sentry_status ls validator ts raw =
     (case decode_result dec_rpc_status zero_rpc_status raw of
        None \<Rightarrow> ls
      | Some r \<Rightarrow>
          ls @ [vm_sample ''sentinel_sentry_info''
                  [(''validator'', validator), (''sentry_chain'', ni_network (st_node_info r)),
                   (''sentry_moniker'', ni_moniker (st_node_info r)),
                   (''sentry_version'', ni_version (st_node_info r))] 1 ts])"

definition append_rpc_sentry_net_info :: "vm_line list \<Rightarrow> string \<Rightarrow> int \<Rightarrow> string \<Rightarrow> vm_line list" where
  "append_rpc_sentry_net_info ls validator ts raw =
     (case decode_result dec_net_info [] raw of
        None \<Rightarrow> ls
      | Some n_peers \<Rightarrow>
          append_opt ls (int_sample ''sentinel_rpc_peers_via_sentry'' [(''validator'', validator)] n_peers ts))"

definition append_rpc_sentry_config :: "vm_line list \<Rightarrow> string \<Rightarrow> int \<Rightarrow> string \<Rightarrow> vm_line list" where
  "append_rpc_sentry_config ls validator ts raw =
     (case unmarshal (dec_map dec_string []) None raw of
        None \<Rightarrow> ls
      | Some vals \<Rightarrow> ls @ config_lines ''sentinel_sentry_config'' validator ts vals)"

definition append_rpc_reachable :: "vm_line list \<Rightarrow> string \<Rightarrow> int \<Rightarrow> string \<Rightarrow> vm_line list" where
  "append_rpc_reachable ls validator ts raw =
     (case unmarshal dec_f64 0 raw of
        None \<Rightarrow> ls
      | Some v \<Rightarrow> ls @ [vm_sample ''sentinel_rpc_reachable'' [(''validator'', validator)] v ts])"

section \<open>genesis\<close>

record genesis_block_params =
  gb_max_tx_bytes :: string
  gb_max_data_bytes :: string
  gb_max_block_bytes :: string
  gb_max_gas :: string
  gb_time_iota_ms :: string

record genesis_validator =
  gv_address :: string
  gv_pub_key :: string
  gv_power :: string
  gv_name :: string

record genesis_doc =
  g_genesis_time :: string
  g_chain_id :: string
  g_app_hash :: string \<comment> \<open>raw bytes\<close>
  g_block :: genesis_block_params
  g_pub_key_types :: "string list"
  g_validators :: "genesis_validator list"

definition zero_genesis_doc :: genesis_doc where
  "zero_genesis_doc =
     \<lparr>g_genesis_time = [], g_chain_id = [], g_app_hash = [],
      g_block = \<lparr>gb_max_tx_bytes = [], gb_max_data_bytes = [], gb_max_block_bytes = [],
                 gb_max_gas = [], gb_time_iota_ms = []\<rparr>,
      g_pub_key_types = [], g_validators = []\<rparr>"

definition dec_genesis_block_params :: "genesis_block_params decoder" where
  "dec_genesis_block_params = dec_struct (\<lambda>ms s. do {
     a \<leftarrow> dec_field ms ''MaxTxBytes'' dec_number (gb_max_tx_bytes s);
     b \<leftarrow> dec_field ms ''MaxDataBytes'' dec_number (gb_max_data_bytes s);
     c \<leftarrow> dec_field ms ''MaxBlockBytes'' dec_number (gb_max_block_bytes s);
     d \<leftarrow> dec_field ms ''MaxGas'' dec_number (gb_max_gas s);
     e \<leftarrow> dec_field ms ''TimeIotaMS'' dec_number (gb_time_iota_ms s);
     Some \<lparr>gb_max_tx_bytes = a, gb_max_data_bytes = b, gb_max_block_bytes = c,
           gb_max_gas = d, gb_time_iota_ms = e\<rparr> })"

definition dec_genesis_validator :: "genesis_validator decoder" where
  "dec_genesis_validator = dec_struct (\<lambda>ms s. do {
     a \<leftarrow> dec_field ms ''address'' dec_string (gv_address s);
     k \<leftarrow> dec_field ms ''pub_key'' (dec_struct (\<lambda>ms. dec_field ms ''value'' dec_string)) (gv_pub_key s);
     p \<leftarrow> dec_field ms ''power'' dec_number (gv_power s);
     n \<leftarrow> dec_field ms ''name'' dec_string (gv_name s);
     Some \<lparr>gv_address = a, gv_pub_key = k, gv_power = p, gv_name = n\<rparr> })"

definition dec_genesis_doc :: "genesis_doc decoder" where
  "dec_genesis_doc = dec_struct (\<lambda>ms s. do {
     t \<leftarrow> dec_field ms ''genesis_time'' dec_string (g_genesis_time s);
     c \<leftarrow> dec_field ms ''chain_id'' dec_string (g_chain_id s);
     h \<leftarrow> dec_field ms ''app_hash'' dec_raw (g_app_hash s);
     p \<leftarrow> dec_field ms ''consensus_params'' (dec_struct (\<lambda>ms q. do {
            b \<leftarrow> dec_field ms ''Block'' dec_genesis_block_params (fst q);
            k \<leftarrow> dec_field ms ''Validator''
                  (dec_struct (\<lambda>ms. dec_field ms ''PubKeyTypeURLs'' (dec_slice dec_string []))) (snd q);
            Some (b, k) })) (g_block s, g_pub_key_types s);
     v \<leftarrow> dec_field ms ''validators''
           (dec_slice dec_genesis_validator
              \<lparr>gv_address = [], gv_pub_key = [], gv_power = [], gv_name = []\<rparr>) (g_validators s);
     Some \<lparr>g_genesis_time = t, g_chain_id = c, g_app_hash = h, g_block = fst p,
           g_pub_key_types = snd p, g_validators = v\<rparr> })"

definition dec_genesis_result :: "genesis_doc decoder" where
  "dec_genesis_result = dec_struct (\<lambda>ms. dec_field ms ''genesis'' dec_genesis_doc)"

definition normalize_app_hash :: "string \<Rightarrow> string" where
  "normalize_app_hash raw =
     (if raw = [] then []
      else (case unmarshal dec_string [] raw of Some s \<Rightarrow> s | None \<Rightarrow> []))"

definition genesis_params :: "genesis_doc \<Rightarrow> (string \<times> string) list" where
  "genesis_params g =
     [(''block.max_tx_bytes'', gb_max_tx_bytes (g_block g)),
      (''block.max_data_bytes'', gb_max_data_bytes (g_block g)),
      (''block.max_block_bytes'', gb_max_block_bytes (g_block g)),
      (''block.max_gas'', gb_max_gas (g_block g)),
      (''block.time_iota_ms'', gb_time_iota_ms (g_block g)),
      (''validator.pub_key_types'', join_with '','' (g_pub_key_types g))]"

definition append_rpc_genesis :: "vm_line list \<Rightarrow> string \<Rightarrow> int \<Rightarrow> string \<Rightarrow> vm_line list" where
  "append_rpc_genesis ls validator ts raw =
     (case decode_result dec_genesis_result zero_genesis_doc raw of
        None \<Rightarrow> ls
      | Some g \<Rightarrow>
          ls @
          [vm_sample ''sentinel_genesis_info''
             [(''validator'', validator), (''chain_id'', g_chain_id g),
              (''genesis_time'', g_genesis_time g), (''app_hash'', normalize_app_hash (g_app_hash g))] 1 ts] @
          map (\<lambda>(n, v). vm_sample ''sentinel_genesis_consensus_param''
                 [(''validator'', validator), (''param'', n), (''value'', v)] 1 ts)
            (filter (\<lambda>p. snd p \<noteq> []) (genesis_params g)) @
          map (\<lambda>v. vm_sample ''sentinel_genesis_validator''
                 [(''validator'', validator), (''address'', gv_address v), (''pub_key'', gv_pub_key v),
                  (''power'', gv_power v), (''name'', gv_name v)] 1 ts) (g_validators g))"

section \<open>The dispatch\<close>

definition append_rpc_key ::
  "string \<Rightarrow> int \<Rightarrow> vm_line list \<Rightarrow> string \<times> string \<Rightarrow> vm_line list" where
  "append_rpc_key validator ts ls kv =
     (let (key, raw) = kv in
      if key = ''status'' then append_rpc_status ls validator ts raw
      else if key = ''net_info'' then append_rpc_net_info ls validator ts raw
      else if key = ''num_unconfirmed_txs'' then append_rpc_mempool ls validator ts raw
      else if key = ''dump_consensus_state'' then append_rpc_consensus ls validator ts raw
      else if key = ''validators'' then append_rpc_validators ls validator ts raw
      else if key = ''block'' then append_rpc_block ls validator ts raw
      else if key = ''genesis'' then append_rpc_genesis ls validator ts raw
      else if key = ''sentry_status'' then append_rpc_sentry_status ls validator ts raw
      else if key = ''sentry_net_info'' then append_rpc_sentry_net_info ls validator ts raw
      else if key = ''sentry_config'' then append_rpc_sentry_config ls validator ts raw
      else if key = ''rpc_reachable'' then append_rpc_reachable ls validator ts raw
      else ls)"

definition extract_rpc :: "string \<Rightarrow> payload \<Rightarrow> vm_line list" where
  "extract_rpc validator p =
     foldl (append_rpc_key validator (unix_milli (collected_at p))) [] (gomap_items (p_data p))"

section \<open>Each key contributes its own lines\<close>

lemma append_opt_eq: "append_opt ls s = ls @ (case s of None \<Rightarrow> [] | Some l \<Rightarrow> [l])"
  by (simp add: append_opt_def split: option.split)

lemmas rpc_append_defs = append_rpc_status_def append_rpc_net_info_def append_rpc_mempool_def
  append_rpc_consensus_def append_rpc_validators_def append_rpc_block_def append_rpc_genesis_def
  append_rpc_sentry_status_def append_rpc_sentry_net_info_def append_rpc_sentry_config_def
  append_rpc_reachable_def append_opt_eq

lemma rpc_appends: "append_rpc_key validator ts ls kv = ls @ append_rpc_key validator ts [] kv"
proof -
  obtain key raw where kv: "kv = (key, raw)" by (cases kv)
  have "append_rpc_status ls validator ts raw = ls @ append_rpc_status [] validator ts raw"
    "append_rpc_genesis ls validator ts raw = ls @ append_rpc_genesis [] validator ts raw"
    "append_rpc_validators ls validator ts raw = ls @ append_rpc_validators [] validator ts raw"
    "append_rpc_mempool ls validator ts raw = ls @ append_rpc_mempool [] validator ts raw"
    "append_rpc_consensus ls validator ts raw = ls @ append_rpc_consensus [] validator ts raw"
    by (simp_all add: rpc_append_defs Let_def split: option.split prod.split)
  moreover have "append_rpc_net_info ls validator ts raw = ls @ append_rpc_net_info [] validator ts raw"
    "append_rpc_block ls validator ts raw = ls @ append_rpc_block [] validator ts raw"
    "append_rpc_sentry_status ls validator ts raw = ls @ append_rpc_sentry_status [] validator ts raw"
    "append_rpc_sentry_net_info ls validator ts raw = ls @ append_rpc_sentry_net_info [] validator ts raw"
    "append_rpc_sentry_config ls validator ts raw = ls @ append_rpc_sentry_config [] validator ts raw"
    "append_rpc_reachable ls validator ts raw = ls @ append_rpc_reachable [] validator ts raw"
    by (simp_all add: rpc_append_defs split: option.split)
  ultimately show ?thesis
    by (simp only: kv append_rpc_key_def Let_def split) simp
qed

interpretation rx: line_extractor "append_rpc_key validator ts" for validator ts
  by unfold_locales (rule rpc_appends)

lemma int_sample_Some:
  "int_sample n lbls num ts = Some l \<longleftrightarrow> (\<exists>v. parse_int64 num = Some v \<and> l = vm_sample n lbls (f64_of_int v) ts)"
  by (auto simp: int_sample_def split: option.splits)

lemma attributed_int_sample:
  "int_sample n lbls num ts = Some l \<Longrightarrow> map_of lbls ''validator'' = Some validator \<Longrightarrow>
   distinct_keys lbls \<Longrightarrow> attributed validator ts l"
  by (auto simp: int_sample_Some)

lemma attributed_member_line:
  "l \<in> set (member_line validator ts m) \<Longrightarrow> attributed validator ts l"
  by (auto simp: member_line_def Let_def split: if_splits)

lemma attributed_rpc_status:
  assumes "l \<in> set (append_rpc_status [] validator ts raw)" shows "attributed validator ts l"
proof (cases "decode_result dec_rpc_status zero_rpc_status raw")
  case None
  with assms show ?thesis by (simp add: append_rpc_status_def)
next
  case (Some r)
  show ?thesis
    using assms
    by (cases "st_validator_info r")
       (auto simp: append_rpc_status_def Some append_opt_eq Let_def attributed_int_sample
          split: option.splits if_splits)
qed

lemma attributed_rpc_appends:
  "l \<in> set (append_rpc_mempool [] validator ts raw) \<Longrightarrow> attributed validator ts l"
  "l \<in> set (append_rpc_consensus [] validator ts raw) \<Longrightarrow> attributed validator ts l"
  "l \<in> set (append_rpc_validators [] validator ts raw) \<Longrightarrow> attributed validator ts l"
  "l \<in> set (append_rpc_genesis [] validator ts raw) \<Longrightarrow> attributed validator ts l"
  "l \<in> set (append_rpc_net_info [] validator ts raw) \<Longrightarrow> attributed validator ts l"
  "l \<in> set (append_rpc_block [] validator ts raw) \<Longrightarrow> attributed validator ts l"
  "l \<in> set (append_rpc_sentry_status [] validator ts raw) \<Longrightarrow> attributed validator ts l"
  "l \<in> set (append_rpc_sentry_net_info [] validator ts raw) \<Longrightarrow> attributed validator ts l"
  "l \<in> set (append_rpc_sentry_config [] validator ts raw) \<Longrightarrow> attributed validator ts l"
  "l \<in> set (append_rpc_reachable [] validator ts raw) \<Longrightarrow> attributed validator ts l"
  by (auto simp: rpc_append_defs Let_def attributed_lines attributed_int_sample
        attributed_member_line split: option.splits if_splits)

lemma attributed_rpc_key:
  "l \<in> set (append_rpc_key validator ts [] kv) \<Longrightarrow> attributed validator ts l"
  by (cases kv) (simp add: append_rpc_key_def attributed_rpc_status attributed_rpc_appends split: if_splits)

lemma attributed_rpc:
  "l \<in> set (extract_rpc validator p) \<Longrightarrow> attributed validator (unix_milli (collected_at p)) l"
  unfolding extract_rpc_def by (rule rx.fold_all) (rule attributed_rpc_key)

end
