(* ===== verification/Logger.thy ===== *)
theory Logger
  imports Json
begin

text \<open>
  The shared logging helpers (\<open>pkg/logger/logger.go\<close>): level names, their ranks, the
  \<open>slog\<close> levels with their order, the choice of handler and the journal's field names.
  The handlers themselves write to stderr or the journal and are not modelled.
\<close>

section \<open>Levels\<close>

definition level_rank :: "string \<Rightarrow> int" where
  "level_rank level =
     (if level = ''debug'' then 0
      else if level = ''info'' then 1
      else if level = ''warn'' then 2
      else if level = ''error'' then 3
      else 1)"

datatype slog_level = LevelDebug | LevelInfo | LevelWarn | LevelError

fun slog_value :: "slog_level \<Rightarrow> int" where
  "slog_value LevelDebug = - 4"
| "slog_value LevelInfo = 0"
| "slog_value LevelWarn = 4"
| "slog_value LevelError = 8"

lemma slog_value_inj: "slog_value a = slog_value b \<Longrightarrow> a = b"
  by (cases a; cases b) simp_all

instantiation slog_level :: linorder
begin

definition less_eq_slog_level :: "slog_level \<Rightarrow> slog_level \<Rightarrow> bool" where
  "a \<le> b \<longleftrightarrow> slog_value a \<le> slog_value b"

definition less_slog_level :: "slog_level \<Rightarrow> slog_level \<Rightarrow> bool" where
  "a < b \<longleftrightarrow> slog_value a < slog_value b"

instance
  by standard (auto simp: less_eq_slog_level_def less_slog_level_def dest: slog_value_inj)

end

text \<open>\<open>Inl\<close> is the error; the level returned with it is \<open>LevelInfo\<close>.\<close>

definition parse_level :: "string \<Rightarrow> string + slog_level" where
  "parse_level s =
     (if s = ''debug'' then Inr LevelDebug
      else if s = ''info'' then Inr LevelInfo
      else if s = ''warn'' then Inr LevelWarn
      else if s = ''error'' then Inr LevelError
      else Inl s)"

datatype log_handler = TextHandler slog_level | JsonHandler slog_level | JournalHandler slog_level

datatype logger_error = JournalFailed | UnknownFormat string

text \<open>\<open>journal_ok\<close> says whether \<open>slogjournal.NewHandler\<close> succeeds.\<close>

definition new_logger :: "bool \<Rightarrow> string \<Rightarrow> slog_level \<Rightarrow> logger_error + log_handler" where
  "new_logger journal_ok format level =
     (if format = ''console'' then Inr (TextHandler level)
      else if format = ''json'' then Inr (JsonHandler level)
      else if format = ''journal'' then
        (if journal_ok then Inr (JournalHandler level) else Inl JournalFailed)
      else Inl (UnknownFormat format))"

lemma level_rank_mono:
  "parse_level s = Inr a \<Longrightarrow> parse_level t = Inr b \<Longrightarrow> level_rank s \<le> level_rank t \<longleftrightarrow> a \<le> b"
  by (auto simp: parse_level_def level_rank_def less_eq_slog_level_def split: if_splits)

lemma level_rank_range: "0 \<le> level_rank s \<and> level_rank s \<le> 3"
  by (simp add: level_rank_def)

section \<open>Journal field names\<close>

definition is_upper :: "char \<Rightarrow> bool" where
  "is_upper c \<longleftrightarrow> 65 \<le> (of_char c :: nat) \<and> (of_char c :: nat) \<le> 90"

definition is_lower :: "char \<Rightarrow> bool" where
  "is_lower c \<longleftrightarrow> 97 \<le> (of_char c :: nat) \<and> (of_char c :: nat) \<le> 122"

definition sanitize_char :: "char \<Rightarrow> char" where
  "sanitize_char c =
     (if is_upper c \<or> is_digit c \<or> c = CHR ''_'' then c
      else if is_lower c then char_of (of_char c - 97 + 65 :: nat)
      else CHR ''_'')"

text \<open>A multi-byte rune, like every byte that starts none, becomes one underscore.\<close>

function write_sanitized :: "string \<Rightarrow> string" where
  "write_sanitized [] = []"
| "write_sanitized (c # s) =
     (case utf8_len (c # s) of
        None \<Rightarrow> CHR ''_'' # write_sanitized s
      | Some k \<Rightarrow>
          if k \<le> 1 then sanitize_char c # write_sanitized s
          else CHR ''_'' # write_sanitized (drop (k - 1) s))"
  by pat_completeness auto
termination by (relation "measure length") auto

definition journal_key :: "string list \<Rightarrow> string \<Rightarrow> string" where
  "journal_key groups key =
     (let out = concat (map (\<lambda>g. write_sanitized g @ ''_'') groups) @ write_sanitized key
      in if has_prefix out ''_'' then ''X'' @ out
         else if out \<noteq> [] \<and> is_digit (hd out) then ''X_'' @ out
         else out)"

definition journal_char :: "char \<Rightarrow> bool" where
  "journal_char c \<longleftrightarrow> is_upper c \<or> is_digit c \<or> c = CHR ''_''"

lemma sanitize_char_ok: "journal_char (sanitize_char c)"
proof (cases "is_upper c \<or> is_digit c \<or> c = CHR ''_''")
  case False
  show ?thesis
  proof (cases "is_lower c")
    case True
    then have "(of_char (char_of (of_char c - 97 + 65 :: nat) :: char) :: nat) = of_char c - 97 + 65"
      unfolding is_lower_def of_char_of by (intro mod_less) auto
    with True False show ?thesis
      by (auto simp: sanitize_char_def journal_char_def is_upper_def is_lower_def)
  qed (use False in \<open>simp add: sanitize_char_def journal_char_def\<close>)
qed (simp add: sanitize_char_def journal_char_def)

lemma write_sanitized_ok: "list_all journal_char (write_sanitized s)"
  by (induction s rule: write_sanitized.induct)
     (auto simp: sanitize_char_ok split: option.split intro: journal_char_def [THEN iffD2])

text \<open>Every journal field name is empty or one the journal accepts and does not reserve: an
  upper-case letter followed by upper-case letters, digits and underscores, whatever bytes
  the attribute key and its groups hold.\<close>

lemma journal_key_accepted:
  "journal_key groups key = [] \<or>
   is_upper (hd (journal_key groups key)) \<and> list_all journal_char (journal_key groups key)"
proof -
  define out where "out = concat (map (\<lambda>g. write_sanitized g @ ''_'') groups) @ write_sanitized key"
  have ok: "list_all journal_char out"
    using write_sanitized_ok by (auto simp: out_def list_all_iff journal_char_def)
  have j: "journal_key groups key =
      (if has_prefix out ''_'' then ''X'' @ out
       else if out \<noteq> [] \<and> is_digit (hd out) then ''X_'' @ out else out)"
    by (simp add: journal_key_def out_def Let_def)
  have x: "is_upper (CHR ''X'')" "journal_char (CHR ''X'')" "journal_char (CHR ''_'')"
    by (simp_all add: is_upper_def journal_char_def)
  show ?thesis
    using ok x by (cases out) (auto simp: j has_prefix_def journal_char_def)
qed

end
