(* ===== verification/Loki.thy ===== *)
theory Loki
  imports Fwd_Rpc Logger
begin

text \<open>
  From a sentinel's log payload to a Loki push (\<open>toLokiPush\<close>, \<open>extractModuleAndTS\<close> and
  \<open>stripBodyFields\<close> in \<open>internal/watchtower/forwarder/forwarder.go\<close>).

  \<open>slices.SortFunc\<close> promises a sorted permutation but no order among equal keys; it is the
  argument \<open>sort_entries\<close>, with the hypothesis \<open>sorts\<close>.
\<close>

section \<open>Data\<close>

record log_payload =
  lp_level :: string
  lp_lines :: "string list"

definition dec_log_payload :: "log_payload decoder" where
  "dec_log_payload = dec_struct (\<lambda>ms s. do {
     l \<leftarrow> dec_field ms ''level'' dec_string (lp_level s);
     ls \<leftarrow> dec_field ms ''lines'' (dec_slice dec_raw []) (lp_lines s);
     Some \<lparr>lp_level = l, lp_lines = ls\<rparr> })"

record log_entry =
  en_nano :: int
  en_raw :: string
  en_module :: string

type_synonym loki_value = "string \<times> string \<times> labels"

record loki_stream =
  lk_stream :: labels
  lk_values :: "loki_value list"

type_synonym loki_push = "loki_stream list"

definition max_logs_ts_future_skew :: duration where
  "max_logs_ts_future_skew = 10 * minute"

definition max_logs_ts_past_skew :: duration where
  "max_logs_ts_past_skew = 168 * hour"

section \<open>One line\<close>

definition dec_log_line :: "(string \<times> string) decoder" where
  "dec_log_line = dec_struct (\<lambda>ms s. do {
     m \<leftarrow> dec_field ms ''module'' dec_string (fst s);
     t \<leftarrow> dec_field ms ''ts'' dec_raw (snd s);
     Some (m, t) })"

definition line_time :: "string \<Rightarrow> gtime \<Rightarrow> gtime" where
  "line_time ts_raw fallback =
     (if ts_raw = [] then fallback
      else case unmarshal dec_f64 0 ts_raw of
        Some epoch \<Rightarrow>
          (let sec = int64_of_f64 epoch;
               nsec = int64_of_f64 (f64_val (f64_val (epoch - f64_of_int sec) * 10 ^ 9))
           in time_unix sec nsec)
      | None \<Rightarrow>
          (case unmarshal dec_string [] ts_raw of
             None \<Rightarrow> fallback
           | Some s \<Rightarrow>
               if s = [] then fallback
               else (case parse_rfc3339_nano s of None \<Rightarrow> fallback | Some t \<Rightarrow> t)))"

definition extract_module_and_ts :: "string \<Rightarrow> gtime \<Rightarrow> string \<times> gtime" where
  "extract_module_and_ts raw fallback =
     (case unmarshal dec_log_line ([], []) raw of
        None \<Rightarrow> (''unknown'', fallback)
      | Some (m, ts_raw) \<Rightarrow> (if m = [] then ''unknown'' else m, line_time ts_raw fallback))"

text \<open>The members are valid JSON, so encoding them again cannot fail.\<close>

definition strip_body_fields :: "string \<Rightarrow> string list \<Rightarrow> string" where
  "strip_body_fields raw keys =
     (case unmarshal_raw_map raw of
        None \<Rightarrow> raw
      | Some None \<Rightarrow> raw
      | Some (Some obj) \<Rightarrow> marshal_raw_map (Some (foldl (\<lambda>m k. AList.delete k m) obj keys)))"

section \<open>The push\<close>

definition clamp_ts :: "gtime \<Rightarrow> gtime \<Rightarrow> gtime" where
  "clamp_ts now ts =
     (if ts < time_add now (- max_logs_ts_past_skew) \<or> time_add now max_logs_ts_future_skew < ts
      then now else ts)"

definition log_entry_of :: "gtime \<Rightarrow> string \<Rightarrow> log_entry" where
  "log_entry_of now raw =
     (let (m, ts) = extract_module_and_ts raw now
      in \<lparr>en_nano = unix_nano (clamp_ts now ts), en_raw = strip_body_fields raw [''ts'', ''level''],
          en_module = m\<rparr>)"

definition loki_value_of :: "log_entry \<Rightarrow> loki_value" where
  "loki_value_of e = (format_int (en_nano e), en_raw e, [(''module'', en_module e)])"

definition to_loki_push ::
  "(log_entry list \<Rightarrow> log_entry list) \<Rightarrow> gtime \<Rightarrow> string \<Rightarrow> log_payload \<Rightarrow> loki_push" where
  "to_loki_push sort_entries now validator p =
     (let entries = sort_entries (map (log_entry_of now) (lp_lines p));
          vals = map loki_value_of entries
      in if vals = [] then []
         else [\<lparr>lk_stream = [(''validator'', validator), (''level'', lp_level p)], lk_values = vals\<rparr>])"

definition encode_loki_value :: "loki_value \<Rightarrow> string" where
  "encode_loki_value v =
     (let (ts, line, meta) = v
      in ''['' @ quote_string ts @ '','' @ quote_string line @ '','' @ marshal_string_map meta @ '']'')"

definition encode_loki_stream :: "loki_stream \<Rightarrow> string" where
  "encode_loki_stream s =
     ''{'' @ quote_string ''stream'' @ '':'' @ marshal_string_map (lk_stream s) @ '','' @
     quote_string ''values'' @ '':['' @ join_with '','' (map encode_loki_value (lk_values s)) @ '']}''"

definition encode_loki_push :: "loki_push \<Rightarrow> string" where
  "encode_loki_push p =
     ''{'' @ quote_string ''streams'' @ '':['' @ join_with '','' (map encode_loki_stream p) @ '']}''"

section \<open>What Loki receives\<close>

definition sorts :: "(log_entry list \<Rightarrow> log_entry list) \<Rightarrow> bool" where
  "sorts f \<longleftrightarrow> (\<forall>es. mset (f es) = mset es \<and> sorted (map en_nano (f es)))"

definition value_nano :: "loki_value \<Rightarrow> int" where
  "value_nano v = (case parse_int64 (fst v) of None \<Rightarrow> 0 | Some n \<Rightarrow> n)"

definition value_body :: "loki_value \<Rightarrow> string \<times> string" where
  "value_body v = (fst (snd v), case map_of (snd (snd v)) ''module'' of None \<Rightarrow> [] | Some m \<Rightarrow> m)"

text \<open>A receive time whose skew window fits in 64-bit nanoseconds (years 1678 to 2261).\<close>

definition receive_time_ok :: "gtime \<Rightarrow> bool" where
  "receive_time_ok now \<longleftrightarrow>
     int64_range (now - max_logs_ts_past_skew) \<and> int64_range (now + max_logs_ts_future_skew)"

definition within_gates :: "gtime \<Rightarrow> int \<Rightarrow> bool" where
  "within_gates now n \<longleftrightarrow> now - max_logs_ts_past_skew \<le> n \<and> n \<le> now + max_logs_ts_future_skew"

lemmas skews = max_logs_ts_past_skew_def max_logs_ts_future_skew_def duration_units

lemma clamp_ts_within: "within_gates now (clamp_ts now ts)"
  by (simp add: clamp_ts_def within_gates_def time_add_def skews)

lemma within_gates_range: "receive_time_ok now \<Longrightarrow> within_gates now n \<Longrightarrow> int64_range n"
  by (simp add: receive_time_ok_def within_gates_def int64_range_def)

lemma entry_nano:
  "receive_time_ok now \<Longrightarrow>
   within_gates now (en_nano (log_entry_of now raw)) \<and> int64_range (en_nano (log_entry_of now raw))"
  using clamp_ts_within within_gates_range
  by (auto simp: log_entry_of_def unix_nano_def split: prod.split)

lemma value_of_entry:
  "int64_range (en_nano e) \<Longrightarrow> value_nano (loki_value_of e) = en_nano e"
  "value_body (loki_value_of e) = (en_raw e, en_module e)"
  by (simp_all add: value_nano_def value_body_def loki_value_of_def parse_int64_format_int)

lemma entry_body:
  "(en_raw (log_entry_of now raw), en_module (log_entry_of now raw)) =
     (strip_body_fields raw [''ts'', ''level''], fst (extract_module_and_ts raw now))"
  by (simp add: log_entry_of_def split: prod.split)

text \<open>The value of one line, and the stream a payload becomes: every line once, in the order of the
  timestamps.\<close>

definition line_value :: "gtime \<Rightarrow> string \<Rightarrow> loki_value" where
  "line_value now raw = loki_value_of (log_entry_of now raw)"

lemma unix_nano_range: "int64_range (unix_nano t)"
  by (simp add: unix_nano_def wrap64_range)

lemma push_stream:
  assumes "sorts f"
  obtains vals where
    "to_loki_push f now validator p =
       (if lp_lines p = [] then []
        else [\<lparr>lk_stream = [(''validator'', validator), (''level'', lp_level p)], lk_values = vals\<rparr>])"
    "mset vals = mset (map (line_value now) (lp_lines p))"
    "sorted (map value_nano vals)"
proof -
  define es where "es = f (map (log_entry_of now) (lp_lines p))"
  have m: "mset es = mset (map (log_entry_of now) (lp_lines p))" and s: "sorted (map en_nano es)"
    using assms by (auto simp: sorts_def es_def)
  have "int64_range (en_nano e)" if "e \<in> set es" for e
    using that mset_eq_setD [OF m] by (auto simp: log_entry_of_def unix_nano_range split: prod.split)
  then have "map value_nano (map loki_value_of es) = map en_nano es"
    by (auto simp: value_of_entry)
  with s have "sorted (map value_nano (map loki_value_of es))" by (simp only:)
  moreover have "mset (map loki_value_of es) = mset (map (line_value now) (lp_lines p))"
    using arg_cong [OF m, of "image_mset loki_value_of"]
    by (simp add: line_value_def [abs_def] image_mset.compositionality comp_def)
  moreover have "es = [] \<longleftrightarrow> lp_lines p = []" using m by (cases "lp_lines p") auto
  ultimately show thesis
    by (intro that [of "map loki_value_of es"]) (auto simp: to_loki_push_def es_def [symmetric] Let_def)
qed

lemma line_value_nano: "value_nano (line_value now raw) = en_nano (log_entry_of now raw)"
  by (simp add: line_value_def value_of_entry log_entry_of_def unix_nano_range split: prod.split)

lemma line_value_body:
  "value_body (line_value now raw) =
     (strip_body_fields raw [''ts'', ''level''], fst (extract_module_and_ts raw now))"
  by (simp add: line_value_def value_of_entry entry_body)

text \<open>C11: a payload becomes at most one stream, labelled with the authenticated validator and the
  payload's level and nothing else (the module is the structured metadata of each line, not a
  stream label, and the payload is not split by module, unlike what
  \<open>docs/data-collected.md\<close> says); the stream holds every line of the payload exactly once,
  stripped of its promoted fields and with its module, in non-decreasing timestamp order, and
  every timestamp lies inside Loki's acceptance window around the receive time, whatever the
  lines say.\<close>

theorem loki_push_accepted:
  assumes "sorts sort_entries" and "receive_time_ok now"
  shows "case to_loki_push sort_entries now validator p of
      [] \<Rightarrow> lp_lines p = []
    | [s] \<Rightarrow> lk_stream s = [(''validator'', validator), (''level'', lp_level p)] \<and>
        sorted (map value_nano (lk_values s)) \<and>
        list_all (\<lambda>v. within_gates now (value_nano v)) (lk_values s) \<and>
        mset (map value_body (lk_values s)) =
          mset (map (\<lambda>raw. (strip_body_fields raw [''ts'', ''level''],
                            fst (extract_module_and_ts raw now))) (lp_lines p))
    | _ \<Rightarrow> False"
proof -
  obtain vals where v: "to_loki_push sort_entries now validator p =
       (if lp_lines p = [] then []
        else [\<lparr>lk_stream = [(''validator'', validator), (''level'', lp_level p)], lk_values = vals\<rparr>])"
    and m: "mset vals = mset (map (line_value now) (lp_lines p))" and s: "sorted (map value_nano vals)"
    by (rule push_stream [OF assms(1)])
  have "within_gates now (value_nano v)" if "v \<in> set vals" for v
    using that mset_eq_setD [OF m] entry_nano [OF assms(2)] by (auto simp: line_value_nano)
  moreover have "mset (map value_body vals) =
      mset (map (\<lambda>raw. (strip_body_fields raw [''ts'', ''level''],
                        fst (extract_module_and_ts raw now))) (lp_lines p))"
    using arg_cong [OF m, of "image_mset value_body"]
    by (simp add: image_mset.compositionality comp_def line_value_body)
  ultimately show ?thesis
    using s by (simp add: v list_all_iff)
qed

theorem loki_push_accepted_witness:
  "sorts (sort_key en_nano) \<and> receive_time_ok 0 \<and>
   (case to_loki_push (sort_key en_nano) 0 ''v1'' \<lparr>lp_level = ''warn'', lp_lines = [''x'', ''y'']\<rparr> of
      [s] \<Rightarrow> sorted (map value_nano (lk_values s)) \<and> length (lk_values s) = 2
    | _ \<Rightarrow> False)"
proof -
  let ?p = "\<lparr>lp_level = ''warn'', lp_lines = [''x'', ''y'']\<rparr>"
  have s: "sorts (sort_key en_nano)" by (simp add: sorts_def)
  have r: "receive_time_ok 0" by (simp add: receive_time_ok_def int64_range_def skews)
  have "length xs = 2" if "mset (map value_body xs) = mset (map f [''x'', ''y''])"
    for xs and f :: "string \<Rightarrow> string \<times> string"
    using that by (metis length_map list.size(3,4) mset_eq_length One_nat_def Suc_1 add_0 plus_1_eq_Suc add.commute)
  with s r loki_push_accepted [OF s r, where validator = "''v1''" and p = ?p] show ?thesis
    by (auto split: list.splits)
qed

lemma foldl_delete:
  "map_of (foldl (\<lambda>m k. AList.delete k m) obj keys) k = (if k \<in> set keys then None else map_of obj k)"
  by (induction keys arbitrary: obj) (auto simp: delete_conv')

end
