(* ===== verification/Forwarder.thy ===== *)
theory Forwarder
  imports Loki Http
begin

text \<open>
  The watchtower's forwarder (\<open>internal/watchtower/forwarder/forwarder.go\<close>): a payload of
  each kind becomes at most one POST to VictoriaMetrics or Loki.

  Arguments of the model: the HTTP client (one exchange, \<open>client\<close>), the zstd and gzip
  decoders (\<open>None\<close> when the reader cannot be built, else the bytes it yields and whether it
  then fails) and the protobuf codec with the opaque parts of an OTLP request. A result
  records the request sent, so that a theorem can speak about what leaves the watchtower.
\<close>

section \<open>Posting\<close>

datatype post_outcome = BuildRequestFailed | DoFailed | Responded int string

type_synonym http_client = "string \<Rightarrow> string \<Rightarrow> string \<Rightarrow> post_outcome"

datatype fwd_error =
    BuildRequest
  | PostFailed string
  | PostStatus string int string
  | UnmarshalRpc
  | UnmarshalMetrics
  | DecompressLogs
  | UnmarshalLogs
  | GzipReader
  | GzipDecompress
  | UnmarshalOtlp
  | MarshalOtlp

record post_request =
  po_url :: string
  po_body :: string
  po_content_type :: string

record fwd_result =
  fr_error :: "fwd_error option"
  fr_posted :: "post_request option"
  fr_below_min :: bool \<comment> \<open>\<open>onLogsBelowMinLevel\<close> was due\<close>

record forwarder =
  f_vm_url :: string
  f_loki_url :: string
  f_on_below_min :: bool \<comment> \<open>whether \<open>onLogsBelowMinLevel\<close> is set\<close>

definition new_forwarder :: "string \<Rightarrow> string \<Rightarrow> bool \<Rightarrow> forwarder" where
  "new_forwarder vm loki cb = \<lparr>f_vm_url = vm, f_loki_url = loki, f_on_below_min = cb\<rparr>"

definition fwd_fail :: "fwd_error \<Rightarrow> fwd_result" where
  "fwd_fail e = \<lparr>fr_error = Some e, fr_posted = None, fr_below_min = False\<rparr>"

definition fwd_noop :: fwd_result where
  "fwd_noop = \<lparr>fr_error = None, fr_posted = None, fr_below_min = False\<rparr>"

definition post_error :: "string \<Rightarrow> post_outcome \<Rightarrow> fwd_error option" where
  "post_error url out =
     (case out of
        BuildRequestFailed \<Rightarrow> Some BuildRequest
      | DoFailed \<Rightarrow> Some (PostFailed url)
      | Responded status body \<Rightarrow>
          if status < 200 \<or> 300 \<le> status
          then Some (PostStatus url status (trim_space (take 256 body)))
          else None)"

text \<open>\<open>fr_posted\<close> is the request the code tries to send, also when the exchange then fails
  (\<open>fr_error\<close> says so).\<close>

definition post :: "http_client \<Rightarrow> string \<Rightarrow> string \<Rightarrow> string \<Rightarrow> fwd_result" where
  "post client url body content_type =
     \<lparr>fr_error = post_error url (client url body content_type),
      fr_posted = Some \<lparr>po_url = url, po_body = body, po_content_type = content_type\<rparr>,
      fr_below_min = False\<rparr>"

definition post_vm_lines :: "http_client \<Rightarrow> forwarder \<Rightarrow> vm_line list \<Rightarrow> fwd_result" where
  "post_vm_lines client f ls =
     (if ls = [] then fwd_noop
      else post client (f_vm_url f @ ''/api/v1/import'') (encode_vm_lines ls) ''application/json'')"

section \<open>RPC and resource payloads\<close>

definition forward_rpc :: "http_client \<Rightarrow> forwarder \<Rightarrow> string \<Rightarrow> string \<Rightarrow> fwd_result" where
  "forward_rpc client f validator body =
     (case unmarshal dec_payload zero_payload body of
        None \<Rightarrow> fwd_fail UnmarshalRpc
      | Some p \<Rightarrow> post_vm_lines client f (extract_rpc validator p))"

definition forward_metrics :: "http_client \<Rightarrow> forwarder \<Rightarrow> string \<Rightarrow> string \<Rightarrow> fwd_result" where
  "forward_metrics client f validator body =
     (case unmarshal dec_payload zero_payload body of
        None \<Rightarrow> fwd_fail UnmarshalMetrics
      | Some p \<Rightarrow> post_vm_lines client f (extract_metrics validator p))"

section \<open>Logs\<close>

definition max_logs_decompressed_bytes :: nat where
  "max_logs_decompressed_bytes = 524288000"

type_synonym decoder_stream = "string \<Rightarrow> (string \<times> bool) option"

definition zstd_decompress :: "decoder_stream \<Rightarrow> string \<Rightarrow> string option" where
  "zstd_decompress zstd data =
     (case zstd data of
        None \<Rightarrow> None
      | Some (bytes, fails) \<Rightarrow>
          if max_logs_decompressed_bytes < length bytes then None
          else if fails then None else Some bytes)"

definition forward_logs ::
  "http_client \<Rightarrow> decoder_stream \<Rightarrow> (log_entry list \<Rightarrow> log_entry list) \<Rightarrow> gtime \<Rightarrow> forwarder \<Rightarrow>
   string \<Rightarrow> string \<Rightarrow> string \<Rightarrow> fwd_result" where
  "forward_logs client zstd sort_entries now f validator body min_level =
     (case zstd_decompress zstd body of
        None \<Rightarrow> fwd_fail DecompressLogs
      | Some decompressed \<Rightarrow>
          (case unmarshal dec_log_payload \<lparr>lp_level = [], lp_lines = []\<rparr> decompressed of
             None \<Rightarrow> fwd_fail UnmarshalLogs
           | Some p \<Rightarrow>
               if min_level \<noteq> [] \<and> level_rank (lp_level p) < level_rank min_level
               then fwd_noop\<lparr>fr_below_min := f_on_below_min f\<rparr>
               else post client (f_loki_url f @ ''/loki/api/v1/push'')
                      (encode_loki_push (to_loki_push sort_entries now validator p)) ''application/json''))"

section \<open>OTLP\<close>

datatype 'v any_value = StringValue string | OtherValue 'v

record ('v, 'x) otlp_resource =
  rs_attributes :: "(string \<times> 'v any_value) list"
  rs_rest :: 'x

record ('v, 'x, 'm) resource_metrics =
  rm_resource :: "('v, 'x) otlp_resource option"
  rm_rest :: 'm

record ('v, 'x, 'm, 'q) otlp_request =
  oq_resource_metrics :: "('v, 'x, 'm) resource_metrics list"
  oq_rest :: 'q

definition inject_validator ::
  "'x \<Rightarrow> string \<Rightarrow> ('v, 'x, 'm) resource_metrics \<Rightarrow> ('v, 'x, 'm) resource_metrics" where
  "inject_validator no_rest validator rm =
     (let r = (case rm_resource rm of
                 None \<Rightarrow> \<lparr>rs_attributes = [], rs_rest = no_rest\<rparr> | Some r \<Rightarrow> r)
      in rm\<lparr>rm_resource :=
              Some (r\<lparr>rs_attributes := rs_attributes r @ [(''validator'', StringValue validator)]\<rparr>)\<rparr>)"

definition gunzip :: "decoder_stream \<Rightarrow> string \<Rightarrow> fwd_error + string" where
  "gunzip gzip body =
     (if 2 \<le> length body \<and> body ! 0 = CHR 0x1F \<and> body ! 1 = CHR 0x8B
      then (case gzip body of
              None \<Rightarrow> Inl GzipReader
            | Some (bytes, fails) \<Rightarrow> if fails then Inl GzipDecompress else Inr bytes)
      else Inr body)"

definition forward_otlp ::
  "http_client \<Rightarrow> decoder_stream \<Rightarrow> (string \<Rightarrow> ('v, 'x, 'm, 'q) otlp_request option) \<Rightarrow>
   (('v, 'x, 'm, 'q) otlp_request \<Rightarrow> string option) \<Rightarrow> 'x \<Rightarrow> forwarder \<Rightarrow>
   string \<Rightarrow> string \<Rightarrow> fwd_result" where
  "forward_otlp client gzip proto_unmarshal proto_marshal no_rest f validator body =
     (case gunzip gzip body of
        Inl e \<Rightarrow> fwd_fail e
      | Inr plain \<Rightarrow>
          (case proto_unmarshal plain of
             None \<Rightarrow> fwd_fail UnmarshalOtlp
           | Some req \<Rightarrow>
               (let req' = req\<lparr>oq_resource_metrics :=
                       map (inject_validator no_rest validator) (oq_resource_metrics req)\<rparr>
                in case proto_marshal req' of
                     None \<Rightarrow> fwd_fail MarshalOtlp
                   | Some out \<Rightarrow>
                       post client (f_vm_url f @ ''/opentelemetry/v1/metrics'') out
                         ''application/x-protobuf'')))"

section \<open>Facts\<close>

lemma post_sel [simp]:
  "fr_posted (post c u b t) = Some \<lparr>po_url = u, po_body = b, po_content_type = t\<rparr>"
  "fr_error (post c u b t) = post_error u (c u b t)"
  "\<not> fr_below_min (post c u b t)"
  by (simp_all add: post_def)

lemma fwd_fail_sel [simp]:
  "fr_posted (fwd_fail e) = None" "fr_error (fwd_fail e) = Some e" "\<not> fr_below_min (fwd_fail e)"
  by (simp_all add: fwd_fail_def)

lemma fwd_noop_sel [simp]:
  "fr_posted fwd_noop = None" "fr_error fwd_noop = None" "\<not> fr_below_min fwd_noop"
  by (simp_all add: fwd_noop_def)

end
