(* ===== verification/Traffic_Counter.thy ===== *)
theory Traffic_Counter
  imports Prelude
begin

text \<open>
  The contract shared by the watchtower's and the sentinel's traffic statistics: a family of
  64-bit counters with a running total and a since-last-snapshot part. An event adds its
  contribution to both; taking a snapshot reports both and resets only the second. The
  client facts: totals are the wrapped sums of everything recorded, and the snapshots taken
  during a run together with what is still pending account for every unit exactly once.
\<close>

datatype 'e counter_event = Event 'e | TakeSnapshot

locale traffic_counter =
  fixes ok :: "'s \<Rightarrow> bool"
    and total :: "'s \<Rightarrow> 'k \<Rightarrow> int"
    and recent :: "'s \<Rightarrow> 'k \<Rightarrow> int"
    and contribution :: "'e \<Rightarrow> 'k \<Rightarrow> int"
    and apply_event :: "'e \<Rightarrow> 's \<Rightarrow> 's"
    and snapshot :: "'s \<Rightarrow> 'snap \<times> 's"
    and snap_total :: "'snap \<Rightarrow> 'k \<Rightarrow> int"
    and snap_recent :: "'snap \<Rightarrow> 'k \<Rightarrow> int"
  assumes ok_event: "ok s \<Longrightarrow> ok (apply_event e s)"
    and ok_snapshot: "ok s \<Longrightarrow> ok (snd (snapshot s))"
    and total_event: "ok s \<Longrightarrow> total (apply_event e s) k = wrap64 (total s k + contribution e k)"
    and recent_event: "ok s \<Longrightarrow> recent (apply_event e s) k = wrap64 (recent s k + contribution e k)"
    and snapshot_total: "ok s \<Longrightarrow> snap_total (fst (snapshot s)) k = total s k"
    and snapshot_recent: "ok s \<Longrightarrow> snap_recent (fst (snapshot s)) k = recent s k"
    and total_kept: "ok s \<Longrightarrow> total (snd (snapshot s)) k = total s k"
    and recent_reset: "ok s \<Longrightarrow> recent (snd (snapshot s)) k = 0"
    and total_range: "ok s \<Longrightarrow> int64_range (total s k)"
    and recent_range: "ok s \<Longrightarrow> int64_range (recent s k)"
begin

fun counter_run :: "'e counter_event list \<Rightarrow> 's \<Rightarrow> 'snap list \<times> 's" where
  "counter_run [] s = ([], s)"
| "counter_run (Event e # xs) s = counter_run xs (apply_event e s)"
| "counter_run (TakeSnapshot # xs) s =
     (fst (snapshot s) # fst (counter_run xs (snd (snapshot s))),
      snd (counter_run xs (snd (snapshot s))))"

fun recorded :: "'k \<Rightarrow> 'e counter_event list \<Rightarrow> int" where
  "recorded k [] = 0"
| "recorded k (Event e # xs) = contribution e k + recorded k xs"
| "recorded k (TakeSnapshot # xs) = recorded k xs"

lemma ok_run: "ok s \<Longrightarrow> ok (snd (counter_run xs s))"
  by (induction xs s rule: counter_run.induct) (auto simp: ok_event ok_snapshot)

lemma total_run:
  "ok s \<Longrightarrow> total (snd (counter_run xs s)) k = wrap64 (total s k + recorded k xs)"
  by (induction xs s rule: counter_run.induct)
     (auto simp: ok_event ok_snapshot total_event total_kept total_range add.assoc)

lemma conserved:
  "ok s \<Longrightarrow>
   wrap64 (sum_list (map (\<lambda>p. snap_recent p k) (fst (counter_run xs s))) +
           recent (snd (counter_run xs s)) k) = wrap64 (recent s k + recorded k xs)"
proof (induction xs s rule: counter_run.induct)
  case (3 xs s)
  let ?rest = "sum_list (map (\<lambda>p. snap_recent p k) (fst (counter_run xs (snd (snapshot s))))) +
           recent (snd (counter_run xs (snd (snapshot s)))) k"
  have "wrap64 ?rest = wrap64 (recorded k xs)"
    using 3 by (simp add: ok_snapshot recent_reset)
  then have "wrap64 (recent s k + ?rest) = wrap64 (recent s k + recorded k xs)"
    by (metis wrap64_add_right)
  with 3 show ?case by (simp add: snapshot_recent add.assoc)
qed (auto simp: ok_event recent_event add.assoc)

end

end
