(* ===== verification/Wt_Stats.thy ===== *)
theory Wt_Stats
  imports Traffic_Counter
begin

text \<open>
  The watchtower's per-validator, per-type byte counts with hourly snapshots
  (\<open>internal/watchtower/stats/stats.go\<close>). The nested Go map is a map of maps (a missing
  inner map is the code's \<open>nil\<close>); \<open>Snapshot\<close> ranges over it writing independent entries,
  so its result is given entry by entry.
\<close>

record type_snapshot =
  last_hour_bytes :: int
  total_bytes :: int

record stats_entry =
  e_last_hour :: int
  e_total :: int

record wt_stats =
  st_data :: "string \<rightharpoonup> (string \<rightharpoonup> stats_entry)"
  start_at :: gtime

definition new_stats :: "gtime \<Rightarrow> wt_stats" where
  "new_stats now = \<lparr>st_data = Map.empty, start_at = now\<rparr>"

definition record_bytes :: "string \<Rightarrow> string \<Rightarrow> int \<Rightarrow> wt_stats \<Rightarrow> wt_stats" where
  "record_bytes validator collector_type bytes s =
     (let types = (case st_data s validator of None \<Rightarrow> Map.empty | Some m \<Rightarrow> m);
          e = (case types collector_type of None \<Rightarrow> \<lparr>e_last_hour = 0, e_total = 0\<rparr> | Some e \<Rightarrow> e);
          e' = e\<lparr>e_last_hour := wrap64 (e_last_hour e + bytes), e_total := wrap64 (e_total e + bytes)\<rparr>
      in s\<lparr>st_data := (st_data s)(validator \<mapsto> types(collector_type \<mapsto> e'))\<rparr>)"

definition stats_snapshot ::
  "gtime \<Rightarrow> wt_stats \<Rightarrow> ((string \<rightharpoonup> (string \<rightharpoonup> type_snapshot)) \<times> duration) \<times> wt_stats" where
  "stats_snapshot now s =
     (((\<lambda>v. map_option (\<lambda>types t. map_option
            (\<lambda>e. \<lparr>last_hour_bytes = e_last_hour e, total_bytes = e_total e\<rparr>) (types t)) (st_data s v)),
       time_sub now (start_at s)),
      s\<lparr>st_data := (\<lambda>v. map_option (\<lambda>types t. map_option (\<lambda>e. e\<lparr>e_last_hour := 0\<rparr>) (types t))
                       (st_data s v))\<rparr>)"

section \<open>The counters\<close>

definition entry_at :: "wt_stats \<Rightarrow> string \<times> string \<Rightarrow> stats_entry" where
  "entry_at s k =
     (case st_data s (fst k) of
        None \<Rightarrow> \<lparr>e_last_hour = 0, e_total = 0\<rparr>
      | Some types \<Rightarrow> (case types (snd k) of None \<Rightarrow> \<lparr>e_last_hour = 0, e_total = 0\<rparr> | Some e \<Rightarrow> e))"

definition snap_at ::
  "(string \<rightharpoonup> (string \<rightharpoonup> type_snapshot)) \<times> duration \<Rightarrow> string \<times> string \<Rightarrow> type_snapshot" where
  "snap_at p k =
     (case fst p (fst k) of
        None \<Rightarrow> \<lparr>last_hour_bytes = 0, total_bytes = 0\<rparr>
      | Some types \<Rightarrow>
          (case types (snd k) of None \<Rightarrow> \<lparr>last_hour_bytes = 0, total_bytes = 0\<rparr> | Some e \<Rightarrow> e))"

type_synonym received = "string \<times> string \<times> int"

definition record_received :: "received \<Rightarrow> wt_stats \<Rightarrow> wt_stats" where
  "record_received r s = record_bytes (fst r) (fst (snd r)) (snd (snd r)) s"

definition received_amount :: "received \<Rightarrow> string \<times> string \<Rightarrow> int" where
  "received_amount r k = (if (fst r, fst (snd r)) = k then snd (snd r) else 0)"

definition stats_ok :: "wt_stats \<Rightarrow> bool" where
  "stats_ok s \<longleftrightarrow> (\<forall>k. int64_range (e_total (entry_at s k)) \<and> int64_range (e_last_hour (entry_at s k)))"

lemma entry_at_record:
  "entry_at (record_bytes v t n s) k =
     (if k = (v, t)
      then (entry_at s k)\<lparr>e_last_hour := wrap64 (e_last_hour (entry_at s k) + n),
                          e_total := wrap64 (e_total (entry_at s k) + n)\<rparr>
      else entry_at s k)"
  by (cases k) (auto simp: record_bytes_def entry_at_def Let_def split: option.splits)

lemma entry_at_snapshot:
  "entry_at (snd (stats_snapshot now s)) k = (entry_at s k)\<lparr>e_last_hour := 0\<rparr>"
  by (cases k) (auto simp: stats_snapshot_def entry_at_def split: option.splits)

lemma snap_at_snapshot:
  "snap_at (fst (stats_snapshot now s)) k =
     \<lparr>last_hour_bytes = e_last_hour (entry_at s k), total_bytes = e_total (entry_at s k)\<rparr>"
  by (cases k) (auto simp: stats_snapshot_def entry_at_def snap_at_def split: option.splits)

lemmas stats_entries = entry_at_record entry_at_snapshot snap_at_snapshot

lemma stats_ok_new [simp]: "stats_ok (new_stats now)"
  by (simp add: stats_ok_def new_stats_def entry_at_def)

interpretation wts: traffic_counter stats_ok "\<lambda>s k. e_total (entry_at s k)"
    "\<lambda>s k. e_last_hour (entry_at s k)" received_amount record_received "stats_snapshot now"
    "\<lambda>p k. total_bytes (snap_at p k)" "\<lambda>p k. last_hour_bytes (snap_at p k)" for now
  by unfold_locales
     (auto simp: stats_ok_def record_received_def received_amount_def stats_entries wrap64_range)

text \<open>A run of \<open>Record\<close> calls and hourly snapshots, written out.\<close>

fun stats_run ::
  "gtime \<Rightarrow> received counter_event list \<Rightarrow> wt_stats \<Rightarrow>
   ((string \<rightharpoonup> (string \<rightharpoonup> type_snapshot)) \<times> duration) list \<times> wt_stats" where
  "stats_run now [] s = ([], s)"
| "stats_run now (Event r # xs) s = stats_run now xs (record_received r s)"
| "stats_run now (TakeSnapshot # xs) s =
     (fst (stats_snapshot now s) # fst (stats_run now xs (snd (stats_snapshot now s))),
      snd (stats_run now xs (snd (stats_snapshot now s))))"

fun bytes_recorded :: "string \<times> string \<Rightarrow> received counter_event list \<Rightarrow> int" where
  "bytes_recorded k [] = 0"
| "bytes_recorded k (Event r # xs) = received_amount r k + bytes_recorded k xs"
| "bytes_recorded k (TakeSnapshot # xs) = bytes_recorded k xs"

lemma stats_run_eq: "stats_run now xs s = wts.counter_run now xs s"
  by (induction now xs s rule: stats_run.induct) auto

lemma bytes_recorded_eq: "bytes_recorded k xs = wts.recorded k xs"
  by (induction k xs rule: bytes_recorded.induct) auto

text \<open>In any run of records and hourly snapshots, per validator and type, the hourly figures
  reported so far plus the bytes of the current hour add up to every byte recorded, and the
  total is that sum too (all modulo the 64-bit counter): no byte is lost or counted twice
  when the hourly counters are reset.\<close>

lemma hourly_bytes_conserved:
  "wrap64 (sum_list (map (\<lambda>p. last_hour_bytes (snap_at p k)) (fst (stats_run now xs (new_stats t)))) +
           e_last_hour (entry_at (snd (stats_run now xs (new_stats t))) k)) =
     wrap64 (bytes_recorded k xs) \<and>
   e_total (entry_at (snd (stats_run now xs (new_stats t))) k) = wrap64 (bytes_recorded k xs)"
proof -
  have "entry_at (new_stats t) k = \<lparr>e_last_hour = 0, e_total = 0\<rparr>"
    by (simp add: entry_at_def new_stats_def)
  then show ?thesis
    using wts.conserved [where now = now and s = "new_stats t" and k = k and xs = xs]
      wts.total_run [where now = now and s = "new_stats t" and k = k and xs = xs]
    by (simp add: stats_run_eq bytes_recorded_eq)
qed

end
