(* ===== verification/Go_Duration.thy ===== *)
theory Go_Duration
  imports Float64
begin

text \<open>
  \<open>time.ParseDuration\<close> and \<open>Duration.Seconds\<close>, as the configuration and retention
  parsers use them. Values are accumulated in a 64-bit unsigned integer, as in the library.
\<close>

section \<open>ParseDuration\<close>

text \<open>\<open>leadingInt\<close>: \<open>None\<close> on overflow.\<close>

fun leading_int :: "string \<Rightarrow> int \<Rightarrow> (int \<times> string) option" where
  "leading_int [] x = Some (x, [])"
| "leading_int (c # s) x =
     (if \<not> is_digit c then Some (x, c # s)
      else if 2 ^ 63 div 10 < x then None
      else if 2 ^ 63 < x * 10 + digit_val c then None
      else leading_int s (x * 10 + digit_val c))"

text \<open>\<open>leadingFraction\<close>: the value, the number of digits counted, the rest.\<close>

fun leading_fraction :: "string \<Rightarrow> int \<Rightarrow> nat \<Rightarrow> bool \<Rightarrow> int \<times> nat \<times> string" where
  "leading_fraction [] x k over = (x, k, [])"
| "leading_fraction (c # s) x k over =
     (if \<not> is_digit c then (x, k, c # s)
      else if over \<or> (2 ^ 63 - 1) div 10 < x \<or> 2 ^ 63 < x * 10 + digit_val c
      then leading_fraction s x k True
      else leading_fraction s (x * 10 + digit_val c) (Suc k) False)"

definition unit_map :: "string \<Rightarrow> int option" where
  "unit_map u =
     (if u = ''ns'' then Some 1
      else if u = ''us'' \<or> u = [CHR 0xC2, CHR 0xB5, CHR ''s''] \<or> u = [CHR 0xCE, CHR 0xBC, CHR ''s'']
      then Some (10 ^ 3)
      else if u = ''ms'' then Some (10 ^ 6)
      else if u = ''s'' then Some second
      else if u = ''m'' then Some minute
      else if u = ''h'' then Some hour
      else None)"

definition unit_char :: "char \<Rightarrow> bool" where
  "unit_char c \<longleftrightarrow> c \<noteq> CHR ''.'' \<and> \<not> is_digit c"

definition opt_fraction :: "string \<Rightarrow> int \<times> nat \<times> string" where
  "opt_fraction s =
     (if take 1 s = ''.'' then leading_fraction (drop 1 s) 0 0 False else (0, 0, s))"

text \<open>One \<open>number unit\<close> part: its nanoseconds and the rest.\<close>

definition duration_part :: "string \<Rightarrow> (int \<times> string) option" where
  "duration_part s =
     (if s = [] \<or> \<not> (hd s = CHR ''.'' \<or> is_digit (hd s)) then None
      else
        (case leading_int s 0 of
           None \<Rightarrow> None
         | Some (v, s1) \<Rightarrow>
             (let (f, k, s2) = opt_fraction s1;
                  post = (take 1 s1 = ''.'' \<and> length s2 < length s1 - 1);
                  u = takeWhile unit_char s2
              in if length s1 = length s \<and> \<not> post then None
                 else if u = [] then None
                 else
                   (case unit_map u of
                      None \<Rightarrow> None
                    | Some un \<Rightarrow>
                        if 2 ^ 63 div un < v then None
                        else
                          (let w = v * un +
                                 (if 0 < f then \<lfloor>f64_val (f64_of_int f * f64_val (of_int un / 10 ^ k))\<rfloor> else 0)
                           in if 0 < f \<and> 2 ^ 63 < w then None
                              else Some (w, dropWhile unit_char s2))))))"

fun duration_parts :: "nat \<Rightarrow> string \<Rightarrow> int \<Rightarrow> int option" where
  "duration_parts 0 s d = (if s = [] then Some d else None)"
| "duration_parts (Suc n) s d =
     (if s = [] then Some d
      else
        (case duration_part s of
           None \<Rightarrow> None
         | Some (v, r) \<Rightarrow>
             (let d' = (d + v) mod 2 ^ 64 in if 2 ^ 63 < d' then None else duration_parts n r d')))"

text \<open>Every part consumes at least one byte, so the length of the input bounds the loop.\<close>

definition parse_duration :: "string \<Rightarrow> duration option" where
  "parse_duration str =
     (let neg = (take 1 str = ''-'');
          s = (if take 1 str = ''-'' \<or> take 1 str = ''+'' then drop 1 str else str)
      in if s = ''0'' then Some 0
         else if s = [] then None
         else
           (case duration_parts (length s) s 0 of
              None \<Rightarrow> None
            | Some d \<Rightarrow>
                if neg then Some (wrap64 (- d)) else if 2 ^ 63 - 1 < d then None else Some d))"

section \<open>Seconds\<close>

definition trunc_div :: "int \<Rightarrow> int \<Rightarrow> int" where
  "trunc_div a b = (if 0 \<le> a then a div b else - ((- a) div b))"

definition duration_seconds :: "duration \<Rightarrow> float64" where
  "duration_seconds d =
     (let sec = trunc_div d second; nsec = d - sec * second
      in f64_val (f64_of_int sec + f64_val (f64_of_int nsec / 10 ^ 9)))"

section \<open>The loop bound is enough\<close>

lemma leading_int_length: "leading_int s x = Some (v, r) \<Longrightarrow> length r \<le> length s"
  by (induction s x arbitrary: v r rule: leading_int.induct) (auto split: if_splits)

lemma leading_fraction_length: "length (snd (snd (leading_fraction s x k over))) \<le> length s"
  by (induction s x k over rule: leading_fraction.induct) (auto split: if_splits)

lemma dropWhile_shorter: "takeWhile P s \<noteq> [] \<Longrightarrow> length (dropWhile P s) < length s"
  by (cases s) (auto intro: le_imp_less_Suc length_dropWhile_le split: if_splits)

lemma duration_part_shorter:
  assumes "duration_part s = Some (v, r)" shows "length r < length s"
proof -
  obtain w s1 where i: "leading_int s 0 = Some (w, s1)"
    using assms by (auto simp: duration_part_def split: if_splits option.splits)
  obtain f k s2 where f: "opt_fraction s1 = (f, k, s2)" by (metis prod_cases3)
  have 1: "length s1 \<le> length s" using leading_int_length [OF i] .
  have 2: "length s2 \<le> length s1"
    using f leading_fraction_length [of "drop 1 s1" 0 0 False]
    by (auto simp: opt_fraction_def split: if_splits)
  have "r = dropWhile unit_char s2 \<and> takeWhile unit_char s2 \<noteq> []"
    using assms by (auto simp: duration_part_def i f Let_def split: if_splits option.splits)
  with dropWhile_shorter [of unit_char s2] 1 2 show ?thesis by auto
qed

lemma duration_parts_fuel:
  "length s \<le> n \<Longrightarrow> length s \<le> m \<Longrightarrow> duration_parts n s d = duration_parts m s d"
proof (induction n arbitrary: m s d)
  case 0
  then show ?case by (cases m) auto
next
  case (Suc n)
  show ?case
  proof (cases m)
    case 0
    with Suc.prems show ?thesis by simp
  next
    case (Suc m')
    show ?thesis
    proof (cases "duration_part s")
      case None
      then show ?thesis by (simp add: Suc)
    next
      case (Some vr)
      obtain v r where vr: "vr = (v, r)" by (cases vr)
      have "length r < length s" using duration_part_shorter Some vr by simp
      with Suc.IH [of r m'] Suc.prems \<open>m = Suc m'\<close> show ?thesis
        by (simp add: Suc Some vr Let_def)
    qed
  qed
qed

end
