(* ===== verification/Wt_Metrics.thy ===== *)
theory Wt_Metrics
  imports Go_Duration
begin

text \<open>
  The watchtower's own metrics (\<open>internal/watchtower/metrics/metrics.go\<close>) and the parsing
  of the two retention settings it publishes (\<open>cmd/watchtower/main.go\<close>). Prometheus
  counters (the client_golang package) are integers per label tuple, gauges are doubles;
  a gauge that was never set is absent.
\<close>

section \<open>Metrics\<close>

record wt_metrics =
  m_received_bytes :: "string \<times> string \<Rightarrow> int"
  m_received_payloads :: "string \<times> string \<Rightarrow> int"
  m_rate_limited :: "string \<Rightarrow> int"
  m_logs_below_min_level :: "string \<Rightarrow> int"
  m_auth_failures :: "string \<Rightarrow> int"
  m_permission_denied :: "string \<times> string \<Rightarrow> int"
  m_retention :: "string \<rightharpoonup> float64"
  m_banned_source :: bool \<comment> \<open>whether the banned-IP gauge is registered\<close>

definition new_metrics :: wt_metrics where
  "new_metrics =
     \<lparr>m_received_bytes = \<lambda>_. 0, m_received_payloads = \<lambda>_. 0, m_rate_limited = \<lambda>_. 0,
      m_logs_below_min_level = \<lambda>_. 0, m_auth_failures = \<lambda>_. 0, m_permission_denied = \<lambda>_. 0,
      m_retention = Map.empty, m_banned_source = False\<rparr>"

definition bump :: "'k \<Rightarrow> int \<Rightarrow> ('k \<Rightarrow> int) \<Rightarrow> 'k \<Rightarrow> int" where
  "bump k n c = c(k := c k + n)"

definition record_received_metric :: "string \<Rightarrow> string \<Rightarrow> int \<Rightarrow> wt_metrics \<Rightarrow> wt_metrics" where
  "record_received_metric validator data_type bytes m =
     m\<lparr>m_received_bytes := bump (validator, data_type) bytes (m_received_bytes m),
       m_received_payloads := bump (validator, data_type) 1 (m_received_payloads m)\<rparr>"

definition record_rate_limited :: "string \<Rightarrow> wt_metrics \<Rightarrow> wt_metrics" where
  "record_rate_limited validator m = m\<lparr>m_rate_limited := bump validator 1 (m_rate_limited m)\<rparr>"

definition record_logs_below_min_level :: "string \<Rightarrow> wt_metrics \<Rightarrow> wt_metrics" where
  "record_logs_below_min_level validator m =
     m\<lparr>m_logs_below_min_level := bump validator 1 (m_logs_below_min_level m)\<rparr>"

definition record_auth_failure :: "string \<Rightarrow> wt_metrics \<Rightarrow> wt_metrics" where
  "record_auth_failure reason m = m\<lparr>m_auth_failures := bump reason 1 (m_auth_failures m)\<rparr>"

definition record_permission_denied :: "string \<Rightarrow> string \<Rightarrow> wt_metrics \<Rightarrow> wt_metrics" where
  "record_permission_denied validator permission m =
     m\<lparr>m_permission_denied := bump (validator, permission) 1 (m_permission_denied m)\<rparr>"

text \<open>The gauge is set for a non-positive duration too; only a warning is logged.\<close>

definition set_retention :: "string \<Rightarrow> duration \<Rightarrow> wt_metrics \<Rightarrow> wt_metrics" where
  "set_retention backend d m = m\<lparr>m_retention := (m_retention m)(backend \<mapsto> duration_seconds d)\<rparr>"

definition set_banned_count_source :: "wt_metrics \<Rightarrow> wt_metrics" where
  "set_banned_count_source m = m\<lparr>m_banned_source := True\<rparr>"

lemma bump_apply: "bump k n c k' = (if k' = k then c k + n else c k')"
  by (simp add: bump_def)

section \<open>Retention settings\<close>

definition parse_loki_retention :: "string \<Rightarrow> duration" where
  "parse_loki_retention s =
     (if s = [] then 0 else case parse_duration s of None \<Rightarrow> 0 | Some d \<Rightarrow> d)"

definition vm_unit :: "char \<Rightarrow> duration option" where
  "vm_unit c =
     (if c = CHR ''d'' then Some (24 * hour)
      else if c = CHR ''w'' then Some (7 * 24 * hour)
      else if c = CHR ''y'' then Some (365 * 24 * hour)
      else None)"

definition parse_vm_retention :: "string \<Rightarrow> duration" where
  "parse_vm_retention s =
     (if s = [] then 0
      else
        (case parse_int64 s of
           Some n \<Rightarrow>
             if 0 < n then wrap64 (n * (30 * 24 * hour))
             else (case parse_duration s of Some d \<Rightarrow> d | None \<Rightarrow> 0)
         | None \<Rightarrow>
             (case vm_unit (last s) of
                Some mult \<Rightarrow>
                  (case parse_int64 (butlast s) of
                     None \<Rightarrow> 0
                   | Some n \<Rightarrow> if n \<le> 0 then 0 else wrap64 (n * mult))
              | None \<Rightarrow> (case parse_duration s of Some d \<Rightarrow> d | None \<Rightarrow> 0))))"

lemma format_nat_nonempty: "format_nat n \<noteq> []"
  using format_nat_digits [of n] by simp

lemma parse_int64_format_nat: "int64_range (int n) \<Longrightarrow> parse_int64 (format_nat n) = Some (int n)"
  using parse_int64_format_int [of "int n"] by (simp add: format_int_def)

text \<open>A bare number of months is read as that many 30-day months up to 3558 months (about
  292 years); from 3559 on the product overflows 64-bit nanoseconds and the reported
  retention is wrong: for 3559 it is negative.\<close>

theorem vm_retention_months:
  "(if 0 < n \<and> n \<le> 3558 then parse_vm_retention (format_nat n) = int n * (30 * 24 * hour)
    else True) \<and>
   parse_vm_retention (format_nat 3559) < 0"
proof -
  have r: "parse_vm_retention (format_nat k) = wrap64 (int k * (30 * 24 * hour))"
    if "0 < k" "k \<le> 3559" for k
    using that format_nat_nonempty [of k] parse_int64_format_nat [of k]
    by (simp add: parse_vm_retention_def int64_range_def)
  have "wrap64 (int n * (30 * 24 * hour)) = int n * (30 * 24 * hour)" if "n \<le> 3558"
    using that by (intro wrap64_id) (simp add: int64_range_def duration_units)
  moreover have "wrap64 (int 3559 * (30 * 24 * hour)) < 0"
    by (simp add: wrap64_def duration_units)
  ultimately show ?thesis using r [of n] r [of 3559] by simp
qed

end
