(* ===== verification/Handlers.thy ===== *)
theory Handlers
  imports Auth_Props Ratelimit Forwarder Wt_Stats Wt_Metrics
begin

text \<open>
  The watchtower's HTTP server (\<open>internal/watchtower/handlers/handlers.go\<close>): the two
  \<open>ServeMux\<close> layers, the middleware chain and the handlers, as one function from a request
  and the server's state to a response, the state after it and the request posted to a
  backend, if any. What comes from outside (clock readings, the token bucket, the HTTP
  client, the decompressors, the protobuf codec, the Prometheus page) is the record
  \<open>env\<close>. \<open>rq_path\<close> is the escaped path of the request line. The HTML body that goes with
  a redirect is left out.
\<close>

section \<open>Routing\<close>

definition step_segment :: "string list \<Rightarrow> string \<Rightarrow> string list" where
  "step_segment done seg =
     (if seg = [] \<or> seg = ''.'' then done
      else if seg = ''..'' then (if done = [] then [] else butlast done)
      else done @ [seg])"

text \<open>\<open>cleanPath\<close> of \<open>net/http\<close>: \<open>path.Clean\<close> of the rooted path, with its trailing slash.\<close>

definition clean_path :: "string \<Rightarrow> string" where
  "clean_path p =
     (let segs = foldl step_segment [] (split_on (CHR ''/'') p);
          np = ''/'' @ join_with ''/'' segs
      in if p = [] then ''/''
         else if last p = CHR ''/'' \<and> segs \<noteq> [] then np @ ''/'' else np)"

definition redirect_status :: int where "redirect_status = 301"

definition redirect_response :: "http_request \<Rightarrow> http_response" where
  "redirect_response r =
     \<lparr>rs_status = redirect_status,
      rs_headers = [(''Location'', [clean_path (rq_path r) @
                      (if rq_query r = [] then [] else ''?'' @ rq_query r)])],
      rs_body = []\<rparr>"

definition must_redirect :: "http_request \<Rightarrow> bool" where
  "must_redirect r \<longleftrightarrow> rq_method r \<noteq> ''CONNECT'' \<and> clean_path (rq_path r) \<noteq> rq_path r"

text \<open>A \<open>GET\<close> pattern also matches \<open>HEAD\<close>.\<close>

definition is_get :: "http_request \<Rightarrow> bool" where
  "is_get r \<longleftrightarrow> rq_method r = ''GET'' \<or> rq_method r = ''HEAD''"

datatype route = RouteHealth | RouteScrape | RouteProtected

definition outer_route :: "http_request \<Rightarrow> route" where
  "outer_route r =
     (if is_get r \<and> rq_path r = ''/health'' then RouteHealth
      else if is_get r \<and> rq_path r = ''/metrics'' then RouteScrape
      else RouteProtected)"

datatype inner_route = Payload string | AuthCheck | WrongMethod string | NoRoute

definition inner_route :: "http_request \<Rightarrow> inner_route" where
  "inner_route r =
     (if rq_path r = ''/auth/check'' then (if is_get r then AuthCheck else WrongMethod ''GET, HEAD'')
      else if rq_path r \<in> {''/rpc'', ''/metrics'', ''/logs'', ''/otlp''} then
        (if rq_method r = ''POST'' then Payload (drop 1 (rq_path r)) else WrongMethod ''POST'')
      else NoRoute)"

section \<open>State\<close>

record 'l server =
  sv_auth :: authenticator
  sv_rl :: "'l limiter"
  sv_fwd :: forwarder
  sv_stats :: wt_stats
  sv_metrics :: wt_metrics

record ('l, 'v, 'x, 'm, 'q) env =
  ev_clock :: auth_clock
  ev_new_bucket :: "f64 \<Rightarrow> int \<Rightarrow> 'l"
  ev_allow_bucket :: "gtime \<Rightarrow> 'l \<Rightarrow> bool \<times> 'l"
  ev_limit_now :: gtime
  ev_client :: http_client
  ev_zstd :: decoder_stream
  ev_gzip :: decoder_stream
  ev_sort :: "log_entry list \<Rightarrow> log_entry list"
  ev_now :: gtime
  ev_proto_unmarshal :: "string \<Rightarrow> ('v, 'x, 'm, 'q) otlp_request option"
  ev_proto_marshal :: "('v, 'x, 'm, 'q) otlp_request \<Rightarrow> string option"
  ev_no_rest :: 'x
  ev_scrape :: "wt_metrics \<Rightarrow> int \<Rightarrow> http_response"

record 'l served =
  sr_response :: http_response
  sr_state :: "'l server"
  sr_posted :: "post_request option"

definition ok_response :: http_response where
  "ok_response = \<lparr>rs_status = status_ok, rs_headers = [], rs_body = []\<rparr>"

section \<open>Handlers\<close>

definition max_body_bytes :: nat where
  "max_body_bytes = 52428800"

definition forward_payload ::
  "('l, 'v, 'x, 'm, 'q) env \<Rightarrow> forwarder \<Rightarrow> string \<Rightarrow> string \<Rightarrow> validator_config \<Rightarrow> string \<Rightarrow> fwd_result" where
  "forward_payload e f perm validator vcfg body =
     (if perm = ''rpc'' then forward_rpc (ev_client e) f validator body
      else if perm = ''metrics'' then forward_metrics (ev_client e) f validator body
      else if perm = ''logs'' then
        forward_logs (ev_client e) (ev_zstd e) (ev_sort e) (ev_now e) f validator body (vc_logs_min_level vcfg)
      else
        forward_otlp (ev_client e) (ev_gzip e) (ev_proto_unmarshal e) (ev_proto_marshal e)
          (ev_no_rest e) f validator body)"

definition handle_payload ::
  "('l, 'v, 'x, 'm, 'q) env \<Rightarrow> string \<Rightarrow> string \<Rightarrow> validator_config \<Rightarrow> http_request \<Rightarrow> 'l server \<Rightarrow> 'l served" where
  "handle_payload e perm validator vcfg r s =
     (if perm \<notin> set (vc_permissions vcfg) then
        \<lparr>sr_response = http_error ''forbidden'' status_forbidden,
         sr_state = s\<lparr>sv_metrics := record_permission_denied validator perm (sv_metrics s)\<rparr>,
         sr_posted = None\<rparr>
      else if max_body_bytes < length (rq_body r) then
        \<lparr>sr_response = http_error_with [(''Connection'', [''close''])] ''read body'' status_bad_request,
         sr_state = s, sr_posted = None\<rparr>
      else if rq_body_fails r then
        \<lparr>sr_response = http_error ''read body'' status_bad_request, sr_state = s, sr_posted = None\<rparr>
      else
        (let body = rq_body r;
             res = forward_payload e (sv_fwd s) perm validator vcfg body;
             s1 = (if fr_below_min res
                   then s\<lparr>sv_metrics := record_logs_below_min_level validator (sv_metrics s)\<rparr> else s)
         in case fr_error res of
              Some err \<Rightarrow>
                \<lparr>sr_response = http_error ''forward failed'' status_bad_gateway, sr_state = s1,
                 sr_posted = fr_posted res\<rparr>
            | None \<Rightarrow>
                \<lparr>sr_response = ok_response,
                 sr_state = s1\<lparr>sv_stats := record_bytes validator perm (int (length body)) (sv_stats s1),
                     sv_metrics := record_received_metric validator perm (int (length body)) (sv_metrics s1)\<rparr>,
                 sr_posted = fr_posted res\<rparr>))"

text \<open>An empty permission list is taken for one the configuration leaves out (a nil slice, \<open>null\<close>);
  for an explicit \<open>permissions = []\<close> Go writes \<open>[]\<close>, which decodes to the same empty list.\<close>

definition auth_check_body :: "string \<Rightarrow> validator_config \<Rightarrow> string" where
  "auth_check_body validator vcfg =
     ''{'' @ quote_string ''validator'' @ '':'' @ quote_string validator @ '','' @
     quote_string ''permissions'' @ '':'' @
     (if vc_permissions vcfg = [] then ''null''
      else ''['' @ join_with '','' (map quote_string (vc_permissions vcfg)) @ '']'') @ '','' @
     quote_string ''logs_min_level'' @ '':'' @ quote_string (vc_logs_min_level vcfg) @ ''}'' @ [CHR 0x0A]"

definition handle_auth_check :: "string \<Rightarrow> validator_config \<Rightarrow> 'l server \<Rightarrow> 'l served" where
  "handle_auth_check validator vcfg s =
     \<lparr>sr_response = \<lparr>rs_status = status_ok, rs_headers = [(''Content-Type'', [''application/json''])],
                     rs_body = auth_check_body validator vcfg\<rparr>,
      sr_state = s, sr_posted = None\<rparr>"

definition inner_mux ::
  "('l, 'v, 'x, 'm, 'q) env \<Rightarrow> string \<Rightarrow> validator_config \<Rightarrow> http_request \<Rightarrow> 'l server \<Rightarrow> 'l served" where
  "inner_mux e validator vcfg r s =
     (case inner_route r of
        Payload perm \<Rightarrow> handle_payload e perm validator vcfg r s
      | AuthCheck \<Rightarrow> handle_auth_check validator vcfg s
      | WrongMethod allow_hdr \<Rightarrow>
          \<lparr>sr_response = http_error_with [(''Allow'', [allow_hdr])] ''Method Not Allowed''
              status_method_not_allowed, sr_state = s, sr_posted = None\<rparr>
      | NoRoute \<Rightarrow>
          \<lparr>sr_response = http_error ''404 page not found'' status_not_found, sr_state = s,
           sr_posted = None\<rparr>)"

definition protected_chain ::
  "('l, 'v, 'x, 'm, 'q) env \<Rightarrow> http_request \<Rightarrow> 'l server \<Rightarrow> 'l served" where
  "protected_chain e r s =
     (let ar = auth_middleware (ev_clock e) r (sv_auth s);
          s1 = s\<lparr>sv_auth := ar_state ar,
                 sv_metrics := foldl (\<lambda>m reason. record_auth_failure reason m) (sv_metrics s) (ar_metrics ar)\<rparr>
      in case ar_verdict ar of
           Rejected resp \<Rightarrow> \<lparr>sr_response = resp, sr_state = s1, sr_posted = None\<rparr>
         | Authenticated validator vcfg \<Rightarrow>
             (let lr = limit_middleware (ev_new_bucket e) (ev_allow_bucket e) (ev_limit_now e)
                         (Some (validator, vcfg)) (sv_rl s1);
                  s2 = s1\<lparr>sv_rl := lr_state lr,
                          sv_metrics := foldl (\<lambda>m v. record_rate_limited v m) (sv_metrics s1) (lr_limited lr)\<rparr>
              in case lr_response lr of
                   Some resp \<Rightarrow> \<lparr>sr_response = resp, sr_state = s2, sr_posted = None\<rparr>
                 | None \<Rightarrow> inner_mux e validator vcfg r s2))"

definition serve :: "('l, 'v, 'x, 'm, 'q) env \<Rightarrow> http_request \<Rightarrow> 'l server \<Rightarrow> 'l served" where
  "serve e r s =
     (if must_redirect r then \<lparr>sr_response = redirect_response r, sr_state = s, sr_posted = None\<rparr>
      else
        (case outer_route r of
           RouteHealth \<Rightarrow> \<lparr>sr_response = ok_response, sr_state = s, sr_posted = None\<rparr>
         | RouteScrape \<Rightarrow>
             \<lparr>sr_response = ev_scrape e (sv_metrics s) (banned_count (c_check (ev_clock e)) (sv_auth s)),
              sr_state = s, sr_posted = None\<rparr>
         | RouteProtected \<Rightarrow> protected_chain e r s))"

text \<open>One tick of \<open>RunStatsLogger\<close>: the figures logged, and the hourly counters reset.\<close>

definition stats_tick ::
  "gtime \<Rightarrow> 'l server \<Rightarrow> ((string \<rightharpoonup> (string \<rightharpoonup> type_snapshot)) \<times> duration) \<times> 'l server" where
  "stats_tick now s =
     (let (snap, st) = stats_snapshot now (sv_stats s) in (snap, s\<lparr>sv_stats := st\<rparr>))"

text \<open>The server that \<open>cmd/watchtower\<close> wires up from a configuration.\<close>

definition new_server :: "wt_config \<Rightarrow> string \<Rightarrow> string \<Rightarrow> gtime \<Rightarrow> 'l server" where
  "new_server cfg logs_retention metrics_retention now =
     \<lparr>sv_auth = set_metrics (new_authenticator (validators cfg) (ban_threshold (security cfg))
                  (ban_duration (security cfg))),
      sv_rl = new_limiter (rate_limit_rps (security cfg)) (rate_limit_burst (security cfg)) True,
      sv_fwd = new_forwarder (vm_url cfg) (loki_url cfg) True,
      sv_stats = new_stats now,
      sv_metrics = set_banned_count_source
        (set_retention ''vm'' (parse_vm_retention metrics_retention)
          (set_retention ''loki'' (parse_loki_retention logs_retention) new_metrics))\<rparr>"

text \<open>SIGHUP: a configuration that loads replaces the tokens; one that does not is ignored.\<close>

definition reload_config :: "load_error + wt_config \<Rightarrow> 'l server \<Rightarrow> 'l server" where
  "reload_config res s =
     (case res of
        Inl err \<Rightarrow> s
      | Inr cfg \<Rightarrow> s\<lparr>sv_auth := reload (validators cfg) (sv_auth s)\<rparr>)"

end
