(* ===== verification/Forwarder_Props.thy ===== *)
theory Forwarder_Props
  imports Forwarder
begin

text \<open>
  What leaves the watchtower: samples carry the authenticated validator's label, aggregate
  metrics are complete or absent, the lines do not depend on the order in which Go visits
  the payload map, OTLP requests are tagged, and log payloads below the validator's level or
  above the size cap are not forwarded.
\<close>

section \<open>Attribution\<close>

text \<open>C14: what an RPC or a resource payload makes the watchtower send to VictoriaMetrics: nothing,
  or one import request whose lines each hold one sample, taken at the payload's collection
  time and labelled with the authenticated validator; nothing the sentinel writes in the
  payload can put a sample under another validator's label.\<close>

theorem forwarded_samples_attributed:
  assumes "fr_posted (forward_rpc client f validator body) = Some req \<or>
           fr_posted (forward_metrics client f validator body) = Some req"
  shows "\<exists>p ls. unmarshal dec_payload zero_payload body = Some p \<and>
     po_url req = f_vm_url f @ ''/api/v1/import'' \<and> po_body req = encode_vm_lines ls \<and>
     ls \<noteq> [] \<and> list_all (attributed validator (unix_milli (collected_at p))) ls"
proof -
  have "list_all (attributed validator (unix_milli (collected_at p))) (extract_rpc validator p)"
    "list_all (attributed validator (unix_milli (collected_at p))) (extract_metrics validator p)" for p
    by (simp_all add: list_all_iff attributed_rpc attributed_metrics)
  with assms show ?thesis
    by (fastforce simp: forward_rpc_def forward_metrics_def post_vm_lines_def
        split: option.splits if_splits)
qed


text \<open>A payload with one key, as the beacon sends the sentry's configuration.\<close>

definition sample_rpc_body :: string where
  \<open>sample_rpc_body = ''{"data":{"sentry_config":{"k":"v"}}}''\<close>

lemma sample_lines:
  "map_option (\<lambda>p. (collected_at p, extract_rpc ''v1'' p))
     (unmarshal dec_payload zero_payload sample_rpc_body) =
   Some (time_zero, [\<lparr>vm_metric = [(''validator'', ''v1''), (''key'', ''k''), (''value'', ''v''),
       (''__name__'', ''sentinel_sentry_config'')], vm_values = [1], vm_timestamps = [- 62135596800000]\<rparr>])"
  by code_simp

lemma sample_posted:
  "\<exists>req. fr_posted (forward_rpc client f ''v1'' sample_rpc_body) = Some req"
  using sample_lines by (auto simp: forward_rpc_def post_vm_lines_def)

theorem forwarded_samples_attributed_witness:
  "\<exists>ls. ls \<noteq> [] \<and> list_all (attributed ''v1'' (unix_milli time_zero)) ls \<and>
     map_option po_body (fr_posted (forward_rpc (\<lambda>u b t. Responded 204 []) (new_forwarder ''vm'' ''loki'' True)
       ''v1'' sample_rpc_body)) = Some (encode_vm_lines ls)"
proof -
  let ?c = "\<lambda>u b t. Responded 204 []" and ?f = "new_forwarder ''vm'' ''loki'' True"
  obtain req where req: "fr_posted (forward_rpc ?c ?f ''v1'' sample_rpc_body) = Some req"
    using sample_posted by blast
  from forwarded_samples_attributed [OF disjI1 [OF req]] sample_lines show ?thesis
    unfolding req by auto
qed

section \<open>The order of the payload map\<close>

text \<open>C31: the lines of a payload do not depend, up to their order, on the order in which Go's
  \<open>range\<close> visits its entries.\<close>

theorem extraction_order_irrelevant:
  assumes "mset kvs = mset kws"
  shows "mset (extract_rpc validator \<lparr>collected_at = t, p_data = Some kvs\<rparr>) =
           mset (extract_rpc validator \<lparr>collected_at = t, p_data = Some kws\<rparr>) \<and>
         mset (extract_metrics validator \<lparr>collected_at = t, p_data = Some kvs\<rparr>) =
           mset (extract_metrics validator \<lparr>collected_at = t, p_data = Some kws\<rparr>)"
  using rx.fold_permuted [OF assms] mx.fold_permuted [OF assms]
  by (simp_all add: extract_rpc_def extract_metrics_def gomap_items_def)

theorem extraction_order_irrelevant_witness:
  "mset (extract_rpc ''v1'' \<lparr>collected_at = 0, p_data = Some [(''block'', ''{}''), (''net_info'', ''1'')]\<rparr>) =
   mset (extract_rpc ''v1'' \<lparr>collected_at = 0, p_data = Some [(''net_info'', ''1''), (''block'', ''{}'')]\<rparr>)"
  by (rule extraction_order_irrelevant [THEN conjunct1]) simp

section \<open>The validator set\<close>

definition power_of :: "rpc_validator \<Rightarrow> int" where
  "power_of v = (case parse_int64 (rv_voting_power v) of None \<Rightarrow> 0 | Some p \<Rightarrow> p)"

definition has_power :: "rpc_validator \<Rightarrow> bool" where
  "has_power v \<longleftrightarrow> parse_int64 (rv_voting_power v) \<noteq> None"

lemma collect_members_eq:
  "collect_members vs ms t =
     (if list_all has_power vs
      then Some (ms @ map (\<lambda>v. member_of v (power_of v)) vs,
                 if vs = [] then t else wrap64 (t + sum_list (map power_of vs)))
      else None)"
proof (induction vs arbitrary: ms t)
  case (Cons v vs)
  show ?case
  proof (cases "parse_int64 (rv_voting_power v)")
    case (Some p)
    have "wrap64 (wrap64 (t + p) + x) = wrap64 (t + (p + x))" for x
      by (simp add: add.assoc)
    with Some Cons.IH show ?thesis by (simp add: has_power_def power_of_def)
  qed (simp add: has_power_def)
qed simp

text \<open>The validator-set metrics are all or nothing. If every entry's voting power is a 64-bit
  integer, the set size is the number of entries, the total power the sum of all powers
  (as a 64-bit sum) and each addressed member gets its own power; if a single one is not,
  no line is emitted, so a total never disagrees with the set size it is reported with.\<close>

lemma validator_set_all_or_nothing:
  "append_rpc_validators [] validator ts raw =
     (case decode_result dec_rpc_validators [] raw of
        None \<Rightarrow> []
      | Some vs \<Rightarrow>
          if list_all has_power vs then
            [vm_sample ''sentinel_rpc_validator_set_size'' [(''validator'', validator)]
               (f64_of_int (int (length vs))) ts,
             vm_sample ''sentinel_rpc_validator_set_total_power'' [(''validator'', validator)]
               (f64_of_int (wrap64 (sum_list (map power_of vs)))) ts] @
            concat (map (\<lambda>v. member_line validator ts (member_of v (power_of v))) vs)
          else [])"
  by (auto simp: append_rpc_validators_def collect_members_eq Let_def comp_def split: option.split)

section \<open>OTLP\<close>

text \<open>C30: every resource of a forwarded OTLP request carries, as its last attribute, the
  authenticated validator's name, and nothing else changes: the resource metrics are the same
  number in the same order with the same content, each resource keeps the attributes it came
  with and its other fields, and the rest of the request stays. A resource metrics entry without
  a resource gets a fresh one with only the validator's attribute.\<close>

theorem otlp_resources_tagged:
  assumes "fr_posted (forward_otlp client gzip unm mar z f validator body) = Some req"
  shows "\<exists>plain q rms. gunzip gzip body = Inr plain \<and> unm plain = Some q \<and>
     mar (q\<lparr>oq_resource_metrics := rms\<rparr>) = Some (po_body req) \<and>
     po_url req = f_vm_url f @ ''/opentelemetry/v1/metrics'' \<and>
     list_all2 (\<lambda>rm rm'. rm' = rm\<lparr>rm_resource := Some
          (case rm_resource rm of
             None \<Rightarrow> \<lparr>rs_attributes = [(''validator'', StringValue validator)], rs_rest = z\<rparr>
           | Some r \<Rightarrow> \<lparr>rs_attributes = rs_attributes r @ [(''validator'', StringValue validator)],
               rs_rest = rs_rest r\<rparr>)\<rparr>)
       (oq_resource_metrics q) rms"
  using assms
  by (auto simp: forward_otlp_def inject_validator_def list_all2_map2 list.rel_refl Let_def
      split: sum.splits option.splits intro!: list_all2_refl exI)

definition sample_otlp :: "(unit, nat, unit, unit) otlp_request" where
  "sample_otlp = \<lparr>oq_resource_metrics =
     [\<lparr>rm_resource = None, rm_rest = ()\<rparr>,
      \<lparr>rm_resource = Some \<lparr>rs_attributes = [(''job'', StringValue ''node'')], rs_rest = 7\<rparr>, rm_rest = ()\<rparr>], oq_rest = ()\<rparr>"

definition sample_otlp_tagged :: "(unit, nat, unit) resource_metrics list" where
  "sample_otlp_tagged =
     [\<lparr>rm_resource = Some \<lparr>rs_attributes = [(''validator'', StringValue ''v1'')], rs_rest = 0\<rparr>, rm_rest = ()\<rparr>,
      \<lparr>rm_resource = Some \<lparr>rs_attributes = [(''job'', StringValue ''node''), (''validator'', StringValue ''v1'')],
         rs_rest = 7\<rparr>, rm_rest = ()\<rparr>]"

theorem otlp_resources_tagged_witness:
  "\<exists>req. fr_posted (forward_otlp (\<lambda>u b t. DoFailed) (\<lambda>b. None) (\<lambda>s. Some sample_otlp)
       (\<lambda>q. Some (if oq_resource_metrics q = sample_otlp_tagged then ''ok'' else ''bad'')) 0 (new_forwarder ''vm'' ''loki'' True)
       ''v1'' ''x'') = Some req \<and> po_url req = ''vm/opentelemetry/v1/metrics'' \<and> po_body req = ''ok''"
proof -
  define mar :: "(unit, nat, unit, unit) otlp_request \<Rightarrow> string option" where
    "mar = (\<lambda>q. Some (if oq_resource_metrics q = sample_otlp_tagged then ''ok'' else ''bad''))"
  let ?run = "forward_otlp (\<lambda>u b t. DoFailed) (\<lambda>b. None) (\<lambda>s. Some sample_otlp) mar 0
      (new_forwarder ''vm'' ''loki'' True) ''v1'' ''x''"
  obtain req where req: "fr_posted ?run = Some req"
    by (auto simp: forward_otlp_def gunzip_def mar_def Let_def)
  from otlp_resources_tagged [OF req] obtain rms where
    rms: "mar (sample_otlp\<lparr>oq_resource_metrics := rms\<rparr>) = Some (po_body req)"
      "po_url req = ''vm/opentelemetry/v1/metrics''" "rms = sample_otlp_tagged"
    by (auto simp: new_forwarder_def sample_otlp_def sample_otlp_tagged_def list_all2_Cons1)
  with req show ?thesis unfolding mar_def by (intro exI [of _ req]) (simp add: mar_def)
qed

section \<open>Logs\<close>

text \<open>A log payload reaches Loki exactly when it decompresses without error to at most
  500 MiB of valid payload JSON and its level does not rank below the validator's minimum
  (an empty minimum accepts all); what is posted is then the push built from it.\<close>

lemma logs_forwarded_iff:
  "fr_posted (forward_logs client zstd sort_entries now f validator body min_level) = Some req \<longleftrightarrow>
     (\<exists>bytes p.
        zstd body = Some (bytes, False) \<and> length bytes \<le> 500 * 2 ^ 20 \<and>
        unmarshal dec_log_payload \<lparr>lp_level = [], lp_lines = []\<rparr> bytes = Some p \<and>
        (min_level = [] \<or> level_rank min_level \<le> level_rank (lp_level p)) \<and>
        req = \<lparr>po_url = f_loki_url f @ ''/loki/api/v1/push'',
               po_body = encode_loki_push (to_loki_push sort_entries now validator p),
               po_content_type = ''application/json''\<rparr>)"
  by (auto simp: forward_logs_def zstd_decompress_def max_logs_decompressed_bytes_def
      split: option.splits prod.splits if_splits)

end
