(* ===== verification/Handlers_Props.thy ===== *)
theory Handlers_Props
  imports Handlers Forwarder_Props
begin

text \<open>
  What the whole request path guarantees: only authorized traffic reaches a backend, and
  the byte counts are those of the payloads accepted.
\<close>

section \<open>The chain, step by step\<close>

lemma foldl_auth_failures [simp]:
  "m_received_bytes (foldl (\<lambda>m x. record_auth_failure x m) m xs) = m_received_bytes m"
  "m_received_bytes (foldl (\<lambda>m x. record_rate_limited x m) m xs) = m_received_bytes m"
  by (induction xs arbitrary: m) (simp_all add: record_auth_failure_def record_rate_limited_def)

lemma auth_rejected_status:
  "ar_verdict (auth_middleware c r a) = Rejected resp \<Longrightarrow> rs_status resp \<in> {401, 403}"
  by (auto simp: auth_middleware_def Let_def http_status split: if_splits option.splits prod.splits)

lemma limit_response:
  "lr_response (limit_middleware nb ab t (Some (name, v)) l) =
     (if fst (allow nb ab t name l) then None
      else Some (http_error_with [(''Retry-After'', [''1''])] ''rate limit exceeded'' status_too_many_requests))"
  by (simp add: limit_middleware_def split: prod.split)

lemma handle_payload_posted:
  "sr_posted (handle_payload e perm name v r s) = Some req \<Longrightarrow>
   perm \<in> set (vc_permissions v) \<and> length (rq_body r) \<le> max_body_bytes \<and> \<not> rq_body_fails r \<and>
   fr_posted (forward_payload e (sv_fwd s) perm name v (rq_body r)) = Some req"
  by (auto simp: handle_payload_def Let_def split: if_splits option.splits)

lemma handle_payload_accounting:
  "if rs_status (sr_response (handle_payload e perm name v r s)) = 200
   then sv_stats (sr_state (handle_payload e perm name v r s)) =
          record_bytes name perm (int (length (rq_body r))) (sv_stats s) \<and>
        m_received_bytes (sv_metrics (sr_state (handle_payload e perm name v r s))) =
          bump (name, perm) (int (length (rq_body r))) (m_received_bytes (sv_metrics s))
   else sv_stats (sr_state (handle_payload e perm name v r s)) = sv_stats s \<and>
        m_received_bytes (sv_metrics (sr_state (handle_payload e perm name v r s))) =
          m_received_bytes (sv_metrics s)"
  by (simp add: handle_payload_def Let_def http_status ok_response_def record_permission_denied_def
      record_logs_below_min_level_def record_received_metric_def split: option.split)

text \<open>What the chain does with an admitted request, and with any other.\<close>

lemma protected_chain_rejected:
  "ar_verdict (auth_middleware (ev_clock e) r (sv_auth s)) = Rejected resp \<Longrightarrow>
   sr_response (protected_chain e r s) = resp \<and> sr_posted (protected_chain e r s) = None \<and>
   sv_stats (sr_state (protected_chain e r s)) = sv_stats s \<and>
   sv_rl (sr_state (protected_chain e r s)) = sv_rl s \<and>
   m_received_bytes (sv_metrics (sr_state (protected_chain e r s))) = m_received_bytes (sv_metrics s)"
  by (simp add: protected_chain_def Let_def)

lemma protected_chain_limited:
  "ar_verdict (auth_middleware (ev_clock e) r (sv_auth s)) = Authenticated name v \<Longrightarrow>
   \<not> fst (allow (ev_new_bucket e) (ev_allow_bucket e) (ev_limit_now e) name (sv_rl s)) \<Longrightarrow>
   rs_status (sr_response (protected_chain e r s)) = 429 \<and> sr_posted (protected_chain e r s) = None \<and>
   sv_stats (sr_state (protected_chain e r s)) = sv_stats s \<and>
   m_received_bytes (sv_metrics (sr_state (protected_chain e r s))) = m_received_bytes (sv_metrics s)"
  by (simp add: protected_chain_def Let_def limit_response http_status)

lemma protected_chain_admitted:
  assumes "ar_verdict (auth_middleware (ev_clock e) r (sv_auth s)) = Authenticated name v"
    and "fst (allow (ev_new_bucket e) (ev_allow_bucket e) (ev_limit_now e) name (sv_rl s))"
  obtains s2 where "protected_chain e r s = inner_mux e name v r s2" "sv_fwd s2 = sv_fwd s"
    "sv_stats s2 = sv_stats s" "m_received_bytes (sv_metrics s2) = m_received_bytes (sv_metrics s)"
  using assms that by (simp add: protected_chain_def Let_def limit_response)

lemma inner_route_Payload:
  "inner_route r = Payload perm \<longleftrightarrow>
     rq_method r = ''POST'' \<and> perm \<in> {''rpc'', ''metrics'', ''logs'', ''otlp''} \<and> rq_path r = ''/'' @ perm"
  by (auto simp: inner_route_def)

lemma Payload_protected: "inner_route r = Payload perm \<Longrightarrow> outer_route r = RouteProtected"
  by (simp add: inner_route_Payload outer_route_def is_get_def)

section \<open>Only authorized traffic is forwarded\<close>

text \<open>Whenever serving a request makes the watchtower send anything to a backend, the request
  was a POST to a payload endpoint, its IP was not banned, its bearer token belongs to a
  configured validator, that validator's token bucket admitted it, the validator has the
  endpoint's permission, the body was read completely and is at most 50 MiB, and what was
  sent is what the forwarder builds from that body for that validator.\<close>

lemma forwarded_only_if:
  assumes "sr_posted (serve e r s) = Some req"
  shows "\<exists>name v perm.
     rq_method r = ''POST'' \<and> rq_path r = ''/'' @ perm \<and>
     \<not> fst (is_banned (c_since (ev_clock e)) (c_sweep (ev_clock e)) (c_check (ev_clock e))
              (remote_ip r) (sv_auth s)) \<and>
     tokens (sv_auth s) (bearer_token r) = Some \<lparr>te_validator_name = name, te_config = v\<rparr> \<and>
     fst (allow (ev_new_bucket e) (ev_allow_bucket e) (ev_limit_now e) name (sv_rl s)) \<and>
     perm \<in> set (vc_permissions v) \<and> length (rq_body r) \<le> 50 * 2 ^ 20 \<and> \<not> rq_body_fails r \<and>
     fr_posted (forward_payload e (sv_fwd s) perm name v (rq_body r)) = Some req"
proof -
  have chain: "sr_posted (protected_chain e r s) = Some req"
    using assms by (auto simp: serve_def split: if_splits route.splits)
  then obtain name v where
    a: "ar_verdict (auth_middleware (ev_clock e) r (sv_auth s)) = Authenticated name v"
    using protected_chain_rejected [of e r s]
    by (cases "ar_verdict (auth_middleware (ev_clock e) r (sv_auth s))") auto
  have l: "fst (allow (ev_new_bucket e) (ev_allow_bucket e) (ev_limit_now e) name (sv_rl s))"
    using chain protected_chain_limited [OF a] by auto
  obtain s2 where s2: "protected_chain e r s = inner_mux e name v r s2" "sv_fwd s2 = sv_fwd s"
    using protected_chain_admitted [OF a l] by metis
  obtain perm where perm: "inner_route r = Payload perm"
      "sr_posted (handle_payload e perm name v r s2) = Some req"
    using chain by (auto simp: s2 inner_mux_def handle_auth_check_def split: inner_route.splits)
  show ?thesis
    using a l perm(1) handle_payload_posted [OF perm(2)]
    by (auto simp: auth_middleware_authenticated_iff inner_route_Payload s2 max_body_bytes_def
        simp del: append_Cons)
qed

definition demo_env :: "(unit, unit, unit, unit, unit) env" where
  "demo_env =
     \<lparr>ev_clock = demo_clock, ev_new_bucket = \<lambda>_ _. (), ev_allow_bucket = \<lambda>_ _. (True, ()),
      ev_limit_now = 0, ev_client = \<lambda>u b t. Responded 204 [], ev_zstd = \<lambda>b. Some (b, False),
      ev_gzip = \<lambda>b. None, ev_sort = sort_key en_nano, ev_now = 0,
      ev_proto_unmarshal = \<lambda>b. None, ev_proto_marshal = \<lambda>q. None, ev_no_rest = (),
      ev_scrape = \<lambda>m n. ok_response\<rparr>"

definition demo_validator :: validator_config where
  "demo_validator =
     \<lparr>vc_token = ''tok'', vc_permissions = [''rpc'', ''logs''], vc_logs_min_level = ''info''\<rparr>"

definition demo_server :: "unit server" where
  "demo_server = new_server (default_config\<lparr>validators := [(''v1'', demo_validator)]\<rparr>) [] [] 0"

definition demo_post :: http_request where
  "demo_post = (demo_request ''10.0.0.1'' ''tok'')\<lparr>rq_body := sample_rpc_body\<rparr>"

lemma demo_verdict:
  "ar_verdict (auth_middleware demo_clock demo_post (sv_auth demo_server)) = Authenticated ''v1'' demo_validator"
  by (simp add: auth_middleware_authenticated_iff demo_post_def demo_server_def new_server_def
      is_banned_def maybe_sweep_def new_authenticator_def set_metrics_def bearer_token_def
      demo_request_def header_get_def cut_prefix_def has_prefix_def demo_validator_def Let_def)

lemma demo_posted: "\<exists>req. sr_posted (serve demo_env demo_post demo_server) = Some req"
proof -
  have r: "\<not> must_redirect demo_post" "inner_route demo_post = Payload ''rpc''"
    by (simp_all add: must_redirect_def clean_path_def step_segment_def demo_post_def demo_request_def
        inner_route_def)
  have v: "ar_verdict (auth_middleware (ev_clock demo_env) demo_post (sv_auth demo_server)) =
      Authenticated ''v1'' demo_validator"
    using demo_verdict by (simp add: demo_env_def)
  obtain s2 where "protected_chain demo_env demo_post demo_server =
      inner_mux demo_env ''v1'' demo_validator demo_post s2" "sv_fwd s2 = sv_fwd demo_server"
    by (rule protected_chain_admitted [OF v]) (auto simp: demo_env_def allow_def)
  moreover have "length sample_rpc_body \<le> max_body_bytes"
    by (simp add: sample_rpc_body_def max_body_bytes_def)
  moreover obtain req where "fr_posted (forward_rpc (ev_client demo_env) (sv_fwd demo_server) ''v1''
      sample_rpc_body) = Some req"
    using sample_posted by blast
  ultimately show ?thesis
    using r by (auto simp: serve_def Payload_protected inner_mux_def handle_payload_def
        forward_payload_def demo_post_def demo_request_def demo_validator_def Let_def split: option.split)
qed

section \<open>Accounting\<close>

text \<open>A payload's bytes are added to the hourly statistics and to the received-bytes counter,
  under the authenticated validator and the endpoint's type, exactly when the sentinel is
  answered 200; every other request leaves both as they were.\<close>

lemma bytes_counted_iff_accepted:
  "if (\<exists>perm. inner_route r = Payload perm) \<and> rs_status (sr_response (serve e r s)) = 200
   then \<exists>name v perm.
      inner_route r = Payload perm \<and>
      ar_verdict (auth_middleware (ev_clock e) r (sv_auth s)) = Authenticated name v \<and>
      sv_stats (sr_state (serve e r s)) =
        record_bytes name perm (int (length (rq_body r))) (sv_stats s) \<and>
      m_received_bytes (sv_metrics (sr_state (serve e r s))) =
        bump (name, perm) (int (length (rq_body r))) (m_received_bytes (sv_metrics s))
   else sv_stats (sr_state (serve e r s)) = sv_stats s \<and>
      m_received_bytes (sv_metrics (sr_state (serve e r s))) = m_received_bytes (sv_metrics s)"
proof (cases "must_redirect r \<or> outer_route r \<noteq> RouteProtected")
  case True
  then show ?thesis
    using Payload_protected [of r]
    by (auto simp: serve_def redirect_response_def redirect_status_def split: route.splits)
next
  case False
  then have sv: "serve e r s = protected_chain e r s" by (simp add: serve_def)
  show ?thesis
  proof (cases "ar_verdict (auth_middleware (ev_clock e) r (sv_auth s))")
    case (Rejected resp)
    with protected_chain_rejected [OF Rejected] auth_rejected_status [OF Rejected] show ?thesis
      by (auto simp: sv)
  next
    case a: (Authenticated name v)
    show ?thesis
    proof (cases "fst (allow (ev_new_bucket e) (ev_allow_bucket e) (ev_limit_now e) name (sv_rl s))")
      case l: False
      from protected_chain_limited [OF a l] show ?thesis by (simp add: sv)
    next
      case l: True
      obtain s2 where s2: "protected_chain e r s = inner_mux e name v r s2"
        "sv_stats s2 = sv_stats s" "m_received_bytes (sv_metrics s2) = m_received_bytes (sv_metrics s)"
        using protected_chain_admitted [OF a l] by metis
      show ?thesis
      proof (cases "inner_route r")
        case (Payload perm)
        have h: "serve e r s = handle_payload e perm name v r s2"
          by (simp add: sv s2 inner_mux_def Payload)
        show ?thesis
          using handle_payload_accounting [of e perm name v r s2] a
          by (auto simp: h Payload s2 split: if_splits)
      qed (simp_all add: sv s2 inner_mux_def handle_auth_check_def)
    qed
  qed
qed

end
