(* ===== verification/Gpub_Props.thy ===== *)
theory Gpub_Props
  imports Gpub
begin

unbundle bit_operations_syntax

text \<open>
  Every address the encoder produces is a valid bech32 string: its checksum verifies
  (the BIP173 register ends at 1) and its data part regroups to the wrapped key.
  The register's step is linear over exclusive or, and six steps that consume the register's
  own digits clear it; the regrouping loop keeps the pending bits in the low end of the
  accumulator.
\<close>

section \<open>The checksum register\<close>

definition sel :: "bool \<Rightarrow> 32 word \<Rightarrow> 32 word" where
  "sel b g = (if b then g else 0)"

lemma sel_xor: "sel (a = (\<not> b)) g = sel a g XOR sel b g"
  by (simp add: sel_def)

lemma xor_sel: "(if b then c XOR g else c) = c XOR sel b g"
  by (simp add: sel_def)

lemma gens: "bech32_gen ! 0 = 0x3b6a57b2" "bech32_gen ! 1 = 0x26508e6d"
  "bech32_gen ! 2 = 0x1ea119fa" "bech32_gen ! 3 = 0x3d4233dd" "bech32_gen ! 4 = 0x2a1462b3"
  by (simp_all add: bech32_gen_def)

lemma polymod_step_eq:
  "polymod_step c v =
     push_bit 5 (c AND 0x1ffffff) XOR ucast v XOR sel (bit c 25) 0x3b6a57b2 XOR
     sel (bit c 26) 0x26508e6d XOR sel (bit c 27) 0x1ea119fa XOR
     sel (bit c 28) 0x3d4233dd XOR sel (bit c 29) 0x2a1462b3"
  by (simp add: polymod_step_def Let_def upt_rec xor_sel bit_drop_bit_eq and_one_eq mod_2_eq_odd
      bech32_gen_def flip: bit_0) (simp add: ac_simps)

lemma polymod_step_linear:
  "polymod_step (c XOR d) (v XOR w) = polymod_step c v XOR polymod_step d w"
  by (simp add: polymod_step_eq bit_xor_iff sel_xor push_bit_xor
      and.commute [of _ "0x1ffffff"] bit.conj_xor_distrib unsigned_xor_eq)
    (simp add: ac_simps)

lemma take_bit_sel: "take_bit n g = g \<Longrightarrow> take_bit n (sel b g) = sel b g"
  by (simp add: sel_def)

lemma take_bit_polymod_step: "take_bit 30 (polymod_step c v) = polymod_step c v"
proof -
  have "take_bit 30 (push_bit 5 (c AND mask 25)) = push_bit 5 (c AND mask 25)"
    by (rule bit_word_eqI) (auto simp: bit_simps)
  then have "take_bit 30 (push_bit 5 (c AND 0x1ffffff)) = push_bit 5 (c AND 0x1ffffff)"
    by (simp add: mask_eq_exp_minus_1)
  moreover have "take_bit 30 (ucast v :: 32 word) = ucast v"
    by (rule bit_word_eqI) (auto simp: bit_simps dest: bit_imp_le_length)
  ultimately show ?thesis
    by (simp add: polymod_step_eq take_bit_xor take_bit_sel)
qed

lemma polymod_step_small: "take_bit 25 c = c \<Longrightarrow> polymod_step c v = push_bit 5 c XOR ucast v"
proof -
  assume c: "take_bit 25 c = c"
  have "\<not> bit c k" if "25 \<le> k" for k
    using c that by (metis bit_take_bit_iff not_le)
  then have "\<not> bit c 25" "\<not> bit c 26" "\<not> bit c 27" "\<not> bit c 28" "\<not> bit c 29"
    by simp_all
  moreover have "c AND 0x1ffffff = c"
    using c by (simp add: take_bit_eq_mask mask_eq_exp_minus_1)
  ultimately show ?thesis by (simp add: polymod_step_eq sel_def)
qed

lemma polymod_fold_linear:
  "length vs = length ws \<Longrightarrow>
   foldl polymod_step (c XOR d) (map2 (XOR) vs ws) = foldl polymod_step c vs XOR foldl polymod_step d ws"
  by (induction vs ws arbitrary: c d rule: list_induct2) (auto simp: polymod_step_linear)

lemma take_bit_polymod: "vs \<noteq> [] \<Longrightarrow> take_bit 30 (polymod vs) = polymod vs"
  by (induction vs rule: rev_induct) (auto simp: polymod_def take_bit_polymod_step)

definition digit5 :: "32 word \<Rightarrow> nat \<Rightarrow> 8 word" where
  "digit5 pm i = ucast (drop_bit (5 * (5 - i)) pm AND 31)"

lemma push_digits:
  assumes "take_bit 30 pm = pm"
  shows "foldl polymod_step 0 (map (digit5 pm) [0..<6]) = pm"
proof -
  have b: "bit pm k \<Longrightarrow> k < 30" for k
    using assms by (metis bit_take_bit_iff)
  have step: "polymod_step (drop_bit (5 * (6 - i)) pm) (digit5 pm i) = drop_bit (5 * (5 - i)) pm"
    if "i < 6" for i
  proof -
    have "take_bit 25 (drop_bit (5 * (6 - i)) pm) = drop_bit (5 * (6 - i)) pm"
      by (rule bit_word_eqI) (use that in \<open>auto simp: bit_simps dest: b\<close>)
    moreover have "push_bit 5 (drop_bit (5 * (6 - i)) pm) XOR ucast (digit5 pm i) =
        drop_bit (5 * (5 - i)) pm"
    proof -
      have m: "31 = (mask 5 :: 32 word)" by (simp add: mask_eq_exp_minus_1)
      have a: "5 * (6 - i) = 5 * (5 - i) + 5" using that by simp
      show ?thesis unfolding digit5_def m a
        by (rule bit_word_eqI) (use that in \<open>auto simp: bit_simps\<close>)
    qed
    ultimately show ?thesis by (simp add: polymod_step_small)
  qed
  have z: "drop_bit 30 pm = 0"
    by (subst assms [symmetric]) (rule bit_word_eqI, auto simp: bit_simps)
  have l: "[0..<6] = [0, 1, 2, 3, 4, 5 :: nat]" by code_simp
  show ?thesis
    using step [of 0] step [of 1] step [of 2] step [of 3] step [of 4] step [of 5]
    by (simp add: l z)
qed


lemma map2_xor_zero: "map2 (XOR) xs (replicate (length xs) 0) = (xs :: 8 word list)"
  by (induction xs) auto

lemma checksum_digits: "create_checksum hrp data =
    map (digit5 (polymod (hrp_expand hrp @ data @ replicate 6 0) XOR 1)) [0..<6]"
  by (simp add: create_checksum_def digit5_def Let_def)

lemma checksum_verifies: "polymod (hrp_expand hrp @ data @ create_checksum hrp data) = 1"
proof -
  define c where "c = foldl polymod_step 1 (hrp_expand hrp @ data)"
  define pm where "pm = polymod (hrp_expand hrp @ data @ replicate 6 0) XOR 1"
  define ds where "ds = map (digit5 pm) [0..<6]"
  have p0: "polymod (hrp_expand hrp @ data @ replicate 6 0) = foldl polymod_step c (replicate 6 0)"
    by (simp add: polymod_def c_def)
  have "take_bit 30 (1 :: 32 word) = 1" by simp
  then have "take_bit 30 pm = pm"
    by (simp only: pm_def take_bit_xor) (simp add: take_bit_polymod)
  then have ds: "foldl polymod_step 0 ds = pm" unfolding ds_def by (rule push_digits)
  have "foldl polymod_step (c XOR 0) (map2 (XOR) (replicate 6 0) ds) =
      foldl polymod_step c (replicate 6 0) XOR foldl polymod_step 0 ds"
    by (rule polymod_fold_linear) (simp add: ds_def)
  moreover have "map2 (XOR) (replicate 6 0) ds = ds"
    by (simp add: ds_def upt_rec numeral_eq_Suc)
  ultimately have "foldl polymod_step c ds = 1"
    by (simp add: ds p0 [symmetric] pm_def xor.assoc [symmetric])
  moreover have "create_checksum hrp data = ds"
    by (simp only: checksum_digits pm_def ds_def)
  ultimately show ?thesis
    by (simp add: polymod_def c_def)
qed

section \<open>Regrouping\<close>

definition word_bits :: "nat \<Rightarrow> 'a::len word \<Rightarrow> bool list" where
  "word_bits n w = map (\<lambda>i. bit w (n - 1 - i)) [0..<n]"

lemma length_word_bits [simp]: "length (word_bits n w) = n"
  by (simp add: word_bits_def)

lemma nth_word_bits [simp]: "i < n \<Longrightarrow> word_bits n w ! i = bit w (n - 1 - i)"
  by (simp add: word_bits_def)

lemma word_bits_append:
  assumes "k + 8 \<le> 64"
  shows "word_bits (k + 8) (push_bit 8 acc OR ucast b :: 64 word) = word_bits k acc @ word_bits 8 (b :: 8 word)"
proof (rule nth_equalityI)
  fix i assume "i < length (word_bits (k + 8) (push_bit 8 acc OR ucast b :: 64 word))"
  then show "word_bits (k + 8) (push_bit 8 acc OR ucast b :: 64 word) ! i =
      (word_bits k acc @ word_bits 8 b) ! i"
    using assms
    by (auto simp: nth_append bit_simps dest: bit_imp_le_length) 
qed simp

lemma word_bits_emit:
  assumes "5 \<le> k" "k \<le> 64"
  shows "word_bits k (acc :: 64 word) =
    word_bits 5 (ucast (drop_bit (k - 5) acc AND 31) :: 8 word) @ word_bits (k - 5) acc"
proof -
  have m: "31 = (mask 5 :: 64 word)" by (simp add: mask_eq_exp_minus_1)
  show ?thesis unfolding m
    by (rule nth_equalityI) (use assms in \<open>auto simp: nth_append bit_simps\<close>)
qed

lemma word_bits_pad:
  assumes "k < 5"
  shows "word_bits 5 (ucast (push_bit (5 - k) acc AND 31) :: 8 word) =
    word_bits k (acc :: 64 word) @ replicate (5 - k) False"
proof -
  have m: "31 = (mask 5 :: 64 word)" by (simp add: mask_eq_exp_minus_1)
  show ?thesis unfolding m
    by (rule nth_equalityI) (use assms in \<open>auto simp: nth_append bit_simps\<close>)
qed

lemma emit_groups_bits:
  "k \<le> 64 \<Longrightarrow> emit_groups 5 31 k acc = (out, k') \<Longrightarrow>
   k' < 5 \<and> word_bits k acc = concat (map (word_bits 5) out) @ word_bits k' acc"
proof (induction k arbitrary: out k' rule: less_induct)
  case (less k)
  show ?case
  proof (cases "k < 5")
    case True
    with less.prems show ?thesis by (simp add: emit_groups.simps)
  next
    case False
    obtain o1 k1 where e: "emit_groups 5 31 (k - 5) acc = (o1, k1)" by fastforce
    with less.prems False have out: "out = ucast (drop_bit (k - 5) acc AND 31) # o1" "k' = k1"
      by (auto simp: emit_groups.simps [of 5 31 k])
    have "k1 < 5 \<and> word_bits (k - 5) acc = concat (map (word_bits 5) o1) @ word_bits k1 acc"
      by (rule less.IH [OF _ _ e]) (use False less.prems in auto)
    with False less.prems(1) show ?thesis by (simp add: out word_bits_emit)
  qed
qed

lemma convert_loop_bits:
  "k < 5 \<Longrightarrow> convert_loop 8 5 31 bs (acc, k) = (out, acc', k') \<Longrightarrow>
   k' < 5 \<and>
   word_bits k acc @ concat (map (word_bits 8) bs) = concat (map (word_bits 5) out) @ word_bits k' acc'"
proof (induction bs arbitrary: acc k out)
  case (Cons b bs)
  let ?a = "push_bit 8 acc OR ucast b"
  obtain o1 k1 where e: "emit_groups 5 31 (k + 8) ?a = (o1, k1)" by fastforce
  obtain o2 where l: "convert_loop 8 5 31 bs (?a, k1) = (o2, acc', k')" and out: "out = o1 @ o2"
    using Cons.prems(2) e by (auto simp: Let_def split: prod.splits)
  have 1: "k1 < 5 \<and> word_bits (k + 8) ?a = concat (map (word_bits 5) o1) @ word_bits k1 ?a"
    using Cons.prems(1) by (intro emit_groups_bits [OF _ e]) simp
  moreover have "word_bits (k + 8) ?a = word_bits k acc @ word_bits 8 b"
    using Cons.prems(1) by (intro word_bits_append) simp
  ultimately have 2: "word_bits k acc @ word_bits 8 b = concat (map (word_bits 5) o1) @ word_bits k1 ?a"
    by simp
  from Cons.IH [OF _ l] 1 have 3: "k' < 5 \<and> word_bits k1 ?a @ concat (map (word_bits 8) bs) =
      concat (map (word_bits 5) o2) @ word_bits k' acc'" by blast
  have "word_bits k acc @ concat (map (word_bits 8) (b # bs)) =
      (word_bits k acc @ word_bits 8 b) @ concat (map (word_bits 8) bs)" by simp
  also have "\<dots> = concat (map (word_bits 5) out) @ word_bits k' acc'"
    unfolding 2 using 3 by (simp add: out)
  finally show ?case using 3 by blast
qed simp

lemma convert_bits_8_5:
  "\<exists>n < 5. concat (map (word_bits 5) (convert_bits data 8 5 True)) =
     concat (map (word_bits 8) data) @ replicate n False"
proof -
  obtain out acc k where l: "convert_loop 8 5 31 data (0, 0) = (out, acc, k)"
    using prod_cases3 by blast
  have m: "push_bit 5 1 - 1 = (31 :: 64 word)" by simp
  from convert_loop_bits [OF _ l] have k: "k < 5"
    "concat (map (word_bits 8) data) = concat (map (word_bits 5) out) @ word_bits k acc"
    by (auto simp: word_bits_def)
  show ?thesis
  proof (cases "k = 0")
    case True
    with k l show ?thesis
      by (intro exI [of _ 0]) (simp add: convert_bits_def m word_bits_def del: push_bit_of_1)
  next
    case False
    with k l show ?thesis
      by (intro exI [of _ "5 - k"])
         (simp add: convert_bits_def m word_bits_pad del: push_bit_of_1)
  qed
qed

section \<open>Digits are below 32\<close>

lemma and_31_less: "ucast (x AND 31 :: 'a::len word) < (32 :: 8 word)"
proof -
  have "ucast (x AND mask 5) = take_bit 5 (ucast x :: 8 word)"
    by (rule bit_word_eqI) (auto simp: bit_simps dest: bit_imp_le_length)
  also have "\<dots> < 2 ^ 5"
    by (simp add: word_less_nat_alt take_bit_eq_mod unat_mod_distrib)
  finally show ?thesis by (simp add: mask_eq_exp_minus_1)
qed

lemma emit_groups_less: "set (fst (emit_groups n 31 k acc)) \<subseteq> {d. d < 32}"
  by (induction n "31 :: 64 word" k acc rule: emit_groups.induct)
     (subst emit_groups.simps, auto simp: Let_def and_31_less split: prod.splits)

lemma convert_loop_less: "set (fst (convert_loop m n 31 bs (acc, k))) \<subseteq> {d. d < 32}"
proof (induction bs arbitrary: acc k)
  case (Cons b bs)
  let ?a = "push_bit m acc OR ucast b"
  obtain o1 k1 where e: "emit_groups n 31 (k + m) ?a = (o1, k1)" by fastforce
  obtain o2 r where l: "convert_loop m n 31 bs (?a, k1) = (o2, r)" by (metis surj_pair)
  show ?case
    using emit_groups_less [of n "k + m" ?a] Cons.IH [of ?a k1] by (simp add: e l Let_def)
qed simp

lemma convert_bits_less: "set (convert_bits data 8 5 True) \<subseteq> {d. d < 32}"
proof -
  obtain out acc k where l: "convert_loop 8 5 31 data (0, 0) = (out, acc, k)"
    using prod_cases3 by blast
  show ?thesis
    using convert_loop_less [of 8 5 data 0 0]
    by (auto simp: convert_bits_def Let_def l and_31_less split: if_splits)
qed

lemma create_checksum_less:
  "set (create_checksum hrp data) \<subseteq> {d. d < 32}" "length (create_checksum hrp data) = 6"
  by (auto simp: create_checksum_def Let_def and_31_less)

lemma charset_distinct: "distinct charset" "length charset = 32"
  by (simp_all add: charset_def)

section \<open>Addresses\<close>

text \<open>C18: the address of a key is \<open>gpub1\<close> followed by characters of the bech32 alphabet for
  digits below 32; the last six digits are a checksum that verifies, and the digits before
  them, read as 5-bit groups, are the bits of the protobuf-wrapped key followed by fewer
  than five zero bits. (The alphabet has no repetitions, so the key can be read back.)\<close>

theorem gpub_address_verifies:
  "\<exists>ds cs n.
     encode_ed25519 pk = ''gpub1'' @ map (\<lambda>d. charset ! unat d) (ds @ cs) \<and>
     set (ds @ cs) \<subseteq> {d. d < 32} \<and> length cs = 6 \<and>
     polymod (hrp_expand ''gpub'' @ ds @ cs) = 1 \<and>
     n < 5 \<and>
     concat (map (word_bits 5) ds) =
       concat (map (word_bits 8) ([0x0a, 0x11] @ type_url @ [0x12, 0x22, 0x0a, 0x20] @ pk)) @
       replicate n False"
proof -
  define payload where "payload = [0x0a, 0x11] @ type_url @ [0x12, 0x22, 0x0a, 0x20] @ pk"
  define ds where "ds = convert_bits payload 8 5 True"
  obtain n where n: "n < 5" "concat (map (word_bits 5) ds) =
      concat (map (word_bits 8) payload) @ replicate n False"
    using convert_bits_8_5 [of payload] unfolding ds_def by blast
  have "encode_ed25519 pk =
      ''gpub1'' @ map (\<lambda>d. charset ! unat d) (ds @ create_checksum ''gpub'' ds)"
    by (simp add: encode_ed25519_def bech32_encode_def ds_def payload_def type_url_def Let_def)
  moreover have "set (ds @ create_checksum ''gpub'' ds) \<subseteq> {d. d < 32}"
    using convert_bits_less [of payload] create_checksum_less(1) [of "''gpub''" ds]
    by (auto simp: ds_def)
  ultimately show ?thesis
    using n create_checksum_less(2) [of "''gpub''" ds] checksum_verifies [of "''gpub''" ds]
    unfolding payload_def by blast
qed

text \<open>The vector of the package's own test.\<close>

lemma gnoland_test_vector:
  "encode_ed25519_from_base64 ''mKsg1XPxANeixURll0tm+FdymdT7qyOMs8h0lliCK6w='' =
   Some ''gpub1pggj7ard9eg82cjtv4u52epjx56nzwgjyg9zpx9tyr2h8ugq673v23r9ja9kd7zhw2vaf7atywxt8jr5jevgy2avyp9krz''"
  by code_simp

end
