(* ===== verification/Delta.thy ===== *)
theory Delta
  imports Sha256 Keyed_Store
begin

text \<open>
  The sentinel's delta filter (\<open>internal/sentinel/delta/delta.go\<close>): the SHA-256 digest of
  the last value seen per key; \<open>Changed\<close> says whether a value's digest is new for its key.
\<close>

type_synonym digest = "32 word list"

record delta =
  hashes :: "string \<rightharpoonup> digest"

definition new_delta :: delta where
  "new_delta = \<lparr>hashes = Map.empty\<rparr>"

definition hash_at :: "delta \<Rightarrow> string \<Rightarrow> digest" where
  "hash_at d key = (case hashes d key of None \<Rightarrow> zero_digest | Some h \<Rightarrow> h)"

definition changed :: "string \<Rightarrow> string \<Rightarrow> delta \<Rightarrow> bool \<times> delta" where
  "changed key data d =
     (let h = sha256 data
      in if hash_at d key = h then (False, d)
         else (True, d\<lparr>hashes := (hashes d)(key \<mapsto> h)\<rparr>))"

section \<open>The filter per key\<close>

definition delta_step :: "string \<times> string \<Rightarrow> delta \<Rightarrow> bool \<times> delta" where
  "delta_step x = changed (fst x) (snd x)"

definition digest_step :: "string \<times> string \<Rightarrow> digest \<Rightarrow> bool \<times> digest" where
  "digest_step x h = (h \<noteq> sha256 (snd x), sha256 (snd x))"

interpretation df: keyed_store hash_at fst delta_step digest_step
  by unfold_locales
     (auto simp: delta_step_def digest_step_def changed_def hash_at_def Let_def split: option.splits)

text \<open>The values let through for one key in a sequence of calls, in order.\<close>

definition emitted :: "string \<Rightarrow> (string \<times> string) list \<Rightarrow> delta \<Rightarrow> string list" where
  "emitted key xs d =
     map (snd \<circ> fst)
       (filter (\<lambda>(x, new). fst x = key \<and> new) (zip xs (fst (run_ops delta_step xs d))))"

lemma emitted_Cons:
  "emitted key (x # xs) d =
     (if fst x = key \<and> hash_at d key \<noteq> sha256 (snd x) then [snd x] else []) @
     emitted key xs (snd (delta_step x d))"
  by (auto simp: emitted_def delta_step_def changed_def Let_def split: prod.splits)

lemma emitted_Nil [simp]: "emitted key [] d = []"
  by (simp add: emitted_def)

lemma hash_at_step:
  "hash_at (snd (delta_step x d)) key = (if fst x = key then sha256 (snd x) else hash_at d key)"
  using df.view_own [of x d] df.view_other [of key x d] by (auto simp: digest_step_def)

lemma remdups_adj_Cons_Cons:
  "remdups_adj (a # b # xs) = (if a = b then remdups_adj (b # xs) else a # remdups_adj (b # xs))"
  by simp

text \<open>The digest kept for a key is that of the value last let through.\<close>

lemma last_digest:
  "hash_at (snd (run_ops delta_step xs d)) key =
     last (hash_at d key # map sha256 (emitted key xs d))"
  by (induction xs arbitrary: d) (auto simp: emitted_Cons hash_at_step)

text \<open>C17: for each key the values the filter lets through are exactly the changes: their digests
  are the digests of all values given for that key with adjacent repetitions removed
  (starting from the zero digest a missing entry reads as), however the calls for
  different keys interleave.\<close>

theorem delta_emits_changes:
  "hash_at d key # map sha256 (emitted key xs d) =
     remdups_adj (hash_at d key # map (sha256 \<circ> snd) (filter (\<lambda>x. fst x = key) xs))"
proof (induction xs arbitrary: d)
  case Nil
  then show ?case by (simp add: emitted_def)
next
  case (Cons x xs)
  note IH = Cons.IH [of "snd (delta_step x d)"]
  show ?case
  proof (cases "fst x = key")
    case True
    with IH show ?thesis
      by (auto simp: emitted_Cons hash_at_step remdups_adj_Cons_Cons simp del: remdups_adj.simps)
  next
    case False
    with IH show ?thesis by (simp add: emitted_Cons hash_at_step)
  qed
qed

end
