(* ===== verification/Buffer.thy ===== *)
theory Buffer
  imports Prelude "HOL-Library.Sublist"
begin

text \<open>
  The sentinel's bounded payload buffer (\<open>internal/sentinel/sender/buffer.go\<close>): a FIFO
  queue that drops its oldest item when full. \<open>NewBuffer\<close> panics for a capacity that is
  not positive (\<open>None\<close>). The interface \<open>bounded_fifo\<close> states the contract the collectors
  and the flush loop rely on.
\<close>

section \<open>The buffer\<close>

record 'a buffer =
  b_items :: "'a list"
  b_max_size :: int

definition new_buffer :: "int \<Rightarrow> 'a buffer option" where
  "new_buffer max_size =
     (if max_size \<le> 0 then None else Some \<lparr>b_items = [], b_max_size = max_size\<rparr>)"

definition push :: "'a \<Rightarrow> 'a buffer \<Rightarrow> bool \<times> 'a buffer" where
  "push item b =
     (let full = (b_max_size b \<le> int (length (b_items b)));
          kept = (if full then tl (b_items b) else b_items b)
      in (full, b\<lparr>b_items := kept @ [item]\<rparr>))"

definition drain :: "'a buffer \<Rightarrow> 'a list \<times> 'a buffer" where
  "drain b = (b_items b, b\<lparr>b_items := []\<rparr>)"

definition buffer_len :: "'a buffer \<Rightarrow> int" where
  "buffer_len b = int (length (b_items b))"

section \<open>The contract\<close>

datatype 'a buffer_op = Push 'a | Drain

locale bounded_fifo =
  fixes ok :: "'s \<Rightarrow> bool"
    and content :: "'s \<Rightarrow> 'a list"
    and capacity :: "'s \<Rightarrow> nat"
    and push_op :: "'a \<Rightarrow> 's \<Rightarrow> bool \<times> 's"
    and drain_op :: "'s \<Rightarrow> 'a list \<times> 's"
  assumes ok_push: "ok s \<Longrightarrow> ok (snd (push_op x s))"
    and ok_drain: "ok s \<Longrightarrow> ok (snd (drain_op s))"
    and capacity_pos: "ok s \<Longrightarrow> 0 < capacity s"
    and push_capacity: "capacity (snd (push_op x s)) = capacity s"
    and drain_capacity: "capacity (snd (drain_op s)) = capacity s"
    and push_full: "ok s \<Longrightarrow> fst (push_op x s) \<longleftrightarrow> length (content s) = capacity s"
    and push_content: "ok s \<Longrightarrow>
      content (snd (push_op x s)) = (if fst (push_op x s) then tl (content s) else content s) @ [x]"
    and drained: "fst (drain_op s) = content s"
    and drain_content: "content (snd (drain_op s)) = []"
    and within: "ok s \<Longrightarrow> length (content s) \<le> capacity s"
begin

text \<open>A run: the items handed out by the drains, the number of drops, the final state.\<close>

fun fifo_run :: "'a buffer_op list \<Rightarrow> 's \<Rightarrow> 'a list \<times> nat \<times> 's" where
  "fifo_run [] s = ([], 0, s)"
| "fifo_run (Push x # xs) s =
     (let (out, n, s') = fifo_run xs (snd (push_op x s))
      in (out, (if fst (push_op x s) then Suc n else n), s'))"
| "fifo_run (Drain # xs) s =
     (let (out, n, s') = fifo_run xs (snd (drain_op s)) in (fst (drain_op s) @ out, n, s'))"

fun pushed :: "'a buffer_op list \<Rightarrow> 'a list" where
  "pushed [] = []"
| "pushed (Push x # xs) = x # pushed xs"
| "pushed (Drain # xs) = pushed xs"

lemma fifo_run_push:
  "snd (snd (fifo_run (Push x # xs) s)) = snd (snd (fifo_run xs (snd (push_op x s))))"
  by (simp add: Let_def split: prod.split)

lemma fifo_run_capacity: "capacity (snd (snd (fifo_run xs s))) = capacity s"
  by (induction xs s rule: fifo_run.induct) (auto simp: push_capacity drain_capacity split: prod.splits)

lemma fifo_run_ok: "ok s \<Longrightarrow> ok (snd (snd (fifo_run xs s)))"
  by (induction xs s rule: fifo_run.induct) (auto simp: ok_push ok_drain split: prod.splits)

lemma accounted:
  "ok s \<Longrightarrow> fifo_run xs s = (out, n, s') \<Longrightarrow>
   subseq (out @ content s') (content s @ pushed xs) \<and>
   length (content s @ pushed xs) = length (out @ content s') + n"
proof (induction xs s arbitrary: out n s' rule: fifo_run.induct)
  case (2 x xs s)
  let ?s1 = "snd (push_op x s)"
  obtain out1 n1 where r: "fifo_run xs ?s1 = (out1, n1, s')" and
    o: "out = out1" "n = (if fst (push_op x s) then Suc n1 else n1)"
    using "2.prems"(2) by (auto simp: Let_def split: prod.splits)
  have IH: "subseq (out1 @ content s') (content ?s1 @ pushed xs)"
      "length (content ?s1 @ pushed xs) = length (out1 @ content s') + n1"
    using "2.IH" [OF ok_push [OF "2.prems"(1)] r] by auto
  have c: "content ?s1 = (if fst (push_op x s) then tl (content s) else content s) @ [x]"
    by (rule push_content [OF "2.prems"(1)])
  have "subseq (tl (content s) @ x # pushed xs) (content s @ x # pushed xs)"
    by (cases "content s") (auto intro: list_emb_Cons)
  then have s: "subseq (content ?s1 @ pushed xs) (content s @ pushed (Push x # xs))"
    by (auto simp: c)
  have "fst (push_op x s) \<Longrightarrow> content s \<noteq> []"
    using push_full [OF "2.prems"(1), of x] capacity_pos [OF "2.prems"(1)] by auto
  with IH(2) have "length (content s @ pushed (Push x # xs)) = length (out @ content s') + n"
    by (cases "content s") (auto simp: o c)
  with IH(1) s show ?case unfolding o by (blast intro: subseq_order.trans)
next
  case (3 xs s)
  obtain out1 where r: "fifo_run xs (snd (drain_op s)) = (out1, n, s')" and o: "out = content s @ out1"
    using "3.prems"(2) by (auto simp: Let_def drained split: prod.splits)
  have "subseq (out1 @ content s') (pushed xs) \<and> length (pushed xs) = length (out1 @ content s') + n"
    using "3.IH" [OF ok_drain [OF "3.prems"(1)] r] by (simp add: drain_content)
  then show ?case by (auto simp: o intro: list_emb_append_mono)
qed auto

lemma keeps_last:
  "ok s \<Longrightarrow> content (snd (snd (fifo_run (map Push xs) s))) =
     drop (length (content s @ xs) - capacity s) (content s @ xs)"
proof (induction xs arbitrary: s)
  case Nil
  then show ?case using within [of s] by simp
next
  case (Cons x xs)
  let ?s1 = "snd (push_op x s)"
  have c: "content ?s1 = (if length (content s) = capacity s then tl (content s) else content s) @ [x]"
    using push_content [OF Cons.prems] push_full [OF Cons.prems] by simp
  have "content (snd (snd (fifo_run (map Push (x # xs)) s))) =
      drop (length (content ?s1 @ xs) - capacity s) (content ?s1 @ xs)"
    using Cons.IH [OF ok_push [OF Cons.prems], of x]
    by (simp only: list.map fifo_run_push push_capacity)
  also have "\<dots> = drop (length (content s @ x # xs) - capacity s) (content s @ x # xs)"
  proof (cases "length (content s) = capacity s")
    case True
    then obtain y ys where y: "content s = y # ys"
      using capacity_pos [OF Cons.prems] by (cases "content s") auto
    have "length ys + 1 = capacity s" using True y by simp
    then show ?thesis by (simp add: c True y Suc_diff_le flip: True)
  next
    case False
    then show ?thesis by (simp add: c)
  qed
  finally show ?case .
qed

end

definition buffer_ok :: "'a buffer \<Rightarrow> bool" where
  "buffer_ok b \<longleftrightarrow> 0 < b_max_size b \<and> int (length (b_items b)) \<le> b_max_size b"

lemma new_buffer_ok: "new_buffer n = Some b \<Longrightarrow> buffer_ok b \<and> b_items b = []"
  by (auto simp: new_buffer_def buffer_ok_def split: if_splits)

interpretation bf: bounded_fifo buffer_ok b_items "\<lambda>b. nat (b_max_size b)" push drain
  by unfold_locales (auto simp: buffer_ok_def push_def drain_def Let_def)

text \<open>A run of pushes and drains of the model's buffer, written out.\<close>

fun buffer_run :: "'a buffer_op list \<Rightarrow> 'a buffer \<Rightarrow> 'a list \<times> nat \<times> 'a buffer" where
  "buffer_run [] b = ([], 0, b)"
| "buffer_run (Push x # ops) b =
     (let (out, n, b') = buffer_run ops (snd (push x b))
      in (out, (if fst (push x b) then Suc n else n), b'))"
| "buffer_run (Drain # ops) b =
     (let (out, n, b') = buffer_run ops (snd (drain b)) in (fst (drain b) @ out, n, b'))"

fun pushed_items :: "'a buffer_op list \<Rightarrow> 'a list" where
  "pushed_items [] = []"
| "pushed_items (Push x # ops) = x # pushed_items ops"
| "pushed_items (Drain # ops) = pushed_items ops"

lemma buffer_run_eq: "buffer_run ops b = bf.fifo_run ops b"
  by (induction ops b rule: buffer_run.induct) auto

lemma pushed_items_eq: "pushed_items ops = bf.pushed ops"
  by (induction ops rule: pushed_items.induct) auto

text \<open>C13: in any interleaving of pushes and drains, starting from a new buffer, the items drained so
  far followed by those still held are a subsequence of the items pushed (nothing is
  reordered, duplicated or invented), never more than the capacity is held, and the number
  of drops reported is exactly the number of items missing.\<close>

theorem buffer_accounts_for_every_item:
  assumes "new_buffer n = Some b" and "buffer_run ops b = (out, drops, b')"
  shows "subseq (out @ b_items b') (pushed_items ops) \<and>
     length (pushed_items ops) = length (out @ b_items b') + drops \<and>
     buffer_len b' \<le> n"
proof -
  have ok: "buffer_ok b" "b_items b = []" using new_buffer_ok [OF assms(1)] by auto
  have c: "b_max_size b = n" using assms(1) by (auto simp: new_buffer_def split: if_splits)
  have "buffer_ok b'" "nat (b_max_size b') = nat n"
    using bf.fifo_run_ok [OF ok(1), of ops] bf.fifo_run_capacity [of ops b] assms(2)
    by (simp_all add: buffer_run_eq c)
  then have "buffer_len b' \<le> n" by (auto simp: buffer_ok_def buffer_len_def)
  with bf.accounted [OF ok(1)] assms(2) ok(2) show ?thesis
    by (simp add: buffer_run_eq pushed_items_eq)
qed

theorem buffer_accounts_for_every_item_witness:
  "\<exists>b out drops b'. new_buffer 2 = Some b \<and>
     buffer_run [Push ''a'', Push ''b'', Push ''c'', Drain, Push ''d''] b = (out, drops, b') \<and>
     out @ b_items b' = [''b'', ''c'', ''d''] \<and>
     length (pushed_items [Push ''a'', Push ''b'', Push ''c'', Drain, Push ''d'']) =
       length (out @ b_items b') + drops"
proof -
  have n: "new_buffer 2 = Some \<lparr>b_items = [], b_max_size = 2\<rparr>" by (simp add: new_buffer_def)
  have r: "buffer_run [Push ''a'', Push ''b'', Push ''c'', Drain, Push ''d'']
      \<lparr>b_items = [], b_max_size = 2\<rparr> = ([''b'', ''c''], 1, \<lparr>b_items = [''d''], b_max_size = 2\<rparr>)"
    by (simp add: push_def drain_def Let_def)
  from buffer_accounts_for_every_item [OF n r] n r show ?thesis by auto
qed

text \<open>Pushing into a new buffer without draining keeps exactly the most recent items, in
  order.\<close>

theorem buffer_keeps_most_recent:
  assumes "new_buffer n = Some b"
  shows "b_items (snd (snd (buffer_run (map Push xs) b))) = drop (length xs - nat n) xs"
proof -
  have "buffer_ok b" "b_items b = []" using new_buffer_ok [OF assms] by auto
  moreover have "b_max_size b = n" using assms by (auto simp: new_buffer_def split: if_splits)
  ultimately show ?thesis using bf.keeps_last [of b xs] by (simp add: buffer_run_eq)
qed

theorem buffer_keeps_most_recent_witness:
  "b_items (snd (snd (buffer_run (map Push [1, 2, 3 :: nat]) \<lparr>b_items = [], b_max_size = 2\<rparr>))) = [2, 3]"
proof -
  have "new_buffer 2 = Some \<lparr>b_items = [] :: nat list, b_max_size = 2\<rparr>" by (simp add: new_buffer_def)
  from buffer_keeps_most_recent [OF this, of "[1, 2, 3]"] show ?thesis by simp
qed

end
