(* ===== verification/Sender.thy ===== *)
theory Sender
  imports Http
begin

text \<open>
  The sentinel's sender (\<open>internal/sentinel/sender/sender.go\<close>): building a POST, reading
  the answer and retrying with exponential backoff. One exchange with the server is the
  argument \<open>client\<close>; in a retry the \<open>i\<close>-th attempt's answer is \<open>fn i\<close> and \<open>cancel k\<close> says
  whether the \<open>k\<close>-th wait ends because the context is done. A retry yields its result and
  the trace of its attempts and waits. The zstd encoder is an argument where it is used.
\<close>

section \<open>The sender\<close>

datatype 'c transport = Plain | NoiseTransport 'c

record 'c sender =
  sd_server_url :: string
  sd_token :: string
  sd_transport :: "'c transport"

text \<open>\<open>None\<close> is the error for a \<open>noise://\<close> URL without keys.\<close>

definition new_sender :: "string \<Rightarrow> string \<Rightarrow> 'c option \<Rightarrow> 'c sender option" where
  "new_sender server_url token noise_cfg =
     (if has_prefix server_url ''noise://'' then
        (case noise_cfg of
           None \<Rightarrow> None
         | Some cfg \<Rightarrow>
             Some \<lparr>sd_server_url = ''http://'' @ trim_prefix server_url ''noise://'', sd_token = token,
                   sd_transport = NoiseTransport cfg\<rparr>)
      else Some \<lparr>sd_server_url = server_url, sd_token = token, sd_transport = Plain\<rparr>)"

section \<open>One attempt\<close>

record send_request =
  sq_url :: string
  sq_headers :: "(string \<times> string list) list"
  sq_body :: string

datatype send_outcome =
    CreateRequestFailed
  | ClientDoFailed
  | ServerResponse int "(string \<times> string list) list"

datatype send_error =
    CreateRequest
  | PostError string
  | RateLimited string
  | RetryAfter duration string
  | UnexpectedStatus string int

definition max_wait :: duration where
  "max_wait = 30 * second"

definition build_request :: "'c sender \<Rightarrow> string \<Rightarrow> string \<Rightarrow> string \<Rightarrow> string \<Rightarrow> send_request" where
  "build_request s path body content_type content_encoding =
     \<lparr>sq_url = sd_server_url s @ path,
      sq_headers = [(''Authorization'', [''Bearer '' @ sd_token s]), (''Content-Type'', [content_type])] @
        (if content_encoding = [] then [] else [(''Content-Encoding'', [content_encoding])]),
      sq_body = body\<rparr>"

definition send_post ::
  "(send_request \<Rightarrow> send_outcome) \<Rightarrow> 'c sender \<Rightarrow> string \<Rightarrow> string \<Rightarrow> string \<Rightarrow> string \<Rightarrow> send_error option" where
  "send_post client s path body content_type content_encoding =
     (case client (build_request s path body content_type content_encoding) of
        CreateRequestFailed \<Rightarrow> Some CreateRequest
      | ClientDoFailed \<Rightarrow> Some (PostError path)
      | ServerResponse status hdrs \<Rightarrow>
          if status = status_too_many_requests then
            (let ra = header_get hdrs ''Retry-After''
             in if ra = [] then Some (RateLimited path)
                else
                  (case parse_int64 ra of
                     None \<Rightarrow> Some (RateLimited path)
                   | Some secs \<Rightarrow>
                       Some (RetryAfter (min (wrap64 (secs * second)) max_wait) path)))
          else if status < 200 \<or> 300 \<le> status then Some (UnexpectedStatus path status)
          else None)"

section \<open>Retrying\<close>

datatype retry_event = Attempt | Wait duration

datatype retry_result = Sent | Cancelled | GaveUp int "send_error option"

fun retry_loop ::
  "(nat \<Rightarrow> send_error option) \<Rightarrow> (nat \<Rightarrow> bool) \<Rightarrow> int \<Rightarrow> nat \<Rightarrow> nat \<Rightarrow> nat \<Rightarrow> duration \<Rightarrow> bool \<Rightarrow>
   send_error option \<Rightarrow> retry_result \<times> retry_event list" where
  "retry_loop fn cancel max_attempts 0 i k backoff skip last_err = (GaveUp max_attempts last_err, [])"
| "retry_loop fn cancel max_attempts (Suc n) i k backoff skip last_err =
     (if 0 < i \<and> \<not> skip \<and> cancel k then (Cancelled, [Wait backoff])
      else
        (let waits = (0 < i \<and> \<not> skip);
             pre = (if waits then [Wait backoff] else []);
             k1 = (if waits then Suc k else k);
             backoff1 = (if waits then min (wrap64 (backoff * 2)) max_wait else backoff)
         in case fn i of
              None \<Rightarrow> (Sent, pre @ [Attempt])
            | Some err \<Rightarrow>
                (case err of
                   RetryAfter w p \<Rightarrow>
                     if w = 0 then
                       (let (r, evs) = retry_loop fn cancel max_attempts n (Suc i) k1 backoff1 True (Some err)
                        in (r, pre @ Attempt # evs))
                     else if cancel k1 then (Cancelled, pre @ [Attempt, Wait w])
                     else
                       (let (r, evs) = retry_loop fn cancel max_attempts n (Suc i) (Suc k1) backoff1 True (Some err)
                        in (r, pre @ Attempt # Wait w # evs))
                 | _ \<Rightarrow>
                     (let (r, evs) = retry_loop fn cancel max_attempts n (Suc i) k1 backoff1 False (Some err)
                      in (r, pre @ Attempt # evs)))))"

definition retry ::
  "(nat \<Rightarrow> send_error option) \<Rightarrow> (nat \<Rightarrow> bool) \<Rightarrow> int \<Rightarrow> duration \<Rightarrow> retry_result \<times> retry_event list" where
  "retry fn cancel max_attempts initial_backoff =
     retry_loop fn cancel max_attempts (nat max_attempts) 0 0 initial_backoff False None"

text \<open>\<open>SendRawWithRetry\<close> and \<open>SendCompressedBytesWithRetry\<close>; \<open>clients i\<close> answers attempt \<open>i\<close>.\<close>

definition send_raw_with_retry ::
  "(nat \<Rightarrow> send_request \<Rightarrow> send_outcome) \<Rightarrow> (nat \<Rightarrow> bool) \<Rightarrow> 'c sender \<Rightarrow> string \<Rightarrow> string \<Rightarrow> string \<Rightarrow>
   int \<Rightarrow> duration \<Rightarrow> retry_result \<times> retry_event list" where
  "send_raw_with_retry clients cancel s path body content_type max_attempts initial_backoff =
     retry (\<lambda>i. send_post (clients i) s path body content_type []) cancel max_attempts initial_backoff"

definition send_compressed_with_retry ::
  "(nat \<Rightarrow> send_request \<Rightarrow> send_outcome) \<Rightarrow> (nat \<Rightarrow> bool) \<Rightarrow> 'c sender \<Rightarrow> string \<Rightarrow> string \<Rightarrow>
   int \<Rightarrow> duration \<Rightarrow> retry_result \<times> retry_event list" where
  "send_compressed_with_retry clients cancel s path body max_attempts initial_backoff =
     retry (\<lambda>i. send_post (clients i) s path body ''application/json'' ''zstd'') cancel max_attempts initial_backoff"

section \<open>Attempts\<close>

definition attempts :: "retry_event list \<Rightarrow> nat" where
  "attempts evs = length (filter (\<lambda>e. e = Attempt) evs)"

lemma attempts_simps [simp]:
  "attempts [] = 0" "attempts (Attempt # evs) = Suc (attempts evs)"
  "attempts (Wait d # evs) = attempts evs" "attempts (xs @ ys) = attempts xs + attempts ys"
  by (simp_all add: attempts_def)

text \<open>How a result must relate to the answers \<open>fn i\<close>, \<open>fn (i+1)\<close>, \<dots> of the attempts made.\<close>

definition retry_ok :: "(nat \<Rightarrow> send_error option) \<Rightarrow> nat \<Rightarrow> nat \<Rightarrow> retry_result \<Rightarrow> nat \<Rightarrow> bool" where
  "retry_ok fn n i res made \<longleftrightarrow>
     made \<le> n \<and>
     (case res of
        Sent \<Rightarrow> 0 < made \<and> fn (i + made - 1) = None \<and> list_all (\<lambda>j. fn j \<noteq> None) [i..<i + made - 1]
      | GaveUp _ _ \<Rightarrow> made = n \<and> list_all (\<lambda>j. fn j \<noteq> None) [i..<i + n]
      | Cancelled \<Rightarrow> list_all (\<lambda>j. fn j \<noteq> None) [i..<i + made])"

lemma list_all_upt: "P i \<Longrightarrow> list_all P [Suc i..<n] \<Longrightarrow> list_all P [i..<n]"
  by (cases "i < n") (auto simp: upt_conv_Cons)

lemma retry_ok_fail:
  "fn i = Some err \<Longrightarrow> retry_ok fn n (Suc i) res made \<Longrightarrow> retry_ok fn (Suc n) i res (Suc made)"
  by (cases res) (auto simp: retry_ok_def simp del: upt_Suc intro!: list_all_upt)

lemma retry_loop_ok:
  "retry_ok fn n i (fst (retry_loop fn cancel m n i k b skip e))
     (attempts (snd (retry_loop fn cancel m n i k b skip e)))"
proof (induction n arbitrary: i k b skip e)
  case 0
  then show ?case by (simp add: retry_ok_def)
next
  case (Suc n)
  note IH = Suc.IH
  show ?case
  proof (cases "0 < i \<and> \<not> skip \<and> cancel k")
    case True
    then show ?thesis by (simp add: retry_ok_def)
  next
    case go: False
    show ?thesis
    proof (cases "fn i")
      case None
      with go show ?thesis by (auto simp: retry_ok_def Let_def)
    next
      case (Some err)
      have one: "retry_ok fn (Suc n) i Cancelled (Suc 0)" using Some by (simp add: retry_ok_def)
      have step: "retry_ok fn (Suc n) i (fst (retry_loop fn cancel m n (Suc i) k' b' skip' e'))
          (Suc (attempts (snd (retry_loop fn cancel m n (Suc i) k' b' skip' e'))))" for k' b' skip' e'
        by (rule retry_ok_fail [of fn i err, OF Some IH])
      show ?thesis
        using go Some step one by (cases err) (auto simp: Let_def case_prod_unfold)
    qed
  qed
qed

lemma never_sent:
  assumes "\<And>i. fn i \<noteq> None" shows "fst (retry fn cancel m b) \<noteq> Sent"
proof
  assume "fst (retry fn cancel m b) = Sent"
  with retry_loop_ok [of fn "nat m" 0 cancel m 0 b False None] have "\<exists>i. fn i = None"
    by (auto simp: retry_def retry_ok_def)
  with assms show False by blast
qed

section \<open>Waits\<close>

fun wait_of :: "retry_event \<Rightarrow> duration" where
  "wait_of Attempt = 0"
| "wait_of (Wait d) = d"

definition waits :: "retry_event list \<Rightarrow> nat" where
  "waits evs = length (filter (\<lambda>e. e \<noteq> Attempt) evs)"

lemma waits_simps [simp]:
  "waits [] = 0" "waits (Attempt # evs) = waits evs" "waits (Wait d # evs) = Suc (waits evs)"
  "waits (xs @ ys) = waits xs + waits ys"
  by (simp_all add: waits_def)

lemma retry_loop_waits:
  "waits (snd (retry_loop fn cancel m n i k b skip e)) \<le>
     (if n = 0 then 0 else n + (if 0 < i \<and> \<not> skip then 1 else 0))"
proof (induction n arbitrary: i k b skip e)
  case (Suc n)
  have IH: "waits (snd (retry_loop fn cancel m n (Suc i) k' b' True e')) \<le> n"
    "waits (snd (retry_loop fn cancel m n (Suc i) k' b' False e')) \<le> Suc n" for k' b' e'
    using Suc.IH [of "Suc i" k' b' True e'] Suc.IH [of "Suc i" k' b' False e'] by (auto split: if_splits)
  show ?case
  proof (cases "fn i")
    case None
    then show ?thesis by (auto simp: Let_def)
  next
    case (Some err)
    then show ?thesis using IH by (cases err) (auto simp: Let_def case_prod_unfold intro: le_SucI)
  qed
qed simp

definition short_waits :: "retry_event list \<Rightarrow> bool" where
  "short_waits evs \<longleftrightarrow> list_all (\<lambda>e. wait_of e \<le> max_wait) evs"

definition bounded_answers :: "(nat \<Rightarrow> send_error option) \<Rightarrow> bool" where
  "bounded_answers fn \<longleftrightarrow> (\<forall>i w p. fn i = Some (RetryAfter w p) \<longrightarrow> w \<le> max_wait)"

lemma retry_loop_short:
  "bounded_answers fn \<Longrightarrow> b \<le> max_wait \<Longrightarrow> short_waits (snd (retry_loop fn cancel m n i k b skip e))"
proof (induction n arbitrary: i k b skip e)
  case 0
  then show ?case by (simp add: short_waits_def)
next
  case (Suc n)
  have "min x max_wait \<le> max_wait" for x by simp
  with Suc.IH [OF Suc.prems(1)] Suc.prems(2)
  have IH: "short_waits (snd (retry_loop fn cancel m n (Suc i) k' b skip' e'))"
    "short_waits (snd (retry_loop fn cancel m n (Suc i) k' (min x max_wait) skip' e'))" for k' x skip' e'
    by blast+
  have p: "0 \<le> max_wait" by (simp add: max_wait_def second_def)
  show ?case
  proof (cases "fn i")
    case None
    with Suc.prems p show ?thesis by (auto simp: short_waits_def Let_def)
  next
    case (Some err)
    have "err = RetryAfter w q \<Longrightarrow> w \<le> max_wait" for w q
      using Suc.prems(1) Some unfolding bounded_answers_def by blast
    with Some IH Suc.prems(2) p show ?thesis
      by (cases err) (auto simp: short_waits_def Let_def case_prod_unfold)
  qed
qed

lemma sum_waits: "short_waits evs \<Longrightarrow> sum_list (map wait_of evs) \<le> int (waits evs) * max_wait"
proof (induction evs)
  case (Cons ev evs)
  then show ?case by (cases ev) (auto simp: short_waits_def algebra_simps)
qed simp

lemma send_post_bounded: "bounded_answers (\<lambda>i. send_post (clients i) s path body ct ce)"
  by (auto simp: bounded_answers_def send_post_def Let_def split: send_outcome.splits if_splits option.splits)

section \<open>What a retried send guarantees\<close>

text \<open>C16: a retried send makes at most the given number of attempts and always ends: it reports
  success exactly when its last attempt was accepted, all earlier ones having failed; it
  gives up only after all attempts failed; otherwise it was cancelled with every attempt
  so far failed.\<close>

theorem retry_result_sound:
  "retry_ok fn (nat max_attempts) 0 (fst (retry fn cancel max_attempts backoff))
     (attempts (snd (retry fn cancel max_attempts backoff)))"
  unfolding retry_def by (rule retry_loop_ok)

text \<open>C29: with an initial backoff of at most 30 seconds, whatever the server answers (also in
  \<open>Retry-After\<close>), no single wait exceeds 30 seconds, there are at most as many waits as
  attempts allowed, and so the total time spent waiting is at most 30 seconds times that
  number.\<close>

theorem retry_wait_bounded:
  assumes "backoff \<le> max_wait"
  shows "let evs = snd (send_raw_with_retry clients cancel s path body ct n backoff)
    in short_waits evs \<and> waits evs \<le> nat n \<and> sum_list (map wait_of evs) \<le> int (nat n) * (30 * second)"
proof -
  let ?evs = "snd (send_raw_with_retry clients cancel s path body ct n backoff)"
  have s: "short_waits ?evs"
    unfolding send_raw_with_retry_def retry_def by (rule retry_loop_short [OF send_post_bounded assms])
  have w: "waits ?evs \<le> nat n"
    unfolding send_raw_with_retry_def retry_def
    by (rule order_trans [OF retry_loop_waits]) simp
  have "int (waits ?evs) * max_wait \<le> int (nat n) * max_wait"
    by (intro mult_right_mono of_nat_mono w) (simp add: max_wait_def second_def)
  with sum_waits [OF s] have "sum_list (map wait_of ?evs) \<le> int (nat n) * (30 * second)"
    by (simp only: max_wait_def)
  with s w show ?thesis unfolding Let_def by blast
qed

theorem retry_wait_bounded_witness:
  "sum_list (map wait_of (snd (send_raw_with_retry
     (\<lambda>i q. ServerResponse 429 [(''Retry-After'', [''3600''])]) (\<lambda>k. False)
     \<lparr>sd_server_url = ''http://w'', sd_token = ''t'', sd_transport = Plain :: unit transport\<rparr>
     ''/rpc'' ''{}'' ''application/json'' 5 second))) \<le> 150 * second"
  using retry_wait_bounded [of second "\<lambda>i q. ServerResponse 429 [(''Retry-After'', [''3600''])]"
      "\<lambda>k. False" "\<lparr>sd_server_url = ''http://w'', sd_token = ''t'', sd_transport = Plain :: unit transport\<rparr>"
      "''/rpc''" "''{}''" "''application/json''" 5]
  by (simp add: max_wait_def second_def Let_def)

end
