(* ===== verification/Sn_Stats.thy ===== *)
theory Sn_Stats
  imports Traffic_Counter
begin

text \<open>
  The sentinel's traffic statistics (\<open>internal/sentinel/stats/stats.go\<close>): per collector
  type the bytes sent (before and after compression) and the drops by reason, each as a
  running total and, except for wire bytes, since the last snapshot. The maps are
  association lists, as \<open>Snapshot\<close> ranges over them.
\<close>

section \<open>Data and operations\<close>

record sn_type_snapshot =
  ts_total_bytes :: int
  ts_total_wire_bytes :: int
  ts_total_drops :: "(string \<times> int) list"
  ts_last_snapshot_bytes :: int
  ts_last_snapshot_drops :: "(string \<times> int) list"

record sn_entry =
  en_total_bytes :: int
  en_total_wire_bytes :: int
  en_total_drops :: "(string \<times> int) list"
  en_last_bytes :: int
  en_last_drops :: "(string \<times> int) list"

record sn_stats =
  ss_start :: gtime
  ss_data :: "(string \<times> sn_entry) list"

definition new_sn_stats :: "gtime \<Rightarrow> sn_stats" where
  "new_sn_stats now = \<lparr>ss_start = now, ss_data = []\<rparr>"

definition zero_sn_entry :: sn_entry where
  "zero_sn_entry =
     \<lparr>en_total_bytes = 0, en_total_wire_bytes = 0, en_total_drops = [], en_last_bytes = 0,
      en_last_drops = []\<rparr>"

definition get_or_create :: "string \<Rightarrow> sn_stats \<Rightarrow> sn_entry" where
  "get_or_create typ s = (case map_of (ss_data s) typ of None \<Rightarrow> zero_sn_entry | Some e \<Rightarrow> e)"

definition record_sent :: "string \<Rightarrow> int \<Rightarrow> int \<Rightarrow> sn_stats \<Rightarrow> sn_stats" where
  "record_sent typ uncompressed wire s =
     (let e = get_or_create typ s;
          e' = e\<lparr>en_total_bytes := wrap64 (en_total_bytes e + uncompressed),
                 en_total_wire_bytes := wrap64 (en_total_wire_bytes e + wire),
                 en_last_bytes := wrap64 (en_last_bytes e + uncompressed)\<rparr>
      in s\<lparr>ss_data := AList.update typ e' (ss_data s)\<rparr>)"

definition count_of :: "string \<Rightarrow> (string \<times> int) list \<Rightarrow> int" where
  "count_of reason m = (case map_of m reason of None \<Rightarrow> 0 | Some n \<Rightarrow> n)"

definition incr_count :: "string \<Rightarrow> (string \<times> int) list \<Rightarrow> (string \<times> int) list" where
  "incr_count reason m = AList.update reason (wrap64 (count_of reason m + 1)) m"

definition record_drop :: "string \<Rightarrow> string \<Rightarrow> sn_stats \<Rightarrow> sn_stats" where
  "record_drop typ reason s =
     (let e = get_or_create typ s;
          e' = e\<lparr>en_total_drops := incr_count reason (en_total_drops e),
                 en_last_drops := incr_count reason (en_last_drops e)\<rparr>
      in s\<lparr>ss_data := AList.update typ e' (ss_data s)\<rparr>)"

definition snapshot_entry :: "sn_entry \<Rightarrow> sn_type_snapshot" where
  "snapshot_entry e =
     \<lparr>ts_total_bytes = en_total_bytes e, ts_total_wire_bytes = en_total_wire_bytes e,
      ts_total_drops = en_total_drops e, ts_last_snapshot_bytes = en_last_bytes e,
      ts_last_snapshot_drops = en_last_drops e\<rparr>"

definition reset_entry :: "sn_entry \<Rightarrow> sn_entry" where
  "reset_entry e = e\<lparr>en_last_bytes := 0, en_last_drops := []\<rparr>"

definition sn_snapshot ::
  "gtime \<Rightarrow> sn_stats \<Rightarrow> ((string \<times> sn_type_snapshot) list \<times> duration) \<times> sn_stats" where
  "sn_snapshot now s =
     ((map (\<lambda>(k, e). (k, snapshot_entry e)) (ss_data s), time_sub now (ss_start s)),
      s\<lparr>ss_data := map (\<lambda>(k, e). (k, reset_entry e)) (ss_data s)\<rparr>)"

section \<open>The counters\<close>

datatype stat_event = SentEvent string int int | DropEvent string string
datatype stat_key = BytesOf string | DropsOf string string

fun stat_apply :: "stat_event \<Rightarrow> sn_stats \<Rightarrow> sn_stats" where
  "stat_apply (SentEvent typ u w) s = record_sent typ u w s"
| "stat_apply (DropEvent typ reason) s = record_drop typ reason s"

fun stat_contribution :: "stat_event \<Rightarrow> stat_key \<Rightarrow> int" where
  "stat_contribution (SentEvent typ u w) (BytesOf t) = (if t = typ then u else 0)"
| "stat_contribution (DropEvent typ reason) (DropsOf t r) = (if t = typ \<and> r = reason then 1 else 0)"
| "stat_contribution _ _ = 0"

fun stat_total :: "sn_stats \<Rightarrow> stat_key \<Rightarrow> int" where
  "stat_total s (BytesOf t) = en_total_bytes (get_or_create t s)"
| "stat_total s (DropsOf t r) = count_of r (en_total_drops (get_or_create t s))"

fun stat_recent :: "sn_stats \<Rightarrow> stat_key \<Rightarrow> int" where
  "stat_recent s (BytesOf t) = en_last_bytes (get_or_create t s)"
| "stat_recent s (DropsOf t r) = count_of r (en_last_drops (get_or_create t s))"

definition snap_entry :: "(string \<times> sn_type_snapshot) list \<times> duration \<Rightarrow> string \<Rightarrow> sn_type_snapshot" where
  "snap_entry p t =
     (case map_of (fst p) t of None \<Rightarrow> snapshot_entry zero_sn_entry | Some e \<Rightarrow> e)"

fun snap_stat_total :: "(string \<times> sn_type_snapshot) list \<times> duration \<Rightarrow> stat_key \<Rightarrow> int" where
  "snap_stat_total p (BytesOf t) = ts_total_bytes (snap_entry p t)"
| "snap_stat_total p (DropsOf t r) = count_of r (ts_total_drops (snap_entry p t))"

fun snap_stat_recent :: "(string \<times> sn_type_snapshot) list \<times> duration \<Rightarrow> stat_key \<Rightarrow> int" where
  "snap_stat_recent p (BytesOf t) = ts_last_snapshot_bytes (snap_entry p t)"
| "snap_stat_recent p (DropsOf t r) = count_of r (ts_last_snapshot_drops (snap_entry p t))"

definition sn_stats_ok :: "sn_stats \<Rightarrow> bool" where
  "sn_stats_ok s \<longleftrightarrow> (\<forall>k. int64_range (stat_total s k) \<and> int64_range (stat_recent s k))"

lemma count_of_incr: "count_of r (incr_count reason m) = (if r = reason then wrap64 (count_of r m + 1) else count_of r m)"
  by (simp add: count_of_def incr_count_def update_conv')

lemma get_or_create_update:
  "get_or_create t (s\<lparr>ss_data := AList.update typ e (ss_data s)\<rparr>) = (if t = typ then e else get_or_create t s)"
  by (simp add: get_or_create_def update_conv')

lemma map_of_map_values: "map_of (map (\<lambda>(k, e). (k, f e)) m) k = map_option f (map_of m k)"
  by (induction m) auto

lemma get_or_create_snapshot: "get_or_create t (snd (sn_snapshot now s)) = reset_entry (get_or_create t s)"
  by (simp add: get_or_create_def sn_snapshot_def map_of_map_values reset_entry_def zero_sn_entry_def
      split: option.split)

lemma snap_entry_snapshot: "snap_entry (fst (sn_snapshot now s)) t = snapshot_entry (get_or_create t s)"
  by (simp add: snap_entry_def sn_snapshot_def map_of_map_values get_or_create_def split: option.split)

lemma sn_stats_okD:
  assumes "sn_stats_ok s"
  shows "int64_range (en_total_bytes (get_or_create t s))" "int64_range (en_last_bytes (get_or_create t s))"
    "int64_range (count_of r (en_total_drops (get_or_create t s)))"
    "int64_range (count_of r (en_last_drops (get_or_create t s)))"
  using assms [unfolded sn_stats_ok_def, rule_format, of "BytesOf t"]
    assms [unfolded sn_stats_ok_def, rule_format, of "DropsOf t r"] by simp_all

lemma stat_apply_counters:
  assumes "sn_stats_ok s"
  shows "stat_total (stat_apply ev s) k = wrap64 (stat_total s k + stat_contribution ev k)"
    and "stat_recent (stat_apply ev s) k = wrap64 (stat_recent s k + stat_contribution ev k)"
  using sn_stats_okD [OF assms]
  by (cases ev; cases k; simp add: record_sent_def record_drop_def Let_def get_or_create_update
        count_of_incr)+

lemma snapshot_counters:
  "snap_stat_total (fst (sn_snapshot now s)) k = stat_total s k"
  "snap_stat_recent (fst (sn_snapshot now s)) k = stat_recent s k"
  "stat_total (snd (sn_snapshot now s)) k = stat_total s k"
  "stat_recent (snd (sn_snapshot now s)) k = 0"
  by (cases k; simp add: snap_entry_snapshot snapshot_entry_def get_or_create_snapshot reset_entry_def
      count_of_def)+

interpretation sns: traffic_counter sn_stats_ok stat_total stat_recent stat_contribution stat_apply
    "sn_snapshot now" snap_stat_total snap_stat_recent for now
  by unfold_locales
     (simp_all add: stat_apply_counters snapshot_counters sn_stats_ok_def wrap64_range
        del: stat_total.simps stat_recent.simps stat_contribution.simps stat_apply.simps)

lemma sn_stats_ok_new [simp]: "sn_stats_ok (new_sn_stats now)"
proof -
  have "get_or_create t (new_sn_stats now) = zero_sn_entry" for t
    by (simp add: get_or_create_def new_sn_stats_def)
  then have "stat_total (new_sn_stats now) k = 0 \<and> stat_recent (new_sn_stats now) k = 0" for k
    by (cases k) (simp_all add: zero_sn_entry_def count_of_def)
  then show ?thesis by (simp add: sn_stats_ok_def)
qed

text \<open>A run of \<open>Record\<close>, \<open>RecordDrop\<close> and \<open>Snapshot\<close> calls, written out.\<close>

fun sn_run ::
  "gtime \<Rightarrow> stat_event counter_event list \<Rightarrow> sn_stats \<Rightarrow>
   ((string \<times> sn_type_snapshot) list \<times> duration) list \<times> sn_stats" where
  "sn_run now [] s = ([], s)"
| "sn_run now (Event e # xs) s = sn_run now xs (stat_apply e s)"
| "sn_run now (TakeSnapshot # xs) s =
     (fst (sn_snapshot now s) # fst (sn_run now xs (snd (sn_snapshot now s))),
      snd (sn_run now xs (snd (sn_snapshot now s))))"

fun stat_recorded :: "stat_key \<Rightarrow> stat_event counter_event list \<Rightarrow> int" where
  "stat_recorded k [] = 0"
| "stat_recorded k (Event e # xs) = stat_contribution e k + stat_recorded k xs"
| "stat_recorded k (TakeSnapshot # xs) = stat_recorded k xs"

lemma sn_run_eq: "sn_run now xs s = sns.counter_run now xs s"
  by (induction now xs s rule: sn_run.induct) auto

lemma stat_recorded_eq: "stat_recorded k xs = sns.recorded k xs"
  by (induction k xs rule: stat_recorded.induct) auto

text \<open>In any run of sends, drops and snapshots, for each type's bytes and each drop reason, the
  total is the sum of everything recorded, and the since-last-snapshot figures of all
  snapshots taken so far plus the pending one add up to the same (modulo the 64-bit
  counter): drops and bytes are never lost between snapshots, though each figure reaches
  only one of the snapshots.\<close>

theorem sentinel_stats_conserved:
  "stat_total (snd (sn_run now xs (new_sn_stats t))) k = wrap64 (stat_recorded k xs) \<and>
   wrap64 (sum_list (map (\<lambda>p. snap_stat_recent p k) (fst (sn_run now xs (new_sn_stats t)))) +
           stat_recent (snd (sn_run now xs (new_sn_stats t))) k) = wrap64 (stat_recorded k xs)"
proof -
  have z: "stat_total (new_sn_stats t) k = 0" "stat_recent (new_sn_stats t) k = 0"
    by (cases k; simp add: get_or_create_def new_sn_stats_def zero_sn_entry_def count_of_def)+
  show ?thesis
    using sns.total_run [where now = now and s = "new_sn_stats t" and k = k and xs = xs]
      sns.conserved [where now = now and s = "new_sn_stats t" and k = k and xs = xs]
    by (simp add: sn_run_eq stat_recorded_eq z)
qed

end
