(* ===== verification/Sn_App.thy ===== *)
theory Sn_App
  imports Buffer Sender Sn_Stats
begin

text \<open>
  The sentinel's pipeline (\<open>internal/sentinel/app/run.go\<close>): collectors' payloads are wired
  into bounded buffers, and tickers flush the buffers through the sender, recording what was
  sent and what was dropped. The main loop is a function on events, so that every
  interleaving of arriving payloads, ticks and the final drain is a list of events.

  What comes from outside is the record \<open>flush_env\<close>: the answers to the attempts for each
  item of a flush (\<open>fe_clients\<close>), which waits are cut short by the context (\<open>fe_cancel\<close>),
  whether the context is done when a send has failed (\<open>fe_done\<close>), the JSON encoding of a
  payload and the zstd compressor. The collectors' goroutines are their events; starting
  them, tickers and logging are not modelled.
\<close>

definition rpc_buffer_size :: int where "rpc_buffer_size = 300"
definition logs_buffer_size :: int where "logs_buffer_size = 500"
definition resources_buffer_size :: int where "resources_buffer_size = 20"
definition metadata_buffer_size :: int where "metadata_buffer_size = 10"
definition self_buffer_size :: int where "self_buffer_size = 5"
definition max_send_attempts :: int where "max_send_attempts = 5"
definition initial_backoff :: duration where "initial_backoff = second"

section \<open>Flushing\<close>

record 'p flush_env =
  fe_clients :: "nat \<Rightarrow> nat \<Rightarrow> send_request \<Rightarrow> send_outcome"
  fe_cancel :: "nat \<Rightarrow> nat \<Rightarrow> bool"
  fe_done :: "nat \<Rightarrow> bool"
  fe_marshal :: "'p \<Rightarrow> string option"
  fe_compress :: "string \<Rightarrow> string"

text \<open>What became of an item: \<open>Lost\<close> items were drained but neither sent nor recorded.\<close>

datatype item_fate = Delivered | Dropped | Unencodable | Lost

text \<open>The path, the type label of the statistics and whether the body is compressed.\<close>

record flush_kind =
  fk_path :: string
  fk_type :: string
  fk_zstd :: bool

definition flush_rpc_kind :: flush_kind where
  "flush_rpc_kind = \<lparr>fk_path = ''/rpc'', fk_type = ''rpc'', fk_zstd = False\<rparr>"

definition flush_logs_kind :: flush_kind where
  "flush_logs_kind = \<lparr>fk_path = ''/logs'', fk_type = ''logs'', fk_zstd = True\<rparr>"

definition flush_metrics_kind :: "string \<Rightarrow> flush_kind" where
  "flush_metrics_kind typ = \<lparr>fk_path = ''/metrics'', fk_type = typ, fk_zstd = False\<rparr>"

definition send_item ::
  "'p flush_env \<Rightarrow> 'c sender \<Rightarrow> flush_kind \<Rightarrow> nat \<Rightarrow> string \<Rightarrow> retry_result" where
  "send_item e s kind j wire =
     fst (if fk_zstd kind
          then send_compressed_with_retry (fe_clients e j) (fe_cancel e j) s (fk_path kind) wire
                 max_send_attempts initial_backoff
          else send_raw_with_retry (fe_clients e j) (fe_cancel e j) s (fk_path kind) wire
                 ''application/json'' max_send_attempts initial_backoff)"

definition wire_form :: "'p flush_env \<Rightarrow> flush_kind \<Rightarrow> string \<Rightarrow> string" where
  "wire_form e kind b = (if fk_zstd kind then fe_compress e b else b)"

fun flush_items ::
  "'p flush_env \<Rightarrow> 'c sender \<Rightarrow> flush_kind \<Rightarrow> nat \<Rightarrow> 'p list \<Rightarrow> sn_stats \<Rightarrow> item_fate list \<times> sn_stats" where
  "flush_items e s kind j [] st = ([], st)"
| "flush_items e s kind j (p # ps) st =
     (case fe_marshal e p of
        None \<Rightarrow>
          (let (fates, st') = flush_items e s kind (Suc j) ps st in (Unencodable # fates, st'))
      | Some b \<Rightarrow>
          (let wire = wire_form e kind b
           in if send_item e s kind j wire = Sent then
                (let (fates, st') = flush_items e s kind (Suc j) ps
                       (record_sent (fk_type kind) (int (length b)) (int (length wire)) st)
                 in (Delivered # fates, st'))
              else if fe_done e j then (map (\<lambda>_. Lost) (p # ps), st)
              else
                (let (fates, st') = flush_items e s kind (Suc j) ps
                       (record_drop (fk_type kind) ''retry_exhausted'' st)
                 in (Dropped # fates, st'))))"

text \<open>\<open>flush\<close>, \<open>flushLogs\<close> and \<open>flushMetrics\<close>: drain the buffer, send each item.\<close>

definition flush_buffer ::
  "'p flush_env \<Rightarrow> 'c sender \<Rightarrow> flush_kind \<Rightarrow> 'p buffer \<Rightarrow> sn_stats \<Rightarrow>
   item_fate list \<times> 'p buffer \<times> sn_stats" where
  "flush_buffer e s kind buf st =
     (let (ps, buf') = drain buf; (fates, st') = flush_items e s kind 0 ps st in (fates, buf', st'))"

section \<open>Wiring and the OTLP path\<close>

definition wire_buffered :: "string \<Rightarrow> 'p \<Rightarrow> 'p buffer \<Rightarrow> sn_stats \<Rightarrow> 'p buffer \<times> sn_stats" where
  "wire_buffered name p buf st =
     (let (dropped, buf') = push p buf
      in (buf', if dropped then record_drop name ''buffer_full'' st else st))"

text \<open>One body of the OTLP sender; \<open>ctx_done\<close> says whether the context is done after the send.\<close>

definition otlp_send ::
  "(nat \<Rightarrow> send_request \<Rightarrow> send_outcome) \<Rightarrow> (nat \<Rightarrow> bool) \<Rightarrow> bool \<Rightarrow> 'c sender \<Rightarrow> string \<Rightarrow> sn_stats \<Rightarrow> sn_stats" where
  "otlp_send clients cancel ctx_done s b st =
     (if fst (send_raw_with_retry clients cancel s ''/otlp'' b ''application/x-protobuf''
                max_send_attempts initial_backoff) \<noteq> Sent \<and> \<not> ctx_done
      then record_drop ''otlp'' ''retry_exhausted'' st
      else record_sent ''otlp'' (int (length b)) (int (length b)) st)"

definition otlp_drop :: "sn_stats \<Rightarrow> sn_stats" where
  "otlp_drop st = record_drop ''otlp'' ''buffer_full'' st"

section \<open>The main loop\<close>

record ('r, 'l, 'm) app =
  ap_stats :: sn_stats
  ap_rpc :: "'r buffer option"
  ap_logs :: "'l buffer option"
  ap_resources :: "'m buffer option"
  ap_metadata :: "'m buffer option"
  ap_self :: "'m buffer option"

definition new_app :: "gtime \<Rightarrow> bool \<Rightarrow> bool \<Rightarrow> bool \<Rightarrow> bool \<Rightarrow> bool \<Rightarrow> ('r, 'l, 'm) app" where
  "new_app now rpc_on logs_on resources_on metadata_on self_on =
     \<lparr>ap_stats = new_sn_stats now,
      ap_rpc = (if rpc_on then new_buffer rpc_buffer_size else None),
      ap_logs = (if logs_on then new_buffer logs_buffer_size else None),
      ap_resources = (if resources_on then new_buffer resources_buffer_size else None),
      ap_metadata = (if metadata_on then new_buffer metadata_buffer_size else None),
      ap_self = (if self_on then new_buffer self_buffer_size else None)\<rparr>"

datatype ('r, 'l, 'm) app_event =
    RpcPayload 'r
  | LogPayload 'l
  | ResourcesPayload 'm
  | MetadataPayload 'm
  | SelfPayload 'm
  | RpcTick "'r flush_env"
  | LogTick "'l flush_env"
  | ResourcesTick "'m flush_env"
  | MetadataTick "'m flush_env"
  | SelfTick "'m flush_env"
  | StatsTick gtime
  | OtlpBody "nat \<Rightarrow> send_request \<Rightarrow> send_outcome" "nat \<Rightarrow> bool" bool string
  | OtlpFull

text \<open>A payload of a disabled collector cannot arrive, nor does its ticker fire.\<close>

definition wire_opt :: "string \<Rightarrow> 'p \<Rightarrow> 'p buffer option \<Rightarrow> sn_stats \<Rightarrow> 'p buffer option \<times> sn_stats" where
  "wire_opt name p buf st =
     (case buf of
        None \<Rightarrow> (None, st)
      | Some b \<Rightarrow> (let (b', st') = wire_buffered name p b st in (Some b', st')))"

definition flush_opt ::
  "'p flush_env \<Rightarrow> 'c sender \<Rightarrow> flush_kind \<Rightarrow> 'p buffer option \<Rightarrow> sn_stats \<Rightarrow> 'p buffer option \<times> sn_stats" where
  "flush_opt e s kind buf st =
     (case buf of
        None \<Rightarrow> (None, st)
      | Some b \<Rightarrow> (let (fates, b', st') = flush_buffer e s kind b st in (Some b', st')))"

fun app_step :: "'c sender \<Rightarrow> ('r, 'l, 'm) app_event \<Rightarrow> ('r, 'l, 'm) app \<Rightarrow> ('r, 'l, 'm) app" where
  "app_step s (RpcPayload p) a =
     (let (b, st) = wire_opt ''rpc'' p (ap_rpc a) (ap_stats a) in a\<lparr>ap_rpc := b, ap_stats := st\<rparr>)"
| "app_step s (LogPayload p) a =
     (let (b, st) = wire_opt ''log'' p (ap_logs a) (ap_stats a) in a\<lparr>ap_logs := b, ap_stats := st\<rparr>)"
| "app_step s (ResourcesPayload p) a =
     (let (b, st) = wire_opt ''resources'' p (ap_resources a) (ap_stats a)
      in a\<lparr>ap_resources := b, ap_stats := st\<rparr>)"
| "app_step s (MetadataPayload p) a =
     (let (b, st) = wire_opt ''metadata'' p (ap_metadata a) (ap_stats a)
      in a\<lparr>ap_metadata := b, ap_stats := st\<rparr>)"
| "app_step s (SelfPayload p) a =
     (let (b, st) = wire_opt ''self'' p (ap_self a) (ap_stats a) in a\<lparr>ap_self := b, ap_stats := st\<rparr>)"
| "app_step s (RpcTick e) a =
     (let (b, st) = flush_opt e s flush_rpc_kind (ap_rpc a) (ap_stats a) in a\<lparr>ap_rpc := b, ap_stats := st\<rparr>)"
| "app_step s (LogTick e) a =
     (let (b, st) = flush_opt e s flush_logs_kind (ap_logs a) (ap_stats a) in a\<lparr>ap_logs := b, ap_stats := st\<rparr>)"
| "app_step s (ResourcesTick e) a =
     (let (b, st) = flush_opt e s (flush_metrics_kind ''resources'') (ap_resources a) (ap_stats a)
      in a\<lparr>ap_resources := b, ap_stats := st\<rparr>)"
| "app_step s (MetadataTick e) a =
     (let (b, st) = flush_opt e s (flush_metrics_kind ''metadata'') (ap_metadata a) (ap_stats a)
      in a\<lparr>ap_metadata := b, ap_stats := st\<rparr>)"
| "app_step s (SelfTick e) a =
     (let (b, st) = flush_opt e s (flush_metrics_kind ''self'') (ap_self a) (ap_stats a)
      in a\<lparr>ap_self := b, ap_stats := st\<rparr>)"
| "app_step s (StatsTick now) a = a\<lparr>ap_stats := snd (sn_snapshot now (ap_stats a))\<rparr>"
| "app_step s (OtlpBody clients cancel ctx_done b) a =
     a\<lparr>ap_stats := otlp_send clients cancel ctx_done s b (ap_stats a)\<rparr>"
| "app_step s OtlpFull a = a\<lparr>ap_stats := otlp_drop (ap_stats a)\<rparr>"

text \<open>The loop until the context is done: one step per event.\<close>

definition app_loop :: "'c sender \<Rightarrow> ('r, 'l, 'm) app_event list \<Rightarrow> ('r, 'l, 'm) app \<Rightarrow> ('r, 'l, 'm) app" where
  "app_loop s evs a = foldl (\<lambda>a ev. app_step s ev a) a evs"

text \<open>The last flushes, in this order, with a fresh context.\<close>

definition app_drain ::
  "'c sender \<Rightarrow> 'r flush_env \<Rightarrow> 'l flush_env \<Rightarrow> 'm flush_env \<Rightarrow> 'm flush_env \<Rightarrow> 'm flush_env \<Rightarrow>
   ('r, 'l, 'm) app \<Rightarrow> ('r, 'l, 'm) app" where
  "app_drain s er el e1 e2 e3 a =
     app_loop s [RpcTick er, LogTick el, ResourcesTick e1, MetadataTick e2, SelfTick e3] a"

definition app_run ::
  "'c sender \<Rightarrow> ('r, 'l, 'm) app_event list \<Rightarrow> 'r flush_env \<Rightarrow> 'l flush_env \<Rightarrow> 'm flush_env \<Rightarrow>
   'm flush_env \<Rightarrow> 'm flush_env \<Rightarrow> ('r, 'l, 'm) app \<Rightarrow> ('r, 'l, 'm) app" where
  "app_run s evs er el e1 e2 e3 a = app_drain s er el e1 e2 e3 (app_loop s evs a)"

end
