(* ===== verification/Sn_App_Props.thy ===== *)
theory Sn_App_Props
  imports Sn_App
begin

text \<open>
  What the sentinel's pipeline guarantees: a flush accounts for every drained item, the
  buffers stay within their capacities and the statistics within their ranges in every
  interleaving of events; and where it does not do what it means to: failed OTLP sends
  counted as sent, log drops under two different labels, items lost at shutdown.
\<close>

section \<open>A flush as a list of recorded events\<close>

definition fate_events :: "'p flush_env \<Rightarrow> flush_kind \<Rightarrow> 'p \<times> item_fate \<Rightarrow> stat_event list" where
  "fate_events e kind pf =
     (case snd pf of
        Delivered \<Rightarrow>
          (case fe_marshal e (fst pf) of
             None \<Rightarrow> []
           | Some b \<Rightarrow> [SentEvent (fk_type kind) (int (length b)) (int (length (wire_form e kind b)))])
      | Dropped \<Rightarrow> [DropEvent (fk_type kind) ''retry_exhausted'']
      | _ \<Rightarrow> [])"

definition apply_events :: "stat_event list \<Rightarrow> sn_stats \<Rightarrow> sn_stats" where
  "apply_events evs st = foldl (\<lambda>st ev. stat_apply ev st) st evs"

lemma apply_events_simps [simp]:
  "apply_events [] st = st"
  "apply_events (ev # evs) st = apply_events evs (stat_apply ev st)"
  "apply_events (xs @ ys) st = apply_events ys (apply_events xs st)"
  by (simp_all add: apply_events_def)

lemma apply_events_run: "apply_events evs st = snd (sns.counter_run now (map Event evs) st)"
  by (induction evs arbitrary: st) auto

lemma recorded_events: "sns.recorded k (map Event evs) = sum_list (map (\<lambda>ev. stat_contribution ev k) evs)"
  by (induction evs) auto

lemma apply_events_total:
  "sn_stats_ok st \<Longrightarrow>
   stat_total (apply_events evs st) k =
     wrap64 (stat_total st k + sum_list (map (\<lambda>ev. stat_contribution ev k) evs))"
  using sns.total_run [where now = 0 and s = st and k = k and xs = "map Event evs"]
  by (simp add: apply_events_run [where now = 0] recorded_events)

lemma apply_events_ok: "sn_stats_ok st \<Longrightarrow> sn_stats_ok (apply_events evs st)"
  using sns.ok_run [where now = 0 and s = st and xs = "map Event evs"]
  by (simp add: apply_events_run [where now = 0])

lemma flush_items_events:
  "flush_items e s kind j ps st = (fates, st') \<Longrightarrow>
   length fates = length ps \<and> st' = apply_events (concat (map (fate_events e kind) (zip ps fates))) st"
proof (induction e s kind j ps st arbitrary: fates rule: flush_items.induct)
  case (2 e s kind j p ps st)
  have lost: "apply_events (concat (map (fate_events e kind) (zip qs (map (\<lambda>_. Lost) qs)))) st = st"
    for qs and st by (induction qs) (simp_all add: fate_events_def)
  show ?case
  proof (cases "fe_marshal e p")
    case None
    with "2.prems" "2.IH"(1) [OF None] show ?thesis
      by (auto simp: fate_events_def split: prod.splits)
  next
    case (Some b)
    show ?thesis
    proof (cases "send_item e s kind j (wire_form e kind b) = Sent")
      case True
      with Some "2.prems" "2.IH"(2) [OF Some refl True] show ?thesis
        by (auto simp: fate_events_def Let_def split: prod.splits)
    next
      case ns: False
      show ?thesis
      proof (cases "fe_done e j")
        case True
        with Some ns "2.prems" have "fates = map (\<lambda>_. Lost) (p # ps)" "st' = st"
          by (auto simp: Let_def)
        then show ?thesis using lost [of "p # ps" st] by simp
      next
        case False
        with Some ns "2.prems" "2.IH"(3) [OF Some refl ns False] show ?thesis
          by (auto simp: fate_events_def Let_def split: prod.splits)
      qed
    qed
  qed
qed simp

text \<open>Item \<open>j\<close> of a flush is sent when it can be encoded and the send of its wire form
  succeeds; it cuts the flush short when it can be encoded, its send fails and the context is
  done afterwards.\<close>

definition item_sent :: "'p flush_env \<Rightarrow> 'c sender \<Rightarrow> flush_kind \<Rightarrow> nat \<Rightarrow> 'p \<Rightarrow> bool" where
  "item_sent e s kind j p \<longleftrightarrow>
     (\<exists>b. fe_marshal e p = Some b \<and> send_item e s kind j (wire_form e kind b) = Sent)"

definition item_cuts :: "'p flush_env \<Rightarrow> 'c sender \<Rightarrow> flush_kind \<Rightarrow> nat \<Rightarrow> 'p \<Rightarrow> bool" where
  "item_cuts e s kind j p \<longleftrightarrow> fe_marshal e p \<noteq> None \<and> \<not> item_sent e s kind j p \<and> fe_done e j"

definition item_outcome :: "'p flush_env \<Rightarrow> 'c sender \<Rightarrow> flush_kind \<Rightarrow> nat \<Rightarrow> 'p \<Rightarrow> item_fate" where
  "item_outcome e s kind j p =
     (if fe_marshal e p = None then Unencodable else if item_sent e s kind j p then Delivered else Dropped)"

lemma flush_items_step:
  "flush_items e s kind j (p # ps) st =
     (if item_cuts e s kind j p then (replicate (Suc (length ps)) Lost, st)
      else
        (let f = item_outcome e s kind j p;
             (fs, st') = flush_items e s kind (Suc j) ps (apply_events (fate_events e kind (p, f)) st)
         in (f # fs, st')))"
  by (cases "fe_marshal e p")
     (auto simp: item_outcome_def item_cuts_def item_sent_def fate_events_def map_replicate_const Let_def split: prod.split)

lemma item_outcome_neq [simp]: "item_outcome e s kind j p \<noteq> Lost"
  by (simp add: item_outcome_def)

lemma flush_items_cut:
  assumes "\<And>i. i < length ps \<Longrightarrow> \<not> item_cuts e s kind (j + i) (ps ! i)"
  shows "flush_items e s kind j (ps @ qs) st =
    (let (fs, st1) = flush_items e s kind j ps st; (gs, st2) = flush_items e s kind (j + length ps) qs st1
     in (fs @ gs, st2)) \<and> Lost \<notin> set (fst (flush_items e s kind j ps st))"
  using assms
proof (induction ps arbitrary: j st)
  case (Cons p ps)
  have here: "\<not> item_cuts e s kind j p" using Cons.prems [of 0] by simp
  have "\<not> item_cuts e s kind (Suc j + i) (ps ! i)" if "i < length ps" for i
    using Cons.prems [of "Suc i"] that by simp
  note IH = Cons.IH [OF this]
  define st1 where "st1 = apply_events (fate_events e kind (p, item_outcome e s kind j p)) st"
  obtain fs st2 where fs: "flush_items e s kind (Suc j) ps st1 = (fs, st2)" by (metis surj_pair)
  obtain gs st3 where gs: "flush_items e s kind (Suc j + length ps) qs st2 = (gs, st3)" by (metis surj_pair)
  show ?case
    using IH [of st1] gs here
    by (simp del: flush_items.simps add: flush_items_step st1_def [symmetric] fs Let_def item_outcome_neq [symmetric])
qed simp

text \<open>The fate of every item, from what happens to it and to the items before it.\<close>

definition fate_fits :: "'p flush_env \<Rightarrow> 'c sender \<Rightarrow> flush_kind \<Rightarrow> nat \<Rightarrow> 'p list \<Rightarrow> nat \<Rightarrow> item_fate \<Rightarrow> bool" where
  "fate_fits e s kind j ps i f \<longleftrightarrow>
     (case f of
        Lost \<Rightarrow> \<exists>k\<le>i. item_cuts e s kind (j + k) (ps ! k)
      | Delivered \<Rightarrow> item_sent e s kind (j + i) (ps ! i)
      | Dropped \<Rightarrow> fe_marshal e (ps ! i) \<noteq> None \<and> \<not> item_sent e s kind (j + i) (ps ! i) \<and> \<not> fe_done e (j + i)
      | Unencodable \<Rightarrow> fe_marshal e (ps ! i) = None)"

lemma flush_items_fates:
  "flush_items e s kind j ps st = (fates, st') \<Longrightarrow> i < length ps \<Longrightarrow>
     fate_fits e s kind j ps i (fates ! i) \<and>
     (fates ! i = Lost \<longleftrightarrow> (\<exists>k\<le>i. item_cuts e s kind (j + k) (ps ! k)))"
proof (induction ps arbitrary: j st fates i)
  case (Cons p ps)
  show ?case
  proof (cases "item_cuts e s kind j p")
    case True
    then have "\<exists>k\<le>i. item_cuts e s kind (j + k) ((p # ps) ! k)" by (intro exI [of _ 0]) simp
    with True Cons.prems show ?thesis
      by (auto simp del: flush_items.simps replicate_Suc simp: flush_items_step fate_fits_def)
  next
    case False
    define f where "f = item_outcome e s kind j p"
    obtain fs where fs: "fates = f # fs"
        "flush_items e s kind (Suc j) ps (apply_events (fate_events e kind (p, f)) st) = (fs, st')"
      using Cons.prems(1) False
      by (auto simp del: flush_items.simps simp: flush_items_step f_def [symmetric] Let_def split: prod.splits)
    have ex: "(\<exists>k\<le>Suc n. item_cuts e s kind (j + k) ((p # ps) ! k)) \<longleftrightarrow> (\<exists>k\<le>n. item_cuts e s kind (Suc j + k) (ps ! k))" for n
      using False by (auto simp: Suc_le_eq less_Suc_eq_le intro: exI [of _ "Suc _"]) (metis Suc_le_mono add_Suc_right add_Suc_shift add.right_neutral not0_implies_Suc nth_Cons_Suc nth_Cons_0)
    show ?thesis
    proof (cases i)
      case 0
      with False show ?thesis
        by (auto simp: fs(1) fate_fits_def f_def item_outcome_def item_cuts_def)
    next
      case (Suc n)
      with Cons.IH [OF fs(2), of n] Cons.prems(2) show ?thesis
        by (simp add: fs(1) fate_fits_def ex cong: item_fate.case_cong)
    qed
  qed
qed simp

section \<open>Accounting of a flush\<close>

definition delivered_bytes :: "'p flush_env \<Rightarrow> ('p \<times> item_fate) list \<Rightarrow> int" where
  "delivered_bytes e pfs =
     sum_list (map (\<lambda>(p, f). if f = Delivered
       then (case fe_marshal e p of None \<Rightarrow> 0 | Some b \<Rightarrow> int (length b)) else 0) pfs)"

lemma sum_contributions:
  "sum_list (map (\<lambda>ev. stat_contribution ev (BytesOf (fk_type kind))) (concat (map (fate_events e kind) pfs))) =
     delivered_bytes e pfs"
  "sum_list (map (\<lambda>ev. stat_contribution ev (DropsOf (fk_type kind) ''retry_exhausted''))
     (concat (map (fate_events e kind) pfs))) = int (length (filter (\<lambda>pf. snd pf = Dropped) pfs))"
  by (induction pfs)
     (auto simp: fate_events_def delivered_bytes_def split: item_fate.splits option.splits)

lemma count_snd_zip:
  "length xs = length ys \<Longrightarrow> length (filter (\<lambda>p. snd p = y) (zip xs ys)) = length (filter (\<lambda>z. z = y) ys)"
  by (induction xs ys rule: list_induct2) auto

text \<open>C12: a flush empties the buffer and decides the fate of every item drained, in the order of
  the buffer: an item is delivered only when it was encoded and the send of its wire form
  succeeded; it is dropped only when that send failed and the context was still live; it is
  unencodable only when the encoding failed; and it is lost exactly when the send of an
  encoded item, itself or one before it, failed with the context done. The type's byte
  total grows by exactly the encoded sizes of the items delivered, its
  \<open>retry_exhausted\<close> count by exactly the number of items dropped.\<close>

theorem flush_accounts_for_every_item:
  assumes "flush_buffer e s kind buf st = (fates, buf', st')" and "sn_stats_ok st"
  shows "b_items buf' = [] \<and> length fates = length (b_items buf) \<and>
     stat_total st' (BytesOf (fk_type kind)) =
       wrap64 (stat_total st (BytesOf (fk_type kind)) + delivered_bytes e (zip (b_items buf) fates)) \<and>
     stat_total st' (DropsOf (fk_type kind) ''retry_exhausted'') =
       wrap64 (stat_total st (DropsOf (fk_type kind) ''retry_exhausted'') +
               int (length (filter (\<lambda>f. f = Dropped) fates))) \<and>
     (\<forall>i < length (b_items buf). let p = b_items buf ! i in
        (fates ! i = Delivered \<longrightarrow>
           (\<exists>b. fe_marshal e p = Some b \<and> send_item e s kind i (wire_form e kind b) = Sent)) \<and>
        (fates ! i = Dropped \<longrightarrow>
           (\<exists>b. fe_marshal e p = Some b \<and> send_item e s kind i (wire_form e kind b) \<noteq> Sent) \<and> \<not> fe_done e i) \<and>
        (fates ! i = Unencodable \<longrightarrow> fe_marshal e p = None) \<and>
        (fates ! i = Lost \<longleftrightarrow>
           (\<exists>k\<le>i. \<exists>b. fe_marshal e (b_items buf ! k) = Some b \<and>
              send_item e s kind k (wire_form e kind b) \<noteq> Sent \<and> fe_done e k)))"
proof -
  have f: "flush_items e s kind 0 (b_items buf) st = (fates, st')" "b_items buf' = []"
    using assms(1) by (auto simp: flush_buffer_def drain_def split: prod.splits)
  note ev = flush_items_events [OF f(1)]
  have "let p = b_items buf ! i in
        (fates ! i = Delivered \<longrightarrow>
           (\<exists>b. fe_marshal e p = Some b \<and> send_item e s kind i (wire_form e kind b) = Sent)) \<and>
        (fates ! i = Dropped \<longrightarrow>
           (\<exists>b. fe_marshal e p = Some b \<and> send_item e s kind i (wire_form e kind b) \<noteq> Sent) \<and> \<not> fe_done e i) \<and>
        (fates ! i = Unencodable \<longrightarrow> fe_marshal e p = None) \<and>
        (fates ! i = Lost \<longleftrightarrow>
           (\<exists>k\<le>i. \<exists>b. fe_marshal e (b_items buf ! k) = Some b \<and>
              send_item e s kind k (wire_form e kind b) \<noteq> Sent \<and> fe_done e k))"
    if "i < length (b_items buf)" for i
    using flush_items_fates [OF f(1) that]
    by (auto simp: Let_def fate_fits_def item_cuts_def item_sent_def)
  with f ev assms(2) show ?thesis
    by (simp add: apply_events_total sum_contributions count_snd_zip del: stat_total.simps)
qed

definition demo_flush_env :: "string flush_env" where
  "demo_flush_env =
     \<lparr>fe_clients = \<lambda>j i q. ServerResponse (if j = 0 then 200 else 500) [], fe_cancel = \<lambda>j k. False,
      fe_done = \<lambda>j. False, fe_marshal = Some, fe_compress = \<lambda>b. b\<rparr>"

definition demo_sender :: "unit sender" where
  "demo_sender = \<lparr>sd_server_url = ''http://w'', sd_token = ''t'', sd_transport = Plain\<rparr>"

lemma demo_flush:
  "flush_buffer demo_flush_env demo_sender flush_rpc_kind \<lparr>b_items = [''ab'', ''c''], b_max_size = 5\<rparr> (new_sn_stats 0) =
     ([Delivered, Dropped], \<lparr>b_items = [], b_max_size = 5\<rparr>,
      record_drop ''rpc'' ''retry_exhausted'' (record_sent ''rpc'' 2 2 (new_sn_stats 0)))"
  by code_simp

theorem flush_accounts_for_every_item_witness:
  "\<exists>st'. stat_total st' (BytesOf ''rpc'') = 2 \<and> stat_total st' (DropsOf ''rpc'' ''retry_exhausted'') = 1 \<and>
     snd (snd (flush_buffer demo_flush_env demo_sender flush_rpc_kind
       \<lparr>b_items = [''ab'', ''c''], b_max_size = 5\<rparr> (new_sn_stats 0))) = st' \<and>
     send_item demo_flush_env demo_sender flush_rpc_kind 0 ''ab'' = Sent \<and>
     send_item demo_flush_env demo_sender flush_rpc_kind 1 ''c'' \<noteq> Sent"
proof -
  have z: "stat_total (new_sn_stats 0) k = 0" for k
    by (cases k) (simp_all add: get_or_create_def new_sn_stats_def zero_sn_entry_def count_of_def)
  have o: "sn_stats_ok (new_sn_stats 0)" by simp
  have w: "wire_form demo_flush_env flush_rpc_kind b = b" "fe_marshal demo_flush_env b = Some b" for b
    by (simp_all add: wire_form_def flush_rpc_kind_def demo_flush_env_def)
  note t = flush_accounts_for_every_item [OF demo_flush o]
  have i: "send_item demo_flush_env demo_sender flush_rpc_kind 0 ''ab'' = Sent"
    "send_item demo_flush_env demo_sender flush_rpc_kind 1 ''c'' \<noteq> Sent"
    using t [THEN conjunct2, THEN conjunct2, THEN conjunct2, THEN conjunct2, rule_format, of 0]
      t [THEN conjunct2, THEN conjunct2, THEN conjunct2, THEN conjunct2, rule_format, of 1]
    by (auto simp: Let_def w)
  have d: "delivered_bytes demo_flush_env (zip [''ab'', ''c''] [Delivered, Dropped]) = 2"
    by (simp add: delivered_bytes_def w)
  have k: "fk_type flush_rpc_kind = ''rpc''" by (simp add: flush_rpc_kind_def)
  show ?thesis
    using t i d unfolding demo_flush k by (simp add: z int64_range_def del: stat_total.simps)
qed

section \<open>The invariant of the main loop\<close>

definition buffer_within :: "int \<Rightarrow> 'p buffer option \<Rightarrow> bool" where
  "buffer_within n buf \<longleftrightarrow> (case buf of None \<Rightarrow> True | Some b \<Rightarrow> buffer_ok b \<and> b_max_size b = n)"

definition app_inv :: "('r, 'l, 'm) app \<Rightarrow> bool" where
  "app_inv a \<longleftrightarrow>
     sn_stats_ok (ap_stats a) \<and>
     buffer_within rpc_buffer_size (ap_rpc a) \<and> buffer_within logs_buffer_size (ap_logs a) \<and>
     buffer_within resources_buffer_size (ap_resources a) \<and>
     buffer_within metadata_buffer_size (ap_metadata a) \<and> buffer_within self_buffer_size (ap_self a)"

lemma record_ok:
  "sn_stats_ok st \<Longrightarrow> sn_stats_ok (record_sent typ u w st)"
  "sn_stats_ok st \<Longrightarrow> sn_stats_ok (record_drop typ r st)"
  using sns.ok_event [of st "SentEvent typ u w"] sns.ok_event [of st "DropEvent typ r"] by simp_all

lemma wire_opt_ok:
  assumes "wire_opt name p buf st = (buf', st')" and "buffer_within n buf" and "sn_stats_ok st"
  shows "buffer_within n buf' \<and> sn_stats_ok st'"
  using assms bf.ok_push [of _ p]
  by (auto simp: wire_opt_def wire_buffered_def buffer_within_def Let_def record_ok
      split: option.splits prod.splits)
     (auto simp: push_def Let_def buffer_ok_def)

lemma flush_opt_ok:
  assumes "flush_opt e s kind buf st = (buf', st')" and "buffer_within n buf" and "sn_stats_ok st"
  shows "buffer_within n buf' \<and> sn_stats_ok st'"
proof (cases buf)
  case (Some b)
  obtain fates st1 where f: "flush_items e s kind 0 (b_items b) st = (fates, st1)" by (metis surj_pair)
  with flush_items_events [OF f] apply_events_ok [OF assms(3)] assms Some show ?thesis
    by (auto simp: flush_opt_def flush_buffer_def drain_def buffer_within_def buffer_ok_def)
qed (use assms in \<open>simp add: flush_opt_def buffer_within_def\<close>)

lemma app_step_inv: "app_inv a \<Longrightarrow> app_inv (app_step s ev a)"
  by (cases ev)
     (auto simp: app_inv_def otlp_send_def otlp_drop_def record_ok
        sns.ok_snapshot [where now = "_ :: gtime"]
        split: prod.splits dest: wire_opt_ok flush_opt_ok)

lemma new_app_inv: "app_inv (new_app now b1 b2 b3 b4 b5)"
  by (auto simp: app_inv_def new_app_def buffer_within_def new_buffer_def buffer_ok_def
      rpc_buffer_size_def logs_buffer_size_def resources_buffer_size_def metadata_buffer_size_def
      self_buffer_size_def)

lemma app_loop_inv: "app_inv a \<Longrightarrow> app_inv (app_loop s evs a)"
  by (induction evs arbitrary: a) (auto simp: app_loop_def app_step_inv)

lemma buffer_within_length:
  "buffer_within n buf \<Longrightarrow> int m = n \<Longrightarrow> pred_option (\<lambda>b. length (b_items b) \<le> m) buf"
  by (auto simp: buffer_within_def buffer_ok_def split: option.splits)

text \<open>C28: whatever collectors are enabled and in whatever order payloads, ticks and OTLP bodies
  arrive, at every moment of the main loop (after any number of events, before the final drain)
  and after the drain, every buffer holds at most its configured number of payloads (300
  for RPC, 500 for logs, 20, 10 and 5 for resources, metadata and self) and every counter
  is a 64-bit value.\<close>

theorem pipeline_bounded:
  "(let a = app_loop s evs (new_app now b1 b2 b3 b4 b5)
    in sn_stats_ok (ap_stats a) \<and>
       pred_option (\<lambda>b. length (b_items b) \<le> 300) (ap_rpc a) \<and> pred_option (\<lambda>b. length (b_items b) \<le> 500) (ap_logs a) \<and>
       pred_option (\<lambda>b. length (b_items b) \<le> 20) (ap_resources a) \<and>
       pred_option (\<lambda>b. length (b_items b) \<le> 10) (ap_metadata a) \<and> pred_option (\<lambda>b. length (b_items b) \<le> 5) (ap_self a)) \<and>
   app_inv (app_loop s evs (new_app now b1 b2 b3 b4 b5)) \<and>
   app_inv (app_run s evs er el e1 e2 e3 (new_app now b1 b2 b3 b4 b5))"
proof -
  have inv: "app_inv (app_loop s evs (new_app now b1 b2 b3 b4 b5))"
    by (rule app_loop_inv) (rule new_app_inv)
  have "app_inv (app_run s evs er el e1 e2 e3 (new_app now b1 b2 b3 b4 b5))"
    unfolding app_run_def app_drain_def by (intro app_loop_inv new_app_inv)
  then show ?thesis using inv
    by (auto simp: app_inv_def Let_def rpc_buffer_size_def logs_buffer_size_def resources_buffer_size_def
        metadata_buffer_size_def self_buffer_size_def intro: buffer_within_length)
qed

section \<open>Where the pipeline does not do what it means to\<close>

text \<open>An OTLP body whose sends all failed is counted as sent when the context is already done:
  the byte total grows by its length and no drop is recorded.\<close>

theorem failed_otlp_counted_as_sent:
  "fst (send_raw_with_retry (\<lambda>i q. ClientDoFailed) cancel s ''/otlp'' b ''application/x-protobuf''
          max_send_attempts initial_backoff) \<noteq> Sent \<and>
   otlp_send (\<lambda>i q. ClientDoFailed) cancel True s b st =
     record_sent ''otlp'' (int (length b)) (int (length b)) st"
proof -
  have "fst (send_raw_with_retry (\<lambda>i q. ClientDoFailed) cancel s ''/otlp'' b ''application/x-protobuf''
      max_send_attempts initial_backoff) \<noteq> Sent"
    unfolding send_raw_with_retry_def by (rule never_sent) (simp add: send_post_def)
  then show ?thesis by (simp add: otlp_send_def)
qed

text \<open>Log payloads evicted from a full buffer are counted under the type \<open>log\<close>, not under the
  type \<open>logs\<close> that the bytes sent and the exhausted retries of log payloads are counted
  under.\<close>

theorem log_evictions_mislabelled:
  "wire_opt ''log'' p (Some \<lparr>b_items = [q], b_max_size = 1\<rparr>) st =
     (Some \<lparr>b_items = [p], b_max_size = 1\<rparr>, record_drop ''log'' ''buffer_full'' st) \<and>
   fk_type flush_logs_kind = ''logs'' \<and>
   get_or_create ''logs'' (record_drop ''log'' ''buffer_full'' st) = get_or_create ''logs'' st"
  by (simp add: wire_opt_def wire_buffered_def push_def flush_logs_kind_def record_drop_def Let_def
      get_or_create_update)

text \<open>C40: when the send of an item fails with the context done, it is the first item of the flush to
  do so: this item and every item drained behind it are gone. The statistics
  are those of a flush of only the items before it, so none of them is recorded as sent or
  as dropped, and the buffer that the final drain flushes is empty.\<close>

theorem items_lost_at_shutdown:
  assumes "k < length (b_items buf)" and cut: "item_cuts e s kind k (b_items buf ! k)"
    and before: "\<And>i. i < k \<Longrightarrow> \<not> item_cuts e s kind i (b_items buf ! i)"
  shows "\<exists>fs st'. flush_buffer e s kind (buf\<lparr>b_items := take k (b_items buf)\<rparr>) st = (fs, buf\<lparr>b_items := []\<rparr>, st') \<and>
    length fs = k \<and> Lost \<notin> set fs \<and>
    flush_buffer e s kind buf st =
      (fs @ replicate (length (b_items buf) - k) Lost, buf\<lparr>b_items := []\<rparr>, st')"
proof -
  let ?ps = "take k (b_items buf)" and ?p = "b_items buf ! k" and ?qs = "drop (Suc k) (b_items buf)"
  obtain fs st' where f: "flush_items e s kind 0 ?ps st = (fs, st')" by (metis surj_pair)
  have split: "b_items buf = ?ps @ ?p # ?qs" using assms(1) by (simp add: id_take_nth_drop)
  have len: "length ?ps = k" "Suc (length ?qs) = length (b_items buf) - k" using assms(1) by auto
  have "\<not> item_cuts e s kind (0 + i) (?ps ! i)" if "i < length ?ps" for i using before that by simp
  note c = flush_items_cut [OF this, of "?p # ?qs" st, unfolded f]
  have "flush_items e s kind k (?p # ?qs) st' = (replicate (length (b_items buf) - k) Lost, st')"
    using cut len(2) by (simp only: flush_items_step if_True)
  with c len(1) have "flush_items e s kind 0 (b_items buf) st = (fs @ replicate (length (b_items buf) - k) Lost, st')"
    by (subst split) (simp del: flush_items.simps)
  moreover have "length fs = k" using flush_items_events [OF f] len(1) by simp
  ultimately show ?thesis using c f
    by (auto simp: flush_buffer_def drain_def simp del: flush_items.simps)
qed

definition demo_shutdown_env :: "string flush_env" where
  "demo_shutdown_env = demo_flush_env\<lparr>fe_done := \<lambda>j. True\<rparr>"

lemma demo_shutdown_sends:
  "send_item demo_shutdown_env demo_sender flush_rpc_kind 0 ''ab'' = Sent"
  "send_item demo_shutdown_env demo_sender flush_rpc_kind 1 ''c'' \<noteq> Sent"
  by code_simp+

lemma demo_shutdown:
  "\<not> item_cuts demo_shutdown_env demo_sender flush_rpc_kind 0 ''ab''"
  "item_cuts demo_shutdown_env demo_sender flush_rpc_kind 1 ''c''"
  using demo_shutdown_sends
  by (simp_all add: item_cuts_def item_sent_def wire_form_def flush_rpc_kind_def)
     (simp_all add: demo_shutdown_env_def demo_flush_env_def)

theorem items_lost_at_shutdown_witness:
  "\<exists>f st'. f \<noteq> Lost \<and> flush_buffer demo_shutdown_env demo_sender flush_rpc_kind
       \<lparr>b_items = [''ab'', ''c'', ''d''], b_max_size = 5\<rparr> (new_sn_stats 0) =
     ([f, Lost, Lost], \<lparr>b_items = [], b_max_size = 5\<rparr>, st')"
proof -
  let ?buf = "\<lparr>b_items = [''ab'', ''c'', ''d''], b_max_size = 5\<rparr>"
  have k: "1 < length (b_items ?buf)" by simp
  have c: "item_cuts demo_shutdown_env demo_sender flush_rpc_kind 1 (b_items ?buf ! 1)"
    using demo_shutdown(2) by simp
  have n: "\<not> item_cuts demo_shutdown_env demo_sender flush_rpc_kind i (b_items ?buf ! i)" if "i < 1" for i :: nat
    using demo_shutdown(1) that by simp
  obtain fs st' where f: "length fs = 1" "Lost \<notin> set fs" "flush_buffer demo_shutdown_env demo_sender flush_rpc_kind ?buf (new_sn_stats 0) =
      (fs @ replicate 2 Lost, \<lparr>b_items = [], b_max_size = 5\<rparr>, st')"
    using items_lost_at_shutdown [OF k c n, of "new_sn_stats 0"] by (auto simp: numeral_2_eq_2)
  moreover obtain f where "fs = [f]" using f(1) by (cases fs) auto
  ultimately show ?thesis by (simp add: numeral_2_eq_2)
qed

end
