(* ===== verification/Log_Source.thy ===== *)
theory Log_Source
  imports Vm_Lines Logger
begin

text \<open>
  Log sources (\<open>internal/sentinel/logs/source.go\<close>, \<open>docker.go\<close>,
  \<open>journald_linux_cgo.go\<close>): normalising one raw line, reading its level, and what a tail
  makes of the bytes or journal entries it is given. The Docker and journal clients are
  outside the model: a Docker tail takes the bytes of the demultiplexed stream, a journal
  tail the MESSAGE fields of the entries. Every line has its own clock reading.
\<close>

section \<open>One line\<close>

record log_line =
  ll_level :: string
  ll_raw :: string

definition log_levels :: "string list" where
  "log_levels = [''debug'', ''info'', ''warn'', ''error'']"

definition parse_line_level :: "string \<Rightarrow> string" where
  "parse_line_level raw =
     (case unmarshal (dec_struct (\<lambda>ms. dec_field ms ''level'' dec_string)) [] raw of
        None \<Rightarrow> ''info''
      | Some level \<Rightarrow>
          if level \<in> set log_levels then level else ''info'')"

definition unix_seconds_f64 :: "gtime \<Rightarrow> float64" where
  "unix_seconds_f64 now = f64_val (f64_of_int (unix_nano now) / 10 ^ 9)"

text \<open>\<open>strconv.FormatFloat(x, 'f', -1, 64)\<close>.\<close>

definition format_f64_plain :: "float64 \<Rightarrow> string" where
  "format_f64_plain x =
     (if x = 0 then ''0''
      else
        (let (d, k) = (case shortest_decimal \<bar>x\<bar> of Some dk \<Rightarrow> dk | None \<Rightarrow> (0, 0))
         in (if x < 0 then ''-'' else []) @ plain_decimal d k))"

definition wrap_as_sentinel_raw :: "string \<Rightarrow> gtime \<Rightarrow> string" where
  "wrap_as_sentinel_raw raw now =
     marshal_entries
       [(''level'', quote_string ''info''), (''ts'', encode_f64 (unix_seconds_f64 now)),
        (''module'', quote_string ''sentinel-raw''), (''msg'', quote_string raw)]"

definition has_key :: "string \<Rightarrow> (string \<times> 'a) list \<Rightarrow> bool" where
  "has_key k m \<longleftrightarrow> map_of m k \<noteq> None"

definition fill_key :: "string \<Rightarrow> string \<Rightarrow> (string \<times> string) list \<Rightarrow> (string \<times> string) list" where
  "fill_key k v m = (if has_key k m then m else AList.update k v m)"

definition fill_fields :: "gtime \<Rightarrow> (string \<times> string) list \<Rightarrow> (string \<times> string) list" where
  "fill_fields now obj =
     fill_key ''module'' (quote_string ''unknown'')
       (fill_key ''msg'' (quote_string [])
         (fill_key ''level'' (quote_string ''info'')
           (fill_key ''ts'' (format_f64_plain (unix_seconds_f64 now)) obj)))"

definition mandatory_fields :: "string list" where
  "mandatory_fields = [''ts'', ''level'', ''msg'', ''module'']"

definition ensure_json :: "string \<Rightarrow> gtime \<Rightarrow> string option" where
  "ensure_json raw now =
     (if trim_space raw = [] then None
      else if \<not> json_valid raw then Some (wrap_as_sentinel_raw raw now)
      else
        (case unmarshal_raw_map raw of
           Some (Some obj) \<Rightarrow>
             if list_all (\<lambda>k. has_key k obj) mandatory_fields then Some raw
             else Some (marshal_raw_map (Some (fill_fields now obj)))
         | _ \<Rightarrow> Some (wrap_as_sentinel_raw raw now)))"

definition line_of :: "string \<Rightarrow> gtime \<Rightarrow> log_line option" where
  "line_of raw now =
     map_option (\<lambda>l. \<lparr>ll_level = parse_line_level l, ll_raw = l\<rparr>) (ensure_json raw now)"

section \<open>Docker\<close>

datatype log_source = DockerSource string duration | JournaldSource string

definition new_source :: "string \<Rightarrow> string \<Rightarrow> string \<Rightarrow> duration \<Rightarrow> log_source option" where
  "new_source source_type container_name unit resume_lookback =
     (if source_type = ''docker'' then Some (DockerSource container_name resume_lookback)
      else if source_type = ''journald'' then Some (JournaldSource (trim_suffix unit ''.service''))
      else None)"

record logs_options =
  lo_follow :: bool
  lo_stdout :: bool
  lo_stderr :: bool
  lo_since :: string
  lo_tail :: string

definition build_logs_options :: "duration \<Rightarrow> gtime \<Rightarrow> logs_options" where
  "build_logs_options lookback now =
     (let opts = \<lparr>lo_follow = True, lo_stdout = True, lo_stderr = True, lo_since = [], lo_tail = []\<rparr>
      in if 0 < lookback
         then opts\<lparr>lo_since := format_int (time_add now (- lookback) div second)\<rparr>
         else opts\<lparr>lo_tail := ''0''\<rparr>)"

definition max_line_bytes :: nat where
  "max_line_bytes = 1048576"

text \<open>
  \<open>bufio.Scanner\<close> over the stream: the lines without their terminator (and a carriage
  return before it); it stops with \<open>ErrTooLong\<close> at a line that does not fit its buffer.
\<close>

definition strip_cr :: "string \<Rightarrow> string" where
  "strip_cr l = (if l \<noteq> [] \<and> last l = CHR 0x0D then butlast l else l)"

definition stream_lines :: "string \<Rightarrow> string list" where
  "stream_lines s =
     (let ls = split_on (CHR 0x0A) s in if last ls = [] then butlast ls else ls)"

fun scan_lines :: "string list \<Rightarrow> string list \<times> bool" where
  "scan_lines [] = ([], False)"
| "scan_lines (l # ls) =
     (if max_line_bytes \<le> length l then ([], True)
      else (strip_cr l # fst (scan_lines ls), snd (scan_lines ls)))"

text \<open>The lines a tail sends for the stream's bytes; \<open>clock i\<close> is the reading for line \<open>i\<close>.\<close>

fun tail_lines :: "(nat \<Rightarrow> gtime) \<Rightarrow> nat \<Rightarrow> string list \<Rightarrow> log_line list" where
  "tail_lines clock i [] = []"
| "tail_lines clock i (raw # raws) =
     (case line_of raw (clock i) of None \<Rightarrow> [] | Some l \<Rightarrow> [l]) @ tail_lines clock (Suc i) raws"

datatype tail_end = StreamEnded | LineTooLong | ScanFailed

definition docker_tail :: "(nat \<Rightarrow> gtime) \<Rightarrow> string \<Rightarrow> bool \<Rightarrow> log_line list \<times> tail_end" where
  "docker_tail clock stream fails =
     (let (ls, too_long) = scan_lines (stream_lines stream)
      in (tail_lines clock 0 ls,
          if too_long then LineTooLong else if fails then ScanFailed else StreamEnded))"

definition journald_tail :: "(nat \<Rightarrow> gtime) \<Rightarrow> string option list \<Rightarrow> log_line list" where
  "journald_tail clock entries =
     tail_lines clock 0 (concat (map (\<lambda>m. case m of None \<Rightarrow> [] | Some s \<Rightarrow> [s]) entries))"

section \<open>Facts\<close>

lemma map_of_fill_key:
  "map_of (fill_key k v m) k' = (if k' = k \<and> map_of m k = None then Some v else map_of m k')"
  by (auto simp: fill_key_def has_key_def update_conv')

text \<open>Filling keeps every field the line had and adds the missing mandatory ones.\<close>

lemma map_of_fill_fields:
  "map_of (fill_fields now obj) k =
     (case map_of obj k of
        Some v \<Rightarrow> Some v
      | None \<Rightarrow>
          if k = ''ts'' then Some (format_f64_plain (unix_seconds_f64 now))
          else if k = ''level'' then Some (quote_string ''info'')
          else if k = ''msg'' then Some (quote_string [])
          else if k = ''module'' then Some (quote_string ''unknown'')
          else None)"
  by (auto simp: fill_fields_def map_of_fill_key split: option.splits)

lemma parse_line_level_range: "parse_line_level raw \<in> set log_levels"
  by (simp add: parse_line_level_def log_levels_def split: option.split)

lemma line_of_level: "line_of raw now = Some l \<Longrightarrow> ll_level l \<in> set log_levels"
  using parse_line_level_range by (auto simp: line_of_def)

lemma tail_lines_level:
  "l \<in> set (tail_lines clock i raws) \<Longrightarrow> ll_level l \<in> set log_levels"
  by (induction raws arbitrary: i) (auto dest: line_of_level line_of_level [OF sym] split: option.splits)

end
