(* ===== verification/Log_Collector.thy ===== *)
theory Log_Collector
  imports Log_Source
begin

text \<open>
  The log collector (\<open>internal/sentinel/logs/collector.go\<close>): lines at or above the minimum
  level are accumulated per level and flushed as one payload per level when enough bytes
  have accumulated, on a ticker and at shutdown. A flush hands the payloads to the output
  channel one by one until the context is done: \<open>accepted\<close> is the number handed over before
  that (all of them while the context is alive). \<open>accumulated\<close> is an association list in
  the order \<open>range\<close> visits it.
\<close>

record batch =
  bt_level :: string
  bt_lines :: "string list"

record log_collector =
  lc_min_level :: int
  lc_batch_size :: int
  lc_accumulated :: "(string \<times> string list) list"
  lc_total_bytes :: int
  lc_out :: "batch list" \<comment> \<open>payloads handed to the output channel so far\<close>

definition new_log_collector :: "string \<Rightarrow> int \<Rightarrow> log_collector" where
  "new_log_collector min_level batch_size =
     \<lparr>lc_min_level = level_rank min_level, lc_batch_size = batch_size, lc_accumulated = [],
      lc_total_bytes = 0, lc_out = []\<rparr>"

definition batches :: "(string \<times> string list) list \<Rightarrow> batch list" where
  "batches acc = map (\<lambda>(level, ls). \<lparr>bt_level = level, bt_lines = ls\<rparr>) acc"

definition log_flush :: "nat \<Rightarrow> log_collector \<Rightarrow> log_collector" where
  "log_flush accepted c =
     (let out = lc_out c @ take accepted (batches (lc_accumulated c))
      in if accepted < length (lc_accumulated c) then c\<lparr>lc_out := out\<rparr>
         else c\<lparr>lc_out := out, lc_accumulated := [], lc_total_bytes := 0\<rparr>)"

definition add_line :: "log_line \<Rightarrow> log_collector \<Rightarrow> log_collector" where
  "add_line l c =
     (let old = (case map_of (lc_accumulated c) (ll_level l) of None \<Rightarrow> [] | Some ls \<Rightarrow> ls)
      in c\<lparr>lc_accumulated := AList.update (ll_level l) (old @ [ll_raw l]) (lc_accumulated c),
           lc_total_bytes := wrap64 (lc_total_bytes c + int (length (ll_raw l)))\<rparr>)"

datatype log_event = LineArrived log_line nat | BatchTimeout nat

fun log_step :: "log_event \<Rightarrow> log_collector \<Rightarrow> log_collector" where
  "log_step (LineArrived l accepted) c =
     (if level_rank (ll_level l) < lc_min_level c then c
      else
        (let c1 = add_line l c
         in if lc_batch_size c1 \<le> lc_total_bytes c1 then log_flush accepted c1 else c1))"
| "log_step (BatchTimeout accepted) c = log_flush accepted c"

text \<open>The loop: events while the context is alive, then the last flush.\<close>

definition log_run :: "log_event list \<Rightarrow> nat \<Rightarrow> log_collector \<Rightarrow> log_collector" where
  "log_run evs accepted c = log_flush accepted (foldl (\<lambda>c ev. log_step ev c) c evs)"

section \<open>Conservation\<close>

definition lines_at :: "string \<Rightarrow> (string \<times> string list) list \<Rightarrow> string list" where
  "lines_at level acc = (case map_of acc level of None \<Rightarrow> [] | Some ls \<Rightarrow> ls)"

definition emitted_at :: "string \<Rightarrow> batch list \<Rightarrow> string list" where
  "emitted_at level bs = concat (map bt_lines (filter (\<lambda>b. bt_level b = level) bs))"

definition kept_line :: "int \<Rightarrow> string \<Rightarrow> log_event \<Rightarrow> string list" where
  "kept_line min_level level ev =
     (case ev of
        LineArrived l _ \<Rightarrow>
          if ll_level l = level \<and> min_level \<le> level_rank level then [ll_raw l] else []
      | BatchTimeout _ \<Rightarrow> [])"

text \<open>Every flush while the context is alive hands over all levels (there are four).\<close>

definition alive :: "log_event \<Rightarrow> bool" where
  "alive ev \<longleftrightarrow> (case ev of LineArrived l n \<Rightarrow> 4 \<le> n \<and> ll_level l \<in> set log_levels
                 | BatchTimeout n \<Rightarrow> 4 \<le> n)"

definition collector_ok :: "log_collector \<Rightarrow> bool" where
  "collector_ok c \<longleftrightarrow>
     distinct_keys (lc_accumulated c) \<and>
     fst ` set (lc_accumulated c) \<subseteq> set log_levels"

lemma emitted_at_append: "emitted_at level (xs @ ys) = emitted_at level xs @ emitted_at level ys"
  by (simp add: emitted_at_def)

lemma emitted_at_batches: "distinct_keys acc \<Longrightarrow> emitted_at level (batches acc) = lines_at level acc"
proof (induction acc)
  case (Cons kv acc)
  obtain k ls where kv: "kv = (k, ls)" by (cases kv)
  show ?case
  proof (cases "k = level")
    case True
    with Cons.prems have "filter (\<lambda>b. bt_level b = level) (batches acc) = []"
      by (auto simp: kv batches_def filter_empty_conv image_iff)
    with True show ?thesis by (simp add: kv batches_def emitted_at_def lines_at_def)
  next
    case False
    with Cons show ?thesis by (simp add: kv batches_def emitted_at_def lines_at_def)
  qed
qed (simp add: batches_def emitted_at_def lines_at_def)

lemma collector_ok_length: "collector_ok c \<Longrightarrow> length (lc_accumulated c) \<le> 4"
proof -
  assume ok: "collector_ok c"
  have "length (lc_accumulated c) = card (fst ` set (lc_accumulated c))"
    using ok by (metis collector_ok_def distinct_card length_map set_map)
  also have "\<dots> \<le> card (set log_levels)"
    using ok by (intro card_mono) (simp_all add: collector_ok_def)
  finally show ?thesis by (simp add: log_levels_def)
qed

lemma flush_all:
  "collector_ok c \<Longrightarrow> 4 \<le> n \<Longrightarrow>
   log_flush n c = c\<lparr>lc_out := lc_out c @ batches (lc_accumulated c), lc_accumulated := [], lc_total_bytes := 0\<rparr>"
  using collector_ok_length [of c] by (simp add: log_flush_def Let_def batches_def)

lemma lines_at_add: "lines_at level (lc_accumulated (add_line l c)) =
    lines_at level (lc_accumulated c) @ (if ll_level l = level then [ll_raw l] else [])"
  by (auto simp: add_line_def lines_at_def Let_def update_conv')

lemma add_line_sel [simp]:
  "lc_out (add_line l c) = lc_out c" "lc_min_level (add_line l c) = lc_min_level c"
  "lc_batch_size (add_line l c) = lc_batch_size c"
  by (simp_all add: add_line_def Let_def)

lemma add_line_ok:
  "collector_ok c \<Longrightarrow> ll_level l \<in> set log_levels \<Longrightarrow> collector_ok (add_line l c)"
  by (auto simp: collector_ok_def add_line_def Let_def distinct_update dom_update)

lemma log_step_conserves:
  assumes "collector_ok c" and "alive ev"
  shows "collector_ok (log_step ev c) \<and> lc_min_level (log_step ev c) = lc_min_level c \<and>
    emitted_at level (lc_out (log_step ev c)) @ lines_at level (lc_accumulated (log_step ev c)) =
    emitted_at level (lc_out c) @ lines_at level (lc_accumulated c) @ kept_line (lc_min_level c) level ev"
proof (cases ev)
  case (BatchTimeout n)
  with assms show ?thesis
    by (simp add: alive_def flush_all emitted_at_append emitted_at_batches kept_line_def collector_ok_def
        lines_at_def)
next
  case (LineArrived l n)
  show ?thesis
  proof (cases "level_rank (ll_level l) < lc_min_level c")
    case True
    with assms LineArrived show ?thesis by (auto simp: kept_line_def)
  next
    case False
    have ok: "collector_ok (add_line l c)" and n: "4 \<le> n"
      using assms LineArrived add_line_ok by (auto simp: alive_def)
    have e: "emitted_at level (batches (lc_accumulated (add_line l c))) = lines_at level (lc_accumulated (add_line l c))"
      using ok by (simp add: emitted_at_batches collector_ok_def)
    from False LineArrived ok n e show ?thesis
      by (auto simp: Let_def flush_all emitted_at_append lines_at_add kept_line_def)
         (auto simp: collector_ok_def lines_at_def)
  qed
qed

lemma log_events_conserve:
  "collector_ok c \<Longrightarrow> list_all alive evs \<Longrightarrow>
   collector_ok (foldl (\<lambda>c ev. log_step ev c) c evs) \<and>
   emitted_at level (lc_out (foldl (\<lambda>c ev. log_step ev c) c evs)) @
     lines_at level (lc_accumulated (foldl (\<lambda>c ev. log_step ev c) c evs)) =
   emitted_at level (lc_out c) @ lines_at level (lc_accumulated c) @
     concat (map (kept_line (lc_min_level c) level) evs)"
proof (induction evs arbitrary: c)
  case (Cons ev evs)
  note s = log_step_conserves [of c ev level]
  from Cons.IH [of "log_step ev c"] s Cons.prems show ?case by simp
qed simp

text \<open>C19: while the context is alive, and if the last flush at shutdown is accepted in full, every
  line at or above the minimum level reaches the output exactly once, under its own level
  and in the order it arrived; lines below the minimum level never do.\<close>

theorem log_lines_conserved:
  assumes "list_all alive evs" and "4 \<le> accepted"
  shows "emitted_at level (lc_out (log_run evs accepted (new_log_collector min_level batch_size))) =
     concat (map (kept_line (level_rank min_level) level) evs)"
proof -
  let ?c = "new_log_collector min_level batch_size"
  let ?c1 = "foldl (\<lambda>c ev. log_step ev c) ?c evs"
  have ok: "collector_ok ?c" by (simp add: new_log_collector_def collector_ok_def)
  note run = log_events_conserve [OF ok assms(1), of level]
  then have "emitted_at level (batches (lc_accumulated ?c1)) = lines_at level (lc_accumulated ?c1)"
    by (simp add: emitted_at_batches collector_ok_def)
  with run assms(2) show ?thesis
    by (simp add: log_run_def flush_all emitted_at_append)
       (simp add: new_log_collector_def emitted_at_def lines_at_def)
qed

theorem log_lines_conserved_witness:
  "emitted_at ''warn'' (lc_out (log_run
     [LineArrived \<lparr>ll_level = ''warn'', ll_raw = ''a''\<rparr> 4, LineArrived \<lparr>ll_level = ''debug'', ll_raw = ''b''\<rparr> 4,
      BatchTimeout 4, LineArrived \<lparr>ll_level = ''warn'', ll_raw = ''c''\<rparr> 4] 4
     (new_log_collector ''info'' 1000))) = [''a'', ''c'']"
  by (subst log_lines_conserved) (simp_all add: alive_def kept_line_def level_rank_def log_levels_def)

text \<open>A flush that the end of the context interrupts keeps the batches it has already handed
  over, so the flush at shutdown hands them over again: the first level's lines can reach
  the output twice.\<close>

theorem interrupted_flush_duplicates:
  "map bt_level (lc_out (log_run [BatchTimeout 1] 2
     ((new_log_collector ''info'' 1000)\<lparr>lc_accumulated := [(''warn'', [x]), (''error'', [y])]\<rparr>))) =
   [''warn'', ''warn'', ''error'']"
  by (simp add: log_run_def log_flush_def batches_def new_log_collector_def)

end
