(* ===== verification/Rpc_Collector.thy ===== *)
theory Rpc_Collector
  imports Fwd_Metrics Delta Http
begin

text \<open>
  The sentinel's RPC client and collector (\<open>internal/sentinel/rpc/client.go\<close>,
  \<open>collector.go\<close>): the JSON-RPC envelope, and one poll as a function from the node's answers
  and the clock readings to the payload emitted and the collector's next state. The answers
  (\<open>fetch\<close>) are indexed by the position of the call in the poll, as the same path may be
  asked twice.
\<close>

section \<open>The client\<close>

datatype fetch_outcome = FetchFailed | Fetched int string

record rpc_envelope =
  env_result :: string
  env_error :: "(int \<times> string) option"

definition dec_rpc_envelope :: "rpc_envelope decoder" where
  "dec_rpc_envelope = dec_struct (\<lambda>ms s. do {
     r \<leftarrow> dec_field ms ''result'' dec_raw (env_result s);
     e \<leftarrow> dec_field ms ''error'' (dec_ptr (dec_struct (\<lambda>ms q. do {
            c \<leftarrow> dec_field ms ''code'' dec_int64 (fst q);
            m \<leftarrow> dec_field ms ''message'' dec_string (snd q);
            Some (c, m) })) (0, [])) (env_error s);
     Some \<lparr>env_result = r, env_error = e\<rparr> })"

text \<open>\<open>json.Decoder.Decode\<close> reads the first value of the body; \<open>None\<close> is any error.\<close>

definition rpc_get :: "(string \<Rightarrow> fetch_outcome) \<Rightarrow> string \<Rightarrow> string option" where
  "rpc_get fetch path =
     (case fetch path of
        FetchFailed \<Rightarrow> None
      | Fetched status body \<Rightarrow>
          if status \<noteq> status_ok then None
          else
            (case json_first body of
               None \<Rightarrow> None
             | Some (rv, _) \<Rightarrow>
                 (case dec_rpc_envelope rv \<lparr>env_result = [], env_error = None\<rparr> of
                    None \<Rightarrow> None
                  | Some env \<Rightarrow> (case env_error env of Some _ \<Rightarrow> None | None \<Rightarrow> Some (env_result env)))))"

definition validators_path :: "int \<Rightarrow> string" where
  "validators_path h = ''/validators?height='' @ format_int h"

definition block_path :: "int \<Rightarrow> string" where
  "block_path h = ''/block?height='' @ format_int h"

section \<open>The collector\<close>

record rpc_collector =
  rc_delta :: delta
  rc_dump_interval :: duration
  rc_genesis_refresh :: duration
  rc_validators_refresh :: duration
  rc_last_height :: int
  rc_last_dump :: gtime
  rc_last_genesis_sent :: gtime
  rc_last_validators_sent :: gtime
  rc_genesis_failed :: int

definition default_refresh_interval :: duration where
  "default_refresh_interval = 12 * hour"

definition new_rpc_collector :: "duration \<Rightarrow> duration \<Rightarrow> duration \<Rightarrow> rpc_collector" where
  "new_rpc_collector dump_interval genesis_refresh validators_refresh =
     \<lparr>rc_delta = new_delta, rc_dump_interval = dump_interval,
      rc_genesis_refresh = (if genesis_refresh \<le> 0 then default_refresh_interval else genesis_refresh),
      rc_validators_refresh =
        (if validators_refresh \<le> 0 then default_refresh_interval else validators_refresh),
      rc_last_height = 0, rc_last_dump = time_zero, rc_last_genesis_sent = time_zero,
      rc_last_validators_sent = time_zero, rc_genesis_failed = 0\<rparr>"

record poll_clock =
  pk_collected :: gtime
  pk_dump_since :: gtime
  pk_dump_now :: gtime
  pk_new_validators :: gtime
  pk_validators_since :: gtime
  pk_validators_now :: gtime
  pk_genesis_since :: gtime
  pk_genesis_now :: gtime

type_synonym poll_state = "(string \<times> string) list \<times> rpc_collector"

definition parse_height :: "string \<Rightarrow> int" where
  "parse_height raw =
     (case unmarshal (dec_struct (\<lambda>ms. dec_field ms ''sync_info''
              (dec_struct (\<lambda>ms. dec_field ms ''latest_block_height'' dec_number)))) [] raw of
        None \<Rightarrow> 0
      | Some num \<Rightarrow> (case parse_int64 num of None \<Rightarrow> 0 | Some h \<Rightarrow> h))"

text \<open>\<open>Changed\<close> on the collector's filter, and the emission of a changed value.\<close>

definition emit_if_changed :: "string \<Rightarrow> string \<Rightarrow> poll_state \<Rightarrow> bool \<times> poll_state" where
  "emit_if_changed key raw ps =
     (let (data, c) = ps; (new, d) = changed key raw (rc_delta c); c' = c\<lparr>rc_delta := d\<rparr>
      in (new, if new then AList.update key raw data else data, c'))"

definition poll_status :: "(nat \<Rightarrow> string \<Rightarrow> fetch_outcome) \<Rightarrow> poll_state \<Rightarrow> bool \<times> int \<times> poll_state" where
  "poll_status fetch ps =
     (case rpc_get (fetch 0) ''/status'' of
        None \<Rightarrow> (False, 0, ps)
      | Some raw \<Rightarrow> (True, parse_height raw, snd (emit_if_changed ''status'' raw ps)))"

definition poll_net_info :: "(nat \<Rightarrow> string \<Rightarrow> fetch_outcome) \<Rightarrow> poll_state \<Rightarrow> bool \<times> poll_state" where
  "poll_net_info fetch ps =
     (case rpc_get (fetch 1) ''/net_info'' of
        None \<Rightarrow> (False, ps)
      | Some raw \<Rightarrow> (True, snd (emit_if_changed ''net_info'' raw ps)))"

definition poll_mempool :: "(nat \<Rightarrow> string \<Rightarrow> fetch_outcome) \<Rightarrow> poll_state \<Rightarrow> bool \<times> poll_state" where
  "poll_mempool fetch ps =
     (case rpc_get (fetch 2) ''/num_unconfirmed_txs'' of
        None \<Rightarrow> (False, ps)
      | Some raw \<Rightarrow> (True, AList.update ''num_unconfirmed_txs'' raw (fst ps), snd ps))"

definition poll_dump :: "(nat \<Rightarrow> string \<Rightarrow> fetch_outcome) \<Rightarrow> poll_clock \<Rightarrow> poll_state \<Rightarrow> poll_state" where
  "poll_dump fetch k ps =
     (if time_sub (pk_dump_since k) (rc_last_dump (snd ps)) < rc_dump_interval (snd ps) then ps
      else
        (case rpc_get (fetch 3) ''/dump_consensus_state'' of
           None \<Rightarrow> ps
         | Some raw \<Rightarrow>
             (let (new, data, c) = emit_if_changed ''dump_consensus_state'' raw ps
              in (data, c\<lparr>rc_last_dump := pk_dump_now k\<rparr>))))"

definition poll_new_validators ::
  "(nat \<Rightarrow> string \<Rightarrow> fetch_outcome) \<Rightarrow> poll_clock \<Rightarrow> int \<Rightarrow> poll_state \<Rightarrow> poll_state" where
  "poll_new_validators fetch k height ps =
     (case rpc_get (fetch 4) (validators_path height) of
        None \<Rightarrow> ps
      | Some raw \<Rightarrow>
          (let (new, data, c) = emit_if_changed ''validators'' raw ps
           in (data, if new then c\<lparr>rc_last_validators_sent := pk_new_validators k\<rparr> else c)))"

definition poll_block_data :: "(nat \<Rightarrow> string \<Rightarrow> fetch_outcome) \<Rightarrow> int \<Rightarrow> poll_state \<Rightarrow> poll_state" where
  "poll_block_data fetch height ps =
     (case rpc_get (fetch 5) (block_path height) of
        None \<Rightarrow> ps
      | Some raw \<Rightarrow> (AList.update ''block'' raw (fst ps), snd ps))"

definition poll_block ::
  "(nat \<Rightarrow> string \<Rightarrow> fetch_outcome) \<Rightarrow> poll_clock \<Rightarrow> int \<Rightarrow> poll_state \<Rightarrow> poll_state" where
  "poll_block fetch k height ps =
     (if rc_last_height (snd ps) < height \<and> 0 < height then
        poll_block_data fetch height
          (poll_new_validators fetch k height (fst ps, (snd ps)\<lparr>rc_last_height := height\<rparr>))
      else ps)"

definition poll_validators ::
  "(nat \<Rightarrow> string \<Rightarrow> fetch_outcome) \<Rightarrow> poll_clock \<Rightarrow> poll_state \<Rightarrow> poll_state" where
  "poll_validators fetch k ps =
     (if map_of (fst ps) ''validators'' = None \<and> 0 < rc_last_height (snd ps) \<and>
         rc_validators_refresh (snd ps) \<le>
           time_sub (pk_validators_since k) (rc_last_validators_sent (snd ps))
      then
        (case rpc_get (fetch 6) (validators_path (rc_last_height (snd ps))) of
           None \<Rightarrow> ps
         | Some raw \<Rightarrow>
             (AList.update ''validators'' raw (fst ps),
              (snd ps)\<lparr>rc_last_validators_sent := pk_validators_now k\<rparr>))
      else ps)"

definition poll_genesis ::
  "(nat \<Rightarrow> string \<Rightarrow> fetch_outcome) \<Rightarrow> poll_clock \<Rightarrow> poll_state \<Rightarrow> poll_state" where
  "poll_genesis fetch k ps =
     (if is_zero_time (rc_last_genesis_sent (snd ps)) \<or>
         rc_genesis_refresh (snd ps) \<le> time_sub (pk_genesis_since k) (rc_last_genesis_sent (snd ps))
      then
        (case rpc_get (fetch 7) ''/genesis'' of
           None \<Rightarrow> (fst ps, (snd ps)\<lparr>rc_genesis_failed := wrap64 (rc_genesis_failed (snd ps) + 1)\<rparr>)
         | Some raw \<Rightarrow>
             (AList.update ''genesis'' raw (fst ps),
              (snd ps)\<lparr>rc_last_genesis_sent := pk_genesis_now k, rc_genesis_failed := 0\<rparr>))
      else ps)"

definition collect ::
  "(nat \<Rightarrow> string \<Rightarrow> fetch_outcome) \<Rightarrow> poll_clock \<Rightarrow> rpc_collector \<Rightarrow> payload \<times> rpc_collector" where
  "collect fetch k c =
     (let (ok0, height, ps0) = poll_status fetch ([], c);
          (ok1, ps1) = poll_net_info fetch ps0;
          (ok2, ps2) = poll_mempool fetch ps1;
          ps3 = poll_dump fetch k ps2;
          ps4 = poll_block fetch k height ps3;
          ps5 = poll_validators fetch k ps4;
          (data, c') = poll_genesis fetch k ps5;
          reach = (if ok0 \<or> ok1 \<or> ok2 then ''1'' else ''0'')
      in (\<lparr>collected_at = pk_collected k, p_data = Some (AList.update ''rpc_reachable'' reach data)\<rparr>, c'))"

section \<open>What a poll reports\<close>

text \<open>What a stage may change: the entries of its own keys.\<close>

lemma emit_if_changed_data:
  "map_of (fst (snd (emit_if_changed key raw ps))) k' =
     (if k' = key \<and> fst (emit_if_changed key raw ps) then Some raw else map_of (fst ps) k')"
  by (simp add: emit_if_changed_def Let_def update_conv' split: prod.split)

lemma emit_if_changed_new:
  "fst (emit_if_changed key raw ps) \<longleftrightarrow> hash_at (rc_delta (snd ps)) key \<noteq> sha256 raw"
  by (simp add: emit_if_changed_def changed_def Let_def split: prod.split)

lemma emit_if_changed_delta:
  "hash_at (rc_delta (snd (snd (emit_if_changed key raw ps)))) k' =
     (if k' = key then sha256 raw else hash_at (rc_delta (snd ps)) k')"
  by (auto simp: emit_if_changed_def changed_def hash_at_def Let_def split: prod.split)

lemma emit_if_changed_height [simp]:
  "rc_last_height (snd (snd (emit_if_changed key raw ps))) = rc_last_height (snd ps)"
  by (simp add: emit_if_changed_def Let_def split: prod.split)

lemma poll_status_data:
  "map_of (fst (snd (snd (poll_status fetch ps)))) k' =
     (case rpc_get (fetch 0) ''/status'' of
        Some raw \<Rightarrow>
          if k' = ''status'' \<and> hash_at (rc_delta (snd ps)) ''status'' \<noteq> sha256 raw then Some raw
          else map_of (fst ps) k'
      | None \<Rightarrow> map_of (fst ps) k')"
  by (simp add: poll_status_def emit_if_changed_data emit_if_changed_new split: option.split)

lemma poll_status_state:
  "rc_last_height (snd (snd (snd (poll_status fetch ps)))) = rc_last_height (snd ps)"
  "k' \<noteq> ''status'' \<Longrightarrow>
   hash_at (rc_delta (snd (snd (snd (poll_status fetch ps))))) k' = hash_at (rc_delta (snd ps)) k'"
  by (simp_all add: poll_status_def emit_if_changed_delta split: option.split)

lemma poll_net_info_data:
  "map_of (fst (snd (poll_net_info fetch ps))) k' =
     (case rpc_get (fetch 1) ''/net_info'' of
        Some raw \<Rightarrow>
          if k' = ''net_info'' \<and> hash_at (rc_delta (snd ps)) ''net_info'' \<noteq> sha256 raw then Some raw
          else map_of (fst ps) k'
      | None \<Rightarrow> map_of (fst ps) k')"
  by (simp add: poll_net_info_def emit_if_changed_data emit_if_changed_new split: option.split)

lemma poll_net_info_height:
  "rc_last_height (snd (snd (poll_net_info fetch ps))) = rc_last_height (snd ps)"
  by (simp add: poll_net_info_def split: option.split)

lemma poll_mempool_data:
  "map_of (fst (snd (poll_mempool fetch ps))) k' =
     (case rpc_get (fetch 2) ''/num_unconfirmed_txs'' of
        Some raw \<Rightarrow> if k' = ''num_unconfirmed_txs'' then Some raw else map_of (fst ps) k'
      | None \<Rightarrow> map_of (fst ps) k')"
  by (simp add: poll_mempool_def update_conv' split: option.split)

lemma poll_mempool_state: "snd (snd (poll_mempool fetch ps)) = snd ps"
  by (simp add: poll_mempool_def split: option.split)

lemma poll_dump_data:
  "k' \<noteq> ''dump_consensus_state'' \<Longrightarrow> map_of (fst (poll_dump fetch k ps)) k' = map_of (fst ps) k'"
  by (simp add: poll_dump_def case_prod_unfold Let_def emit_if_changed_data split: option.split)

lemma poll_dump_height: "rc_last_height (snd (poll_dump fetch k ps)) = rc_last_height (snd ps)"
  by (simp add: poll_dump_def case_prod_unfold Let_def split: option.split)

lemma poll_new_validators_data:
  "k' \<noteq> ''validators'' \<Longrightarrow>
   map_of (fst (poll_new_validators fetch k height ps)) k' = map_of (fst ps) k'"
  by (simp add: poll_new_validators_def case_prod_unfold Let_def emit_if_changed_data split: option.split)

lemma poll_new_validators_height:
  "rc_last_height (snd (poll_new_validators fetch k height ps)) = rc_last_height (snd ps)"
  by (simp add: poll_new_validators_def case_prod_unfold Let_def split: option.split)

lemma poll_block_data_data:
  "map_of (fst (poll_block_data fetch height ps)) k' =
     (case rpc_get (fetch 5) (block_path height) of
        Some raw \<Rightarrow> if k' = ''block'' then Some raw else map_of (fst ps) k'
      | None \<Rightarrow> map_of (fst ps) k')"
  by (simp add: poll_block_data_def update_conv' split: option.split)

lemma poll_block_data_state: "snd (poll_block_data fetch height ps) = snd ps"
  by (simp add: poll_block_data_def split: option.split)

lemma poll_block_frame:
  "k' \<noteq> ''validators'' \<Longrightarrow> k' \<noteq> ''block'' \<Longrightarrow>
   map_of (fst (poll_block fetch k height ps)) k' = map_of (fst ps) k'"
  by (simp add: poll_block_def poll_block_data_data poll_new_validators_data split: option.split)

lemma poll_block_block:
  "map_of (fst (poll_block fetch k height ps)) ''block'' =
     (if rc_last_height (snd ps) < height \<and> 0 < height \<and> rpc_get (fetch 5) (block_path height) \<noteq> None
      then rpc_get (fetch 5) (block_path height) else map_of (fst ps) ''block'')"
  by (simp add: poll_block_def poll_block_data_data poll_new_validators_data split: option.split)

lemma poll_block_height:
  "rc_last_height (snd (poll_block fetch k height ps)) =
     (if rc_last_height (snd ps) < height \<and> 0 < height then height else rc_last_height (snd ps))"
  by (simp add: poll_block_def poll_block_data_state poll_new_validators_height)

lemma poll_validators_data:
  "k' \<noteq> ''validators'' \<Longrightarrow> map_of (fst (poll_validators fetch k ps)) k' = map_of (fst ps) k'"
  by (simp add: poll_validators_def update_conv' split: option.split)

lemma poll_validators_height: "rc_last_height (snd (poll_validators fetch k ps)) = rc_last_height (snd ps)"
  by (simp add: poll_validators_def split: option.split)

lemma poll_genesis_data:
  "k' \<noteq> ''genesis'' \<Longrightarrow> map_of (fst (poll_genesis fetch k ps)) k' = map_of (fst ps) k'"
  by (simp add: poll_genesis_def update_conv' split: option.split)

lemma poll_genesis_height: "rc_last_height (snd (poll_genesis fetch k ps)) = rc_last_height (snd ps)"
  by (simp add: poll_genesis_def split: option.split)

lemmas poll_data_simps =
  poll_status_data poll_net_info_data poll_mempool_data poll_dump_data poll_block_frame
  poll_block_block poll_validators_data poll_genesis_data

lemmas poll_state_simps =
  poll_status_state poll_net_info_height poll_mempool_state poll_dump_height poll_block_height
  poll_validators_height poll_genesis_height

text \<open>What a poll puts under a key of the payload.\<close>

definition polled_value :: "payload \<Rightarrow> string \<Rightarrow> string option" where
  "polled_value p key = (case p_data p of None \<Rightarrow> None | Some data \<Rightarrow> map_of data key)"

definition polled_height :: "(nat \<Rightarrow> string \<Rightarrow> fetch_outcome) \<Rightarrow> int" where
  "polled_height fetch =
     (case rpc_get (fetch 0) ''/status'' of None \<Rightarrow> 0 | Some raw \<Rightarrow> parse_height raw)"

lemma poll_status_height: "fst (snd (poll_status fetch ps)) = polled_height fetch"
  by (simp add: poll_status_def polled_height_def split: option.split)

lemma poll_status_ok: "fst (poll_status fetch ps) \<longleftrightarrow> rpc_get (fetch 0) ''/status'' \<noteq> None"
  by (simp add: poll_status_def split: option.split)

lemma poll_net_info_ok: "fst (poll_net_info fetch ps) \<longleftrightarrow> rpc_get (fetch 1) ''/net_info'' \<noteq> None"
  by (simp add: poll_net_info_def split: option.split)

lemma poll_mempool_ok:
  "fst (poll_mempool fetch ps) \<longleftrightarrow> rpc_get (fetch 2) ''/num_unconfirmed_txs'' \<noteq> None"
  by (simp add: poll_mempool_def split: option.split)

lemma collect_reachable:
  "polled_value (fst (collect fetch k c)) ''rpc_reachable'' =
     Some (if rpc_get (fetch 0) ''/status'' \<noteq> None \<or> rpc_get (fetch 1) ''/net_info'' \<noteq> None
              \<or> rpc_get (fetch 2) ''/num_unconfirmed_txs'' \<noteq> None then ''1'' else ''0'')"
  by (simp add: collect_def polled_value_def case_prod_unfold Let_def update_conv'
      poll_status_ok poll_net_info_ok poll_mempool_ok)

lemma collect_mempool:
  "polled_value (fst (collect fetch k c)) ''num_unconfirmed_txs'' =
     rpc_get (fetch 2) ''/num_unconfirmed_txs''"
  by (simp add: collect_def polled_value_def case_prod_unfold Let_def update_conv' poll_data_simps
      split: option.split)

lemma collect_status:
  "polled_value (fst (collect fetch k c)) ''status'' =
     (case rpc_get (fetch 0) ''/status'' of
        None \<Rightarrow> None
      | Some raw \<Rightarrow> if hash_at (rc_delta c) ''status'' \<noteq> sha256 raw then Some raw else None)"
  by (simp add: collect_def polled_value_def case_prod_unfold Let_def update_conv' poll_data_simps
      split: option.split)

lemma collect_net_info:
  "polled_value (fst (collect fetch k c)) ''net_info'' =
     (case rpc_get (fetch 1) ''/net_info'' of
        None \<Rightarrow> None
      | Some raw \<Rightarrow> if hash_at (rc_delta c) ''net_info'' \<noteq> sha256 raw then Some raw else None)"
  by (simp add: collect_def polled_value_def case_prod_unfold Let_def update_conv' poll_data_simps
      poll_state_simps split: option.split)

lemma collect_block:
  "polled_value (fst (collect fetch k c)) ''block'' =
     (if rc_last_height c < polled_height fetch \<and> 0 < polled_height fetch
      then rpc_get (fetch 5) (block_path (polled_height fetch)) else None)"
  by (simp add: collect_def polled_value_def case_prod_unfold Let_def update_conv' poll_data_simps
      poll_state_simps poll_status_height split: option.split)

lemma collect_height:
  "rc_last_height (snd (collect fetch k c)) =
     (if rc_last_height c < polled_height fetch \<and> 0 < polled_height fetch
      then polled_height fetch else rc_last_height c)"
  by (simp add: collect_def case_prod_unfold Let_def poll_state_simps poll_status_height)

section \<open>A run of polls\<close>

text \<open>The ticks of \<open>Run\<close>: one \<open>collect\<close> each, with the node's answers and the clock of that tick.\<close>

type_synonym tick = "(nat \<Rightarrow> string \<Rightarrow> fetch_outcome) \<times> poll_clock"

fun run_polls :: "tick list \<Rightarrow> rpc_collector \<Rightarrow> payload list \<times> rpc_collector" where
  "run_polls [] c = ([], c)"
| "run_polls ((fetch, k) # ts) c =
     (let (p, c') = collect fetch k c; (ps, c'') = run_polls ts c' in (p # ps, c''))"

lemma run_polls_Cons [simp]:
  "fst (run_polls (t # ts) c) =
     fst (collect (fst t) (snd t) c) # fst (run_polls ts (snd (collect (fst t) (snd t) c)))"
  "snd (run_polls (t # ts) c) = snd (run_polls ts (snd (collect (fst t) (snd t) c)))"
  by (cases t; simp add: case_prod_unfold Let_def)+

text \<open>The heights that rise above every height before them: those \<open>/block\<close> is asked for.\<close>

fun new_maxima :: "int \<Rightarrow> int list \<Rightarrow> int option list" where
  "new_maxima m [] = []"
| "new_maxima m (h # hs) = (if m < h then Some h # new_maxima h hs else None # new_maxima m hs)"

lemma new_maxima_above: "Some h \<in> set (new_maxima m hs) \<Longrightarrow> m < h"
  by (induction m hs rule: new_maxima.induct) (auto split: if_splits intro: order.strict_trans)

lemma new_maxima_sorted: "sorted_wrt (<) (map the (filter (\<lambda>a. a \<noteq> None) (new_maxima m hs)))"
  by (induction m hs rule: new_maxima.induct) (auto dest: new_maxima_above)

lemma run_polls_blocks:
  "0 \<le> rc_last_height c \<Longrightarrow>
   map (\<lambda>p. polled_value p ''block'') (fst (run_polls ts c)) =
     map2 (\<lambda>t a. case a of None \<Rightarrow> None | Some h \<Rightarrow> rpc_get (fst t 5) (block_path h)) ts
       (new_maxima (rc_last_height c) (map (\<lambda>t. polled_height (fst t)) ts))"
proof (induction ts arbitrary: c)
  case (Cons t ts)
  show ?case
    using Cons.IH [of "snd (collect (fst t) (snd t) c)"] Cons.prems
    by (simp add: collect_block collect_height)
qed simp

text \<open>The digest of the status is touched by the status stage only.\<close>

abbreviation status_hash :: "poll_state \<Rightarrow> digest" where
  "status_hash ps \<equiv> hash_at (rc_delta (snd ps)) ''status''"

lemma status_hash_stages:
  "status_hash (snd (poll_net_info fetch ps)) = status_hash ps"
  "status_hash (snd (poll_mempool fetch ps)) = status_hash ps"
  "status_hash (poll_dump fetch k ps) = status_hash ps"
  "status_hash (poll_validators fetch k ps) = status_hash ps"
  "status_hash (poll_genesis fetch k ps) = status_hash ps"
  by (simp_all add: poll_net_info_def poll_mempool_def poll_dump_def poll_validators_def
      poll_genesis_def case_prod_unfold Let_def emit_if_changed_delta split: option.split)

lemma status_hash_block: "status_hash (poll_block fetch k height ps) = status_hash ps"
  by (simp add: poll_block_def poll_block_data_state poll_new_validators_def case_prod_unfold Let_def
      emit_if_changed_delta split: option.split)

lemma hash_at_collect_status:
  "hash_at (rc_delta (snd (collect fetch k c))) ''status'' =
     (case rpc_get (fetch 0) ''/status'' of None \<Rightarrow> hash_at (rc_delta c) ''status'' | Some raw \<Rightarrow> sha256 raw)"
  by (simp add: collect_def case_prod_unfold Let_def status_hash_stages status_hash_block)
     (simp add: poll_status_def emit_if_changed_delta split: option.split)

text \<open>C25: over any run of polls every payload says whether the node answered one of the three
  endpoints asked at every poll: \<open>rpc_reachable\<close> is \<open>0\<close> when all three failed, even if the block,
  validators, genesis or consensus call of the same poll succeeded (the comment in the code says
  \<open>0\<close> means every call failed); and every payload carries \<open>rpc_reachable\<close>, and the mempool
  whenever its endpoint answered, changed or not (the doc of \<open>RPCPayload\<close> says its data holds
  only responses that changed).\<close>

theorem every_poll_reports_liveness:
  "map (\<lambda>p. (polled_value p ''rpc_reachable'', polled_value p ''num_unconfirmed_txs'')) (fst (run_polls ts c)) =
   map (\<lambda>(fetch, k).
          (Some (if rpc_get (fetch 0) ''/status'' = None \<and> rpc_get (fetch 1) ''/net_info'' = None
                    \<and> rpc_get (fetch 2) ''/num_unconfirmed_txs'' = None then ''0'' else ''1''),
           rpc_get (fetch 2) ''/num_unconfirmed_txs'')) ts"
proof (induction ts arbitrary: c)
  case (Cons t ts)
  show ?case using Cons.IH [of "snd (collect (fst t) (snd t) c)"]
    by (simp add: collect_reachable collect_mempool case_prod_unfold)
qed simp

text \<open>C23: over any run of polls of a new collector, \<open>/block\<close> is asked exactly at the polls whose
  status shows a height above every height seen before, for that height (so each height at
  most once and in increasing order), and the answer is always in the payload.\<close>

theorem each_block_reported_once:
  "map (\<lambda>p. polled_value p ''block'') (fst (run_polls ts (new_rpc_collector di gr vr))) =
     map2 (\<lambda>t a. case a of None \<Rightarrow> None | Some h \<Rightarrow> rpc_get (fst t 5) (block_path h)) ts
       (new_maxima 0 (map (\<lambda>t. polled_height (fst t)) ts)) \<and>
   sorted_wrt (<) (map the (filter (\<lambda>a. a \<noteq> None)
       (new_maxima 0 (map (\<lambda>t. polled_height (fst t)) ts))))"
  using run_polls_blocks [of "new_rpc_collector di gr vr" ts] new_maxima_sorted
  by (simp add: new_rpc_collector_def)

text \<open>Over any run of polls the statuses in the payloads are exactly the changes: their
  digests, after the one kept, are those of all statuses the node answered with adjacent
  repetitions removed.\<close>

lemma status_reported_on_change:
  "hash_at (rc_delta c) ''status'' #
     map sha256 (List.map_filter (\<lambda>p. polled_value p ''status'') (fst (run_polls ts c))) =
   remdups_adj (hash_at (rc_delta c) ''status'' #
     map sha256 (List.map_filter (\<lambda>t. rpc_get (fst t 0) ''/status'') ts))"
proof (induction ts arbitrary: c)
  case (Cons t ts)
  note IH = Cons.IH [of "snd (collect (fst t) (snd t) c)", unfolded hash_at_collect_status]
  show ?case
  proof (cases "rpc_get (fst t 0) ''/status''")
    case None
    with IH show ?thesis by (simp add: map_filter_simps collect_status)
  next
    case (Some raw)
    with IH show ?thesis
      by (auto simp: map_filter_simps collect_status remdups_adj_Cons_Cons simp del: remdups_adj.simps)
  qed
qed (simp add: map_filter_simps)

end
