(* ===== verification/Otlp_Relay.thy ===== *)
theory Otlp_Relay
  imports Http "HOL-Library.Sublist"
begin

text \<open>
  The sentinel's OTLP relay (\<open>internal/sentinel/otlp/relay.go\<close>, \<open>filter.go\<close>): gnoland's
  metric exports are decoded, stripped of the denied metrics, encoded again and handed to the
  sender over a bounded channel that is never waited for. The gzip reader and the protobuf
  codec are arguments, with the opaque parts of a message as type parameters; the text of
  their errors is part of the answer to the client, so it is part of their results. The
  listener and its shutdown belong to \<open>net/http\<close>.
\<close>

section \<open>The deny list\<close>

record 'm otlp_metric =
  om_name :: string
  om_rest :: 'm

record ('m, 's) scope_metrics =
  sm_metrics :: "'m otlp_metric list"
  sm_rest :: 's

record ('m, 's, 'r) export_resource =
  er_scope_metrics :: "('m, 's) scope_metrics list"
  er_rest :: 'r

record ('m, 's, 'r, 'q) export_request =
  eq_resource_metrics :: "('m, 's, 'r) export_resource list"
  eq_rest :: 'q

definition denied_metric_names :: "string list" where
  "denied_metric_names =
     [''block_txs_hist'', ''validator_count_hist'', ''validator_vp_hist'', ''num_mempool_txs_hist'']"

definition filter_denied :: "('m, 's, 'r, 'q) export_request \<Rightarrow> ('m, 's, 'r, 'q) export_request" where
  "filter_denied req =
     req\<lparr>eq_resource_metrics :=
       map (\<lambda>rm. rm\<lparr>er_scope_metrics :=
              map (\<lambda>sm. sm\<lparr>sm_metrics :=
                     filter (\<lambda>m. om_name m \<notin> set denied_metric_names) (sm_metrics sm)\<rparr>)
                (er_scope_metrics rm)\<rparr>)
         (eq_resource_metrics req)\<rparr>"

section \<open>The handlers\<close>

definition max_otlp_body_bytes :: nat where
  "max_otlp_body_bytes = 52428800"

text \<open>
  \<open>io.ReadAll\<close> of an \<open>io.LimitReader\<close>: a stream is the bytes it delivers and the error it
  ends in, if any; past the limit the error is never reached.
\<close>

definition read_limited :: "nat \<Rightarrow> string \<times> string option \<Rightarrow> string + string" where
  "read_limited n str =
     (if n \<le> length (fst str) then Inr (take n (fst str))
      else case snd str of None \<Rightarrow> Inr (fst str) | Some err \<Rightarrow> Inl err)"

definition limit_stream :: "nat \<Rightarrow> string \<times> string option \<Rightarrow> string \<times> string option" where
  "limit_stream n str = (if n \<le> length (fst str) then (take n (fst str), None) else str)"

record ('m, 's, 'r, 'q) relay_env =
  re_body_error :: string
  re_gzip :: "string \<times> string option \<Rightarrow> string + (string \<times> string option)"
  re_unmarshal :: "string \<Rightarrow> string + ('m, 's, 'r, 'q) export_request"
  re_marshal :: "('m, 's, 'r, 'q) export_request \<Rightarrow> string + string"

definition read_body :: "('m, 's, 'r, 'q) relay_env \<Rightarrow> http_request \<Rightarrow> string + string" where
  "read_body e r =
     (let body = (rq_body r, if rq_body_fails r then Some (re_body_error e) else None)
      in if header_get (rq_headers r) ''Content-Encoding'' = ''gzip'' then
           (case re_gzip e (limit_stream max_otlp_body_bytes body) of
              Inl err \<Rightarrow> Inl (''gzip reader: '' @ err)
            | Inr plain \<Rightarrow> read_limited max_otlp_body_bytes plain)
         else read_limited max_otlp_body_bytes body)"

text \<open>The encoding of an empty response message is empty.\<close>

definition empty_proto_response :: http_response where
  "empty_proto_response =
     \<lparr>rs_status = status_ok, rs_headers = [(''Content-Type'', [''application/x-protobuf''])], rs_body = []\<rparr>"

record relay =
  rl_cap :: nat
  rl_out :: "string list"
  rl_drops :: nat

definition otlp_channel_size :: nat where "otlp_channel_size = 10"

definition new_relay :: relay where
  "new_relay = \<lparr>rl_cap = otlp_channel_size, rl_out = [], rl_drops = 0\<rparr>"

definition offer :: "string \<Rightarrow> relay \<Rightarrow> relay" where
  "offer out rl =
     (if length (rl_out rl) < rl_cap rl then rl\<lparr>rl_out := rl_out rl @ [out]\<rparr>
      else rl\<lparr>rl_drops := rl_drops rl + 1\<rparr>)"

definition relay_metrics ::
  "('m, 's, 'r, 'q) relay_env \<Rightarrow> http_request \<Rightarrow> relay \<Rightarrow> http_response \<times> relay" where
  "relay_metrics e r rl =
     (case read_body e r of
        Inl err \<Rightarrow> (http_error (''read body: '' @ err) status_bad_request, rl)
      | Inr body \<Rightarrow>
          (case re_unmarshal e body of
             Inl err \<Rightarrow> (http_error (''unmarshal metrics: '' @ err) status_bad_request, rl)
           | Inr msg \<Rightarrow>
               (case re_marshal e (filter_denied msg) of
                  Inl err \<Rightarrow> (http_error (''marshal metrics: '' @ err) status_internal_error, rl)
                | Inr out \<Rightarrow> (empty_proto_response, offer out rl))))"

definition relay_traces :: "http_request \<Rightarrow> relay \<Rightarrow> http_response \<times> relay" where
  "relay_traces r rl = (empty_proto_response, rl)"

section \<open>What reaches the sender\<close>

text \<open>What a request asks to be forwarded, if it is well formed.\<close>

definition relayed_form :: "('m, 's, 'r, 'q) relay_env \<Rightarrow> http_request \<Rightarrow> string option" where
  "relayed_form e r =
     (case read_body e r of
        Inl _ \<Rightarrow> None
      | Inr body \<Rightarrow>
          (case re_unmarshal e body of
             Inl _ \<Rightarrow> None
           | Inr msg \<Rightarrow> (case re_marshal e (filter_denied msg) of Inl _ \<Rightarrow> None | Inr out \<Rightarrow> Some out)))"

datatype relay_event = MetricsExport http_request | TracesExport http_request | SenderTakes

text \<open>A run: what the sender has taken and the requests answered with 200 to a metrics export.\<close>

fun relay_run ::
  "('m, 's, 'r, 'q) relay_env \<Rightarrow> relay_event list \<Rightarrow> relay \<Rightarrow> http_response list \<times> string list \<times> relay" where
  "relay_run e [] rl = ([], [], rl)"
| "relay_run e (MetricsExport r # evs) rl =
     (let (resp, rl') = relay_metrics e r rl; (rs, taken, rl'') = relay_run e evs rl'
      in (resp # rs, taken, rl''))"
| "relay_run e (TracesExport r # evs) rl =
     (let (resp, rl') = relay_traces r rl; (rs, taken, rl'') = relay_run e evs rl'
      in (resp # rs, taken, rl''))"
| "relay_run e (SenderTakes # evs) rl =
     (case rl_out rl of
        [] \<Rightarrow> relay_run e evs rl
      | b # bs \<Rightarrow>
          (let (rs, taken, rl') = relay_run e evs (rl\<lparr>rl_out := bs\<rparr>) in (rs, b # taken, rl')))"

fun exports :: "relay_event list \<Rightarrow> http_request list" where
  "exports [] = []"
| "exports (MetricsExport r # evs) = r # exports evs"
| "exports (_ # evs) = exports evs"

lemma relay_metrics_relayed:
  "snd (relay_metrics e r rl) = (case relayed_form e r of None \<Rightarrow> rl | Some out \<Rightarrow> offer out rl)"
  "rs_status (fst (relay_metrics e r rl)) = status_ok \<longleftrightarrow> relayed_form e r \<noteq> None"
  by (simp_all add: relay_metrics_def relayed_form_def empty_proto_response_def http_status
      split: sum.split)

lemma offer_simps [simp]:
  "rl_cap (offer out rl) = rl_cap rl"
  "length (rl_out (offer out rl)) + rl_drops (offer out rl) = length (rl_out rl) + rl_drops rl + 1"
  "length (rl_out rl) \<le> rl_cap rl \<Longrightarrow> length (rl_out (offer out rl)) \<le> rl_cap rl"
  by (simp_all add: offer_def)

abbreviation forwardable :: "('m, 's, 'r, 'q) relay_env \<Rightarrow> relay_event list \<Rightarrow> string list" where
  "forwardable e evs \<equiv> List.map_filter (relayed_form e) (exports evs)"

lemma relay_run_metrics:
  "fst (snd (relay_run e (MetricsExport r # evs) rl)) = fst (snd (relay_run e evs (snd (relay_metrics e r rl))))"
  "snd (snd (relay_run e (MetricsExport r # evs) rl)) = snd (snd (relay_run e evs (snd (relay_metrics e r rl))))"
  by (simp_all add: case_prod_unfold Let_def)

lemma relay_run_traces:
  "fst (snd (relay_run e (TracesExport r # evs) rl)) = fst (snd (relay_run e evs rl))"
  "snd (snd (relay_run e (TracesExport r # evs) rl)) = snd (snd (relay_run e evs rl))"
  by (simp_all add: case_prod_unfold Let_def relay_traces_def)

lemma relay_run_takes:
  "rl_out rl = b # bs \<Longrightarrow>
   fst (snd (relay_run e (SenderTakes # evs) rl)) = b # fst (snd (relay_run e evs (rl\<lparr>rl_out := bs\<rparr>)))"
  "rl_out rl = b # bs \<Longrightarrow>
   snd (snd (relay_run e (SenderTakes # evs) rl)) = snd (snd (relay_run e evs (rl\<lparr>rl_out := bs\<rparr>)))"
  by (simp_all add: case_prod_unfold Let_def)

lemmas relay_run_cases = relay_run_metrics relay_run_traces relay_run_takes

lemma relay_run_count:
  "length (fst (snd (relay_run e evs rl))) + length (rl_out (snd (snd (relay_run e evs rl))))
     + rl_drops (snd (snd (relay_run e evs rl)))
   = length (rl_out rl) + rl_drops rl + length (forwardable e evs)"
proof (induction evs arbitrary: rl)
  case (Cons ev evs)
  show ?case
  proof (cases ev)
    case (MetricsExport r)
    then show ?thesis
      using Cons.IH [of rl] Cons.IH [of "offer (the (relayed_form e r)) rl"]
      by (cases "relayed_form e r")
         (simp_all add: relay_run_cases relay_metrics_relayed map_filter_simps del: relay_run.simps)
  next
    case (TracesExport r)
    then show ?thesis using Cons.IH [of rl] by (simp add: relay_run_cases del: relay_run.simps)
  next
    case SenderTakes
    then show ?thesis using Cons.IH
      by (cases "rl_out rl") (simp_all add: relay_run_takes del: relay_run.simps(4), simp)
  qed
qed (simp add: map_filter_simps)

lemma subseq_offer:
  "subseq (rl_out (offer out rl) @ xs) (rl_out rl @ out # xs)"
  by (auto simp: offer_def intro: list_emb_append_mono)

lemma relay_run_order:
  "length (rl_out rl) \<le> rl_cap rl \<Longrightarrow>
   subseq (fst (snd (relay_run e evs rl)) @ rl_out (snd (snd (relay_run e evs rl))))
     (rl_out rl @ forwardable e evs)
   \<and> length (rl_out (snd (snd (relay_run e evs rl)))) \<le> rl_cap rl"
proof (induction evs arbitrary: rl)
  case step: (Cons ev evs)
  show ?case
  proof (cases ev)
    case (MetricsExport r)
    show ?thesis
    proof (cases "relayed_form e r")
      case None
      with step MetricsExport show ?thesis
        by (simp add: relay_run_cases relay_metrics_relayed map_filter_simps del: relay_run.simps)
    next
      case (Some out)
      with step.IH [of "offer out rl"] step.prems MetricsExport show ?thesis
        by (auto simp: relay_run_cases relay_metrics_relayed map_filter_simps simp del: relay_run.simps
            intro: subseq_order.trans [OF _ subseq_offer])
    qed
  next
    case (TracesExport r)
    with step show ?thesis by (simp add: relay_run_cases del: relay_run.simps)
  next
    case SenderTakes
    show ?thesis
    proof (cases "rl_out rl")
      case Nil
      with SenderTakes step.IH [of rl] show ?thesis by simp
    next
      case (Cons b bs)
      with SenderTakes step.IH [of "rl\<lparr>rl_out := bs\<rparr>"] step.prems show ?thesis
        by (simp add: relay_run_takes del: relay_run.simps(4))
    qed
  qed
qed (simp add: map_filter_simps)

text \<open>The names of the metrics of a request, in order.\<close>

definition metric_names :: "('m, 's, 'r, 'q) export_request \<Rightarrow> string list" where
  "metric_names req =
     concat (map (\<lambda>rm. concat (map (\<lambda>sm. map om_name (sm_metrics sm)) (er_scope_metrics rm)))
       (eq_resource_metrics req))"

lemma metric_names_filter_denied:
  "metric_names (filter_denied req) = filter (\<lambda>n. n \<notin> set denied_metric_names) (metric_names req)"
proof -
  have 1: "map om_name (filter (\<lambda>m. om_name m \<notin> D) ms) = filter (\<lambda>n. n \<notin> D) (map om_name ms)" for D ms
    by (induction ms) auto
  show ?thesis
    by (simp add: metric_names_def filter_denied_def filter_concat 1 comp_def)
qed

text \<open>C26: whatever the interleaving of exports and of the sender taking bodies, every well-formed
  metrics export ends up as exactly one of a body taken, a body waiting or a counted drop;
  the bodies are handed over in the order they came and at most \<open>otlpChannelSize\<close> wait.\<close>

theorem relay_accounts_for_every_export:
  "length (fst (snd (relay_run e evs new_relay))) + length (rl_out (snd (snd (relay_run e evs new_relay))))
     + rl_drops (snd (snd (relay_run e evs new_relay)))
   = length (forwardable e evs) \<and>
   subseq (fst (snd (relay_run e evs new_relay)) @ rl_out (snd (snd (relay_run e evs new_relay))))
     (forwardable e evs) \<and>
   length (rl_out (snd (snd (relay_run e evs new_relay)))) \<le> otlp_channel_size"
  using relay_run_count [of e evs new_relay] relay_run_order [of new_relay e evs]
  by (simp add: new_relay_def)

text \<open>Given a codec that decodes what it encodes, a metrics export is answered 200 exactly when
  its body reads as a request \<open>m\<close> that encodes again without the denied metrics, and then
  the body handed over decodes to \<open>m\<close> with exactly the denied metrics removed.\<close>

lemma relay_removes_only_denied:
  assumes codec: "\<And>m out. re_marshal e m = Inr out \<Longrightarrow> re_unmarshal e out = Inr m"
    and body: "read_body e r = Inr body" and msg: "re_unmarshal e body = Inr m"
    and ok: "rs_status (fst (relay_metrics e r rl)) = status_ok"
  shows "\<exists>out. snd (relay_metrics e r rl) = offer out rl \<and>
           (\<exists>m'. re_unmarshal e out = Inr m' \<and>
              metric_names m' = filter (\<lambda>n. n \<notin> set denied_metric_names) (metric_names m))"
proof -
  from ok have "relayed_form e r \<noteq> None" by (simp add: relay_metrics_relayed)
  with body msg obtain out where out: "re_marshal e (filter_denied m) = Inr out"
    by (auto simp: relayed_form_def split: sum.splits)
  then have "snd (relay_metrics e r rl) = offer out rl"
    by (simp add: relay_metrics_def body msg)
  moreover have "re_unmarshal e out = Inr (filter_denied m)" using codec out by blast
  ultimately show ?thesis using metric_names_filter_denied by blast
qed

text \<open>A concrete codec for two messages: one with a denied metric, and the same without it.\<close>

definition demo_metric :: "string \<Rightarrow> unit otlp_metric" where
  "demo_metric name = \<lparr>om_name = name, om_rest = ()\<rparr>"

definition demo_export :: "string list \<Rightarrow> (unit, unit, unit, unit) export_request" where
  "demo_export names =
     \<lparr>eq_resource_metrics = [\<lparr>er_scope_metrics = [\<lparr>sm_metrics = map demo_metric names, sm_rest = ()\<rparr>],
        er_rest = ()\<rparr>], eq_rest = ()\<rparr>"

definition demo_relay_env :: "(unit, unit, unit, unit) relay_env" where
  "demo_relay_env =
     \<lparr>re_body_error = ''unexpected EOF'', re_gzip = (\<lambda>str. Inl ''invalid header''),
      re_unmarshal = (\<lambda>s. if s = ''AB'' then Inr (demo_export [''block_txs_hist'', ''build_info''])
                         else if s = ''B'' then Inr (demo_export [''build_info'']) else Inl ''bad wire type''),
      re_marshal = (\<lambda>m. if m = demo_export [''block_txs_hist'', ''build_info''] then Inr ''AB''
                       else if m = demo_export [''build_info''] then Inr ''B'' else Inl ''invalid'')\<rparr>"

definition demo_relay_request :: http_request where
  "demo_relay_request =
     \<lparr>rq_method = ''POST'', rq_path = ''/v1/metrics'', rq_query = [], rq_headers = [],
      rq_remote_addr = ''127.0.0.1:4318'', rq_body = ''AB'', rq_body_fails = False\<rparr>"

lemma demo_relay_codec: "re_marshal demo_relay_env m = Inr out \<Longrightarrow> re_unmarshal demo_relay_env out = Inr m"
  by (auto simp: demo_relay_env_def split: if_splits)

lemma demo_relay_body: "read_body demo_relay_env demo_relay_request = Inr ''AB''"
  by (simp add: read_body_def demo_relay_request_def header_get_def read_limited_def max_otlp_body_bytes_def)

lemma relay_removes_only_denied_witness:
  "\<exists>out. snd (relay_metrics demo_relay_env demo_relay_request new_relay) = offer out new_relay \<and>
     (\<exists>m'. re_unmarshal demo_relay_env out = Inr m' \<and>
        metric_names m' = filter (\<lambda>n. n \<notin> set denied_metric_names)
          (metric_names (demo_export [''block_txs_hist'', ''build_info''])))"
proof (rule relay_removes_only_denied [OF demo_relay_codec demo_relay_body])
  show "re_unmarshal demo_relay_env ''AB'' = Inr (demo_export [''block_txs_hist'', ''build_info''])"
    by (simp add: demo_relay_env_def)
  show "rs_status (fst (relay_metrics demo_relay_env demo_relay_request new_relay)) = status_ok"
    by (simp add: relay_metrics_def demo_relay_body)
       (simp add: demo_relay_env_def demo_export_def demo_metric_def filter_denied_def
          denied_metric_names_def empty_proto_response_def)
qed

end
