(* ===== verification/Json_Roundtrip.thy ===== *)
theory Json_Roundtrip
  imports Json_Codec "HOL-Library.Multiset"
begin

text \<open>
  What the encoder writes, the decoder reads back: for strings that are valid UTF-8, for
  integers and for objects of these, at any nesting the decoder allows. The sentinel encodes
  its payloads with the first and the watchtower reads them with the second.
\<close>

section \<open>String literals\<close>

fun utf8_ok :: "nat \<Rightarrow> string \<Rightarrow> bool" where
  "utf8_ok 0 s = (s = [])"
| "utf8_ok (Suc n) s =
     (s = [] \<or> (case utf8_len s of None \<Rightarrow> False | Some k \<Rightarrow> utf8_ok n (drop k s)))"

definition valid_utf8 :: "string \<Rightarrow> bool" where
  "valid_utf8 s = utf8_ok (length s) s"

lemma utf8_len_bounds: "utf8_len s = Some k \<Longrightarrow> 1 \<le> k \<and> k \<le> length s"
  by (auto simp: utf8_len_def Let_def split: list.splits if_splits)

lemma utf8_len_append: "utf8_len s = Some k \<Longrightarrow> utf8_len (s @ t) = Some k"
proof -
  consider "s = []" | a where "s = [a]" | a b where "s = [a, b]" | a b c where "s = [a, b, c]"
    | a b c d r where "s = a # b # c # d # r"
    by (metis list.exhaust)
  then show "utf8_len s = Some k \<Longrightarrow> utf8_len (s @ t) = Some k"
    by cases (simp_all add: utf8_len_def Let_def split: if_split_asm)
qed

lemma utf8_len_ascii: "(of_char c :: nat) < 128 \<Longrightarrow> utf8_len (c # s) = Some 1"
  by (simp add: utf8_len_def)

lemma ascii_valid_utf8: "list_all (\<lambda>c. (of_char c :: nat) < 128) s \<Longrightarrow> valid_utf8 s"
  unfolding valid_utf8_def by (induction s) (simp_all add: utf8_len_ascii)

lemma hex_val_digit: "d < 16 \<Longrightarrow> hex_val (hex_digit d) = Some d"
  by (auto simp: hex_val_def hex_digit_def of_char_of)

lemma hex_val_0: "hex_val (CHR ''0'') = Some 0"
  by (simp add: hex_val_def)

lemma scan_unicode:
  assumes "unicode_escape s = Some (r, t)" "\<not> is_surrogate r"
  shows "scan_string (Suc m) s = map_option (\<lambda>(v, q). (utf8_encode r @ v, q)) (scan_string m t)"
proof -
  from assms(1) obtain a b c d where s: "s = CHR 0x5C # CHR ''u'' # a # b # c # d # t"
    by (auto simp: unicode_escape_def split: list.splits if_splits)
  have e: "escaped_rune s = Some (utf8_encode r, t)"
    using assms by (simp add: escaped_rune_def)
  show ?thesis using e unfolding s by (simp add: simple_escape_def)
qed

lemma ascii_hex_escape:
  assumes n: "(of_char c :: nat) < 128"
  shows "unicode_escape (CHR 0x5C # CHR ''u'' # CHR ''0'' # CHR ''0'' #
           hex_digit (of_char c div 16) # hex_digit (of_char c mod 16) # t) = Some (int (of_char c), t)"
proof -
  have "hex_val (hex_digit (of_char c div 16)) = Some (of_char c div 16)"
    "hex_val (hex_digit (of_char c mod 16)) = Some (of_char c mod 16)"
    using n by (auto intro: hex_val_digit)
  moreover have "int (of_char c div 16) * 16 + int (of_char c mod 16) = int (of_char c)"
    by (metis div_mult_mod_eq of_nat_add of_nat_mult of_nat_numeral)
  ultimately show ?thesis
    by (simp add: unicode_escape_def hex4_def hex_val_0)
qed

lemma utf8_encode_ascii: "(of_char c :: nat) < 128 \<Longrightarrow> utf8_encode (int (of_char c)) = [c]"
  by (simp add: utf8_encode_def)

lemma scan_plain:
  assumes "(of_char c :: nat) < 128" "32 \<le> (of_char c :: nat)" "c \<noteq> CHR 0x22" "c \<noteq> CHR 0x5C"
  shows "scan_string (Suc m) (c # t) = map_option (\<lambda>(v, q). (c # v, q)) (scan_string m t)"
  using assms by (simp add: utf8_len_ascii)

lemma scan_quote_char:
  assumes n: "(of_char c :: nat) < 128"
  shows "scan_string (Suc m) (quote_char c @ t) = map_option (\<lambda>(v, q). (c # v, q)) (scan_string m t)"
proof (cases "c \<in> {CHR 0x22, CHR 0x5C, CHR 0x08, CHR 0x0C, CHR 0x0A, CHR 0x0D, CHR 0x09}")
  case True
  then show ?thesis by (auto simp: quote_char_def simple_escape_def)
next
  case False
  show ?thesis
  proof (cases "(of_char c :: nat) < 32 \<or> c = CHR ''<'' \<or> c = CHR ''>'' \<or> c = CHR ''&''")
    case True
    with False have q: "quote_char c =
        [CHR 0x5C, CHR ''u'', CHR ''0'', CHR ''0'', hex_digit (of_char c div 16), hex_digit (of_char c mod 16)]"
      by (simp add: quote_char_def Let_def)
    have "\<not> is_surrogate (int (of_char c))" using n by (simp add: is_surrogate_def)
    from scan_unicode [OF ascii_hex_escape [OF n] this] show ?thesis
      by (simp add: q utf8_encode_ascii [OF n] del: scan_string.simps)
  next
    case plain: False
    with False have "quote_char c = [c]" by (simp add: quote_char_def)
    with plain False n show ?thesis by (simp add: scan_plain del: scan_string.simps)
  qed
qed

lemma scan_multibyte:
  assumes "utf8_len s = Some k" "128 \<le> (of_char (hd s) :: nat)"
  shows "scan_string (Suc m) (s @ t) = map_option (\<lambda>(v, q). (take k s @ v, q)) (scan_string m (drop k s @ t))"
proof -
  from assms(1) utf8_len_bounds have k: "1 \<le> k" "k \<le> length s" by blast+
  then obtain c r where s: "s = c # r" by (cases s) auto
  have n: "128 \<le> (of_char c :: nat)" using assms(2) s by simp
  then have c: "c \<noteq> CHR 0x22" "c \<noteq> CHR 0x5C" "\<not> (of_char c :: nat) < 32" by auto
  have u: "utf8_len (c # r @ t) = Some k" using utf8_len_append [OF assms(1), of t] s by simp
  have "take k (c # r @ t) = take k s" "drop k (c # r @ t) = drop k s @ t"
    using k by (simp_all add: s flip: append_Cons)
  then show ?thesis using c u by (simp add: s)
qed

lemma line_separator_escapes:
  "unicode_escape ([CHR 0x5C] @ ''u2028'' @ t) = Some (8232, t)"
  "unicode_escape ([CHR 0x5C] @ ''u2029'' @ t) = Some (8233, t)"
  by (simp_all add: unicode_escape_def hex4_def hex_val_def)

lemma line_separator_encodings:
  "utf8_encode 8232 = [CHR 0xE2, CHR 0x80, CHR 0xA8]" "utf8_encode 8233 = [CHR 0xE2, CHR 0x80, CHR 0xA9]"
  by (simp_all add: utf8_encode_def char_of_def bit_iff_odd)

lemma utf8_len_take: "utf8_len s = Some k \<Longrightarrow> utf8_len (take k s) = Some k"
proof -
  consider "s = []" | a where "s = [a]" | a b where "s = [a, b]" | a b c where "s = [a, b, c]"
    | a b c d r where "s = a # b # c # d # r"
    by (metis list.exhaust)
  then show "utf8_len s = Some k \<Longrightarrow> utf8_len (take k s) = Some k"
    by cases (auto simp: utf8_len_def Let_def split: if_split_asm)
qed

lemma scan_sequence:
  assumes "utf8_len s = Some k" "128 \<le> (of_char (hd s) :: nat)"
  shows "scan_string (Suc m) (take k s @ t) = map_option (\<lambda>(v, q). (take k s @ v, q)) (scan_string m t)"
proof -
  have "hd (take k s) = hd s" using utf8_len_bounds [OF assms(1)] by (cases s; cases k) auto
  with scan_multibyte [OF utf8_len_take [OF assms(1)], of m t] assms(2) show ?thesis
    by simp
qed

text \<open>The quoted form of the rune at the head of a string, and that it is read back.\<close>

definition quote_rune :: "string \<Rightarrow> nat \<Rightarrow> string" where
  "quote_rune s k =
     (if (of_char (hd s) :: nat) < 128 then quote_char (hd s)
      else if take 3 s = [CHR 0xE2, CHR 0x80, CHR 0xA8] then [CHR 0x5C] @ ''u2028''
      else if take 3 s = [CHR 0xE2, CHR 0x80, CHR 0xA9] then [CHR 0x5C] @ ''u2029''
      else take k s)"

lemma quote_body_rune:
  "utf8_len s = Some k \<Longrightarrow> quote_body (Suc n) s = quote_rune s k @ quote_body n (drop k s)"
  using utf8_len_bounds [of s k]
  by (cases s) (auto simp: quote_rune_def utf8_len_ascii)

lemma quote_rune_nonempty: "utf8_len s = Some k \<Longrightarrow> quote_rune s k \<noteq> []"
  using utf8_len_bounds [of s k] by (auto simp: quote_rune_def quote_char_def Let_def)

lemma separator_len:
  "take 3 s = [CHR 0xE2, CHR 0x80, x] \<Longrightarrow> utf8_len s = Some k \<Longrightarrow> k = 3"
  by (cases s; cases "tl s"; cases "tl (tl s)")
     (auto simp: utf8_len_def Let_def take_Cons' split: if_split_asm)

lemma scan_quote_rune:
  assumes k: "utf8_len s = Some k"
  shows "scan_string (Suc m) (quote_rune s k @ t) = map_option (\<lambda>(v, q). (take k s @ v, q)) (scan_string m t)"
proof -
  from utf8_len_bounds [OF k] obtain c r where s: "s = c # r" by (cases s) auto
  consider (ascii) "(of_char c :: nat) < 128"
    | (ls) "128 \<le> (of_char c :: nat)" "take 3 s = [CHR 0xE2, CHR 0x80, CHR 0xA8]"
    | (ps) "128 \<le> (of_char c :: nat)" "take 3 s = [CHR 0xE2, CHR 0x80, CHR 0xA9]"
    | (raw) "128 \<le> (of_char c :: nat)" "quote_rune s k = take k s"
    unfolding quote_rune_def s list.sel by (meson leI)
  then show ?thesis
  proof cases
    case ascii
    then have "k = 1" using k s utf8_len_ascii by simp
    then show ?thesis using scan_quote_char [OF ascii, of m t] s ascii
      by (simp add: quote_rune_def del: scan_string.simps)
  next
    case ls
    then have q: "quote_rune s k = [CHR 0x5C] @ ''u2028''" "k = 3"
      using s separator_len [OF _ k] by (simp_all add: quote_rune_def)
    show ?thesis using scan_unicode [OF line_separator_escapes(1), of m t] ls(2) q
      by (simp add: is_surrogate_def line_separator_encodings del: scan_string.simps)
  next
    case ps
    then have q: "quote_rune s k = [CHR 0x5C] @ ''u2029''" "k = 3"
      using s separator_len [OF _ k] by (simp_all add: quote_rune_def)
    show ?thesis using scan_unicode [OF line_separator_escapes(2), of m t] ps(2) q
      by (simp add: is_surrogate_def line_separator_encodings del: scan_string.simps)
  next
    case raw
    then show ?thesis using scan_sequence [OF k, of m t] s by (simp del: scan_string.simps)
  qed
qed

lemma scan_quote_body:
  "length s \<le> n \<Longrightarrow> utf8_ok n s \<Longrightarrow> length (quote_body n s) < m \<Longrightarrow>
   scan_string m (quote_body n s @ CHR 0x22 # rest) = Some (s, rest)"
proof (induction n arbitrary: s m)
  case 0
  then show ?case by (cases m) auto
next
  case (Suc n)
  show ?case
  proof (cases "s = []")
    case True
    with Suc.prems show ?thesis by (cases m) auto
  next
    case False
    obtain k where k: "utf8_len s = Some k" and ok: "utf8_ok n (drop k s)"
      using Suc.prems False by (auto split: option.splits)
    have len: "length (drop k s) \<le> n" using Suc.prems(1) utf8_len_bounds [OF k] by (simp; linarith)
    obtain m' where m: "m = Suc m'" using Suc.prems by (cases m) auto
    have "length (quote_body n (drop k s)) < m'"
      using Suc.prems(3) quote_rune_nonempty [OF k] by (cases "quote_rune s k") (auto simp: quote_body_rune [OF k] m simp del: quote_body.simps)
    from Suc.IH [OF len ok this] show ?thesis
      by (simp add: quote_body_rune [OF k] m scan_quote_rune [OF k] del: scan_string.simps quote_body.simps)
  qed
qed

lemma scan_quote_string:
  "valid_utf8 s \<Longrightarrow> quote_string s @ rest = CHR 0x22 # t \<Longrightarrow> scan_string (length t) t = Some (s, rest)"
  using scan_quote_body [of s "length s"] by (auto simp: quote_string_def valid_utf8_def simp del: scan_string.simps)

section \<open>Values\<close>

definition delimited :: "string \<Rightarrow> bool" where
  "delimited rest \<longleftrightarrow> rest = [] \<or> hd rest \<in> {CHR '','', CHR ''}'', CHR '']''}"

text \<open>\<open>raw\<close> is a text of the value \<open>v\<close> nested at most \<open>d\<close> deep.\<close>

definition encodes :: "nat \<Rightarrow> string \<Rightarrow> json \<Rightarrow> bool" where
  "encodes d raw v \<longleftrightarrow>
     raw \<noteq> [] \<and> \<not> json_space (hd raw) \<and>
     (\<forall>rest. delimited rest \<longrightarrow> scan_value d (raw @ rest) = Some (v, rest))"

lemma encodesD: "encodes d raw v \<Longrightarrow> delimited rest \<Longrightarrow> scan_value d (raw @ rest) = Some (v, rest)"
  by (simp add: encodes_def)

lemma skip_ws_simps [simp]:
  "skip_ws [] = []" "skip_ws (c # s) = (if json_space c then skip_ws s else c # s)"
  by (simp_all add: skip_ws_def)

lemma encodes_skip_ws: "encodes d raw v \<Longrightarrow> skip_ws (raw @ rest) = raw @ rest"
  by (cases raw) (auto simp: encodes_def)

lemma raw_of_append [simp]: "raw_of (raw @ rest) rest = raw"
  by (simp add: raw_of_def)

lemma not_space_simps [simp]:
  "\<not> json_space (CHR 0x22)" "\<not> json_space (CHR ''{'')" "\<not> json_space (CHR ''}'')" "\<not> json_space (CHR '','')"
  "\<not> json_space (CHR '':'')" "\<not> json_space (CHR ''-'')" "\<not> json_space (CHR ''['')" "\<not> json_space (CHR '']'')" "is_digit c \<Longrightarrow> \<not> json_space c"
  by (auto simp: json_space_def is_digit_def)

lemma delimited_simps [simp]:
  "delimited []" "delimited (CHR '','' # s)" "delimited (CHR ''}'' # s)" "delimited (CHR '']'' # s)"
  by (simp_all add: delimited_def)

lemma encodes_string: "valid_utf8 s \<Longrightarrow> encodes d (quote_string s) (JStr s)"
  unfolding encodes_def
proof (intro conjI allI impI)
  fix rest assume v: "valid_utf8 s"
  define t where "t = quote_body (length s) s @ CHR 0x22 # rest"
  have q: "quote_string s @ rest = CHR 0x22 # t" by (simp add: quote_string_def t_def)
  show "scan_value d (quote_string s @ rest) = Some (JStr s, rest)"
    by (simp add: q scan_value.simps scan_quote_string [OF v q] del: scan_string.simps)
qed (simp_all add: quote_string_def)

lemma format_nat_head: "0 < n \<Longrightarrow> hd (format_nat n) \<noteq> CHR ''0''"
proof (induction n rule: format_nat.induct)
  case (1 n)
  show ?case
  proof (cases "n < 10")
    case True
    then have "format_nat n = [digit_char n]" by (simp add: format_nat.simps)
    moreover have "digit_val (digit_char n) \<noteq> digit_val (CHR ''0'')"
      using digit_char_digit [OF True] 1(2) by (simp add: digit_val_def)
    ultimately show ?thesis by auto
  next
    case False
    then have "format_nat n = format_nat (n div 10) @ [digit_char (n mod 10)]"
      by (subst format_nat.simps) simp
    with False 1 show ?thesis
      using format_nat_digits [of "n div 10"] by simp
  qed
qed

lemma take_digits_format:
  assumes "list_all is_digit ds" "delimited rest"
  shows "take_digits (ds @ rest) = (ds, rest)"
  using assms
  by (induction ds) (cases rest; auto simp: take_digits_def delimited_def is_digit_def)+

lemma scan_int_format: "delimited rest \<Longrightarrow> scan_int (format_nat n @ rest) = Some (format_nat n, rest)"
proof (cases "n = 0")
  case True
  have "format_nat 0 = ''0''" by (simp add: format_nat.simps digit_char_def char_of_def bit_iff_odd)
  with True show ?thesis by (simp add: scan_int_def)
next
  case False
  assume "delimited rest"
  obtain c t where f: "format_nat n = c # t" using format_nat_digits [of n] by (cases "format_nat n") auto
  then have "c \<noteq> CHR ''0''" "is_digit c" using format_nat_head [of n] format_nat_digits [of n] False by auto
  then show ?thesis
    using take_digits_format [of "format_nat n" rest] format_nat_digits [of n] \<open>delimited rest\<close>
    by (simp add: scan_int_def f)
qed

lemma scan_frac_exp_delimited:
  "delimited rest \<Longrightarrow> scan_frac rest = Some ([], rest) \<and> scan_exp rest = Some ([], rest)"
  by (cases rest) (auto simp: scan_frac_def scan_exp_def delimited_def)

lemma scan_number_format:
  assumes "delimited rest"
  shows "scan_number (format_int v @ rest) = Some (format_int v, rest)"
proof -
  note d = scan_int_format [OF assms] scan_frac_exp_delimited [OF assms]
  obtain c t where f: "format_nat (nat v) = c # t" using format_nat_digits [of "nat v"]
    by (cases "format_nat (nat v)") auto
  moreover have "c \<noteq> CHR ''-''" using format_nat_digits [of "nat v"] f by (auto simp: is_digit_def)
  ultimately show ?thesis
    using d(1) [of "nat v"] d(1) [of "nat (- v)"] d(2)
    by (auto simp: scan_number_def format_int_def)
qed

lemma encodes_int: "encodes d (format_int v) (JNum (format_int v))"
proof -
  obtain c t where f: "format_int v = c # t" "is_digit c \<or> c = CHR ''-''"
    using format_nat_digits [of "nat v"] by (cases "v < 0"; cases "format_nat (nat v)") (auto simp: format_int_def)
  then have "c \<noteq> CHR 0x22" "c \<noteq> CHR ''['' " "c \<noteq> CHR ''{''" "c \<noteq> CHR ''t''" "c \<noteq> CHR ''f''" "c \<noteq> CHR ''n''"
    by (auto simp: is_digit_def)
  then have "scan_value d (format_int v @ rest) =
      map_option (\<lambda>(n, r). (JNum n, r)) (scan_number (format_int v @ rest))" for rest
    by (simp add: f scan_value.simps has_prefix_def)
  moreover have "format_int v \<noteq> []" "\<not> json_space (hd (format_int v))" using f by auto
  ultimately show ?thesis by (simp add: encodes_def scan_number_format)
qed

text \<open>An entry of an object: the key, the text of the value and the value.\<close>

definition entry_text :: "string \<times> string \<times> json \<Rightarrow> string" where
  "entry_text m = quote_string (fst m) @ '':'' @ fst (snd m)"

definition entry_ok :: "nat \<Rightarrow> string \<times> string \<times> json \<Rightarrow> bool" where
  "entry_ok d m \<longleftrightarrow> valid_utf8 (fst m) \<and> encodes d (fst (snd m)) (snd (snd m))"

lemma scan_members_head:
  assumes ok: "entry_ok d m" and r: "delimited r"
  shows "scan_members (\<lambda>u. scan_value d u) (Suc n) (entry_text m @ r) =
     (case skip_ws r of
        [] \<Rightarrow> None
      | c # t \<Rightarrow>
          if c = CHR ''}'' then Some ([m], t)
          else if c = CHR '','' then
            map_option (\<lambda>(ms, z). (m # ms, z)) (scan_members (\<lambda>u. scan_value d u) n t)
          else None)"
proof -
  obtain k raw v where m: "m = (k, raw, v)" by (cases m)
  from ok have k: "valid_utf8 k" and v: "encodes d raw v" by (simp_all add: entry_ok_def m)
  define t where "t = quote_body (length k) k @ CHR 0x22 # CHR '':'' # raw @ r"
  have q: "quote_string k @ (CHR '':'' # raw @ r) = CHR 0x22 # t" by (simp add: quote_string_def t_def)
  show ?thesis
    unfolding m
    by (simp add: entry_text_def q scan_quote_string [OF k q] encodes_skip_ws [OF v] encodesD [OF v r]
        Let_def del: scan_string.simps split: list.split)
qed

lemma scan_members_text:
  "ms \<noteq> [] \<Longrightarrow> list_all (entry_ok d) ms \<Longrightarrow> length ms \<le> n \<Longrightarrow>
   scan_members (\<lambda>u. scan_value d u) n (join_with '','' (map entry_text ms) @ CHR ''}'' # rest) = Some (ms, rest)"
proof (induction ms arbitrary: n)
  case (Cons m ms)
  obtain n' where n: "n = Suc n'" using Cons.prems by (cases n) auto
  show ?case
  proof (cases ms)
    case Nil
    then show ?thesis using Cons.prems by (simp add: n scan_members_head del: scan_members.simps)
  next
    case (Cons m2 ms2)
    then show ?thesis using Cons.IH [of n'] Cons.prems
      by (simp add: n scan_members_head del: scan_members.simps)
  qed
qed simp

lemma entry_text_length: "1 \<le> length (entry_text m)"
  by (simp add: entry_text_def)

lemma join_entries_length: "length ms \<le> length (join_with '','' (map entry_text ms))"
proof (induction ms rule: induct_list012)
  case (3 m m2 ms)
  then show ?case using entry_text_length [of m] by simp
qed (simp_all add: entry_text_length [simplified])

definition object_text :: "(string \<times> string \<times> json) list \<Rightarrow> string" where
  "object_text ms = CHR ''{'' # join_with '','' (map entry_text ms) @ ''}''"

lemma scan_object:
  assumes ok: "list_all (entry_ok d) ms"
  shows "scan_value (Suc d) (object_text ms @ rest) = Some (JObj ms, rest)"
proof (cases ms)
  case Nil
  then show ?thesis by (simp add: object_text_def scan_value.simps)
next
  case (Cons m ms')
  define t where "t = join_with '','' (map entry_text ms) @ CHR ''}'' # rest"
  have o: "object_text ms @ rest = CHR ''{'' # t" by (simp add: object_text_def t_def)
  have "take 1 t = [CHR 0x22]"
    by (cases ms') (simp_all add: t_def Cons entry_text_def quote_string_def)
  then obtain t' where t': "t = CHR 0x22 # t'" by (cases t) auto
  have "length ms \<le> length t" using join_entries_length [of ms] by (simp add: t_def)
  then have "scan_members (\<lambda>u. scan_value d u) (length t) t = Some (ms, rest)"
    unfolding t_def using Cons by (intro scan_members_text [OF _ ok]) simp_all
  then show ?thesis
    by (simp add: o scan_value.simps [of "Suc d"]) (simp add: t' del: scan_members.simps)
qed

lemma encodes_object:
  "list_all (entry_ok d) ms \<Longrightarrow> encodes (Suc d) (object_text ms) (JObj ms)"
  by (simp add: encodes_def scan_object) (simp add: object_text_def)

text \<open>An object is read whatever follows it, as \<open>json.Decoder\<close> does with the first value of a stream.\<close>

lemma json_first_object:
  assumes "list_all (entry_ok (max_nesting_depth - 1)) ms"
  shows "json_first (object_text ms @ rest) = Some ((object_text ms, JObj ms), rest)"
proof -
  have d: "max_nesting_depth = Suc (max_nesting_depth - 1)" by (simp add: max_nesting_depth_def)
  have "skip_ws (object_text ms @ rest) = object_text ms @ rest" by (simp add: object_text_def)
  with scan_object [OF assms, of rest, folded d] show ?thesis by (simp add: json_first_def)
qed

section \<open>Arrays\<close>

lemma scan_elems_text:
  "es \<noteq> [] \<Longrightarrow> list_all (\<lambda>(raw, v). encodes d raw v) es \<Longrightarrow> length es \<le> n \<Longrightarrow>
   scan_elems (\<lambda>u. scan_value d u) n (join_with '','' (map fst es) @ CHR '']'' # rest) = Some (es, rest)"
proof (induction es arbitrary: n)
  case (Cons e es)
  obtain raw v where e: "e = (raw, v)" by (cases e)
  obtain n' where n: "n = Suc n'" using Cons.prems by (cases n) auto
  have enc: "encodes d raw v" using Cons.prems by (simp add: e)
  show ?case
  proof (cases es)
    case Nil
    then show ?thesis by (simp add: n e Let_def encodes_skip_ws [OF enc] encodesD [OF enc])
  next
    case (Cons e2 es2)
    then show ?thesis using Cons.IH [of n'] Cons.prems
      by (simp add: n e Let_def encodes_skip_ws [OF enc] encodesD [OF enc])
  qed
qed simp

lemma join_length: "list_all (\<lambda>s. s \<noteq> []) ss \<Longrightarrow> length ss \<le> length (join_with '','' ss)"
proof (induction ss rule: induct_list012)
  case (3 s s2 ss)
  then show ?case by (cases s) simp_all
qed (simp_all add: Suc_le_eq)

lemma encodes_list:
  assumes ok: "list_all (\<lambda>(raw, v). encodes d raw v) es"
  shows "encodes (Suc d) (''['' @ join_with '','' (map fst es) @ '']'') (JArr es)"
  unfolding encodes_def
proof (intro conjI allI impI)
  fix rest
  let ?text = "''['' @ join_with '','' (map fst es) @ '']''"
  show "scan_value (Suc d) (?text @ rest) = Some (JArr es, rest)"
  proof (cases es)
    case Nil
    then show ?thesis by (simp add: scan_value.simps)
  next
    case (Cons e es')
    obtain raw v where e: "e = (raw, v)" by (cases e)
    have enc: "encodes d raw v" using ok by (simp add: Cons e)
    define t where "t = join_with '','' (map fst es) @ CHR '']'' # rest"
    have o: "?text @ rest = CHR ''['' # t" by (simp add: t_def)
    obtain c t' where t': "t = c # t'" "\<not> json_space c" "c \<noteq> CHR '']''"
    proof -
      obtain h raw' where h: "raw = h # raw'" using enc by (cases raw) (auto simp: encodes_def)
      have "scan_value d (CHR '']'' # x) = None" for x
        by (simp add: scan_value.simps has_prefix_def scan_number_def scan_int_def is_digit_def)
      then have "h \<noteq> CHR '']''" using encodesD [OF enc, of "[]"] by (auto simp: h)
      moreover have "\<not> json_space h" using enc by (simp add: encodes_def h)
      moreover have "\<exists>x. t = h # x" by (cases es') (simp_all add: t_def Cons e h)
      ultimately show thesis using that by blast
    qed
    have "list_all (\<lambda>s. s \<noteq> []) (map fst es)" using ok by (auto simp: list_all_iff encodes_def)
    then have "length es \<le> length t" using join_length [of "map fst es"] by (simp add: t_def)
    then have "scan_elems (\<lambda>u. scan_value d u) (length t) t = Some (es, rest)"
      unfolding t_def using Cons by (intro scan_elems_text [OF _ ok]) simp_all
    then show ?thesis
      unfolding o by (simp add: scan_value.simps [of "Suc d"]) (simp add: t' del: scan_elems.simps)
  qed
qed simp_all

definition array_text :: "string list \<Rightarrow> string" where
  "array_text ss = CHR ''['' # join_with '','' (map quote_string ss) @ '']''"

definition array_value :: "string list \<Rightarrow> json" where
  "array_value ss = JArr (map (\<lambda>s. (quote_string s, JStr s)) ss)"

lemma encodes_array:
  assumes "list_all valid_utf8 ss"
  shows "encodes (Suc d) (array_text ss) (array_value ss)"
  using encodes_list [of d "map (\<lambda>s. (quote_string s, JStr s)) ss"] assms
  by (simp add: array_text_def array_value_def list_all_iff encodes_string comp_def)

lemma encodes_null: "encodes d ''null'' JNull"
  by (simp add: encodes_def scan_value.simps has_prefix_def json_space_def)

lemma dec_list_strings: "dec_list dec_string [] (map (\<lambda>s. (quote_string s, JStr s)) ss) [] = Some ss"
  by (induction ss) (simp_all add: dec_string_def)

lemma dec_string_array: "dec_slice dec_string [] (array_text ss, array_value ss) [] = Some ss"
  by (simp add: dec_slice_def array_value_def dec_list_strings)

lemma unmarshal_encoded: "encodes max_nesting_depth raw v \<Longrightarrow> unmarshal dec zero raw = dec (raw, v) zero"
  using encodesD [of max_nesting_depth raw v "[]"] encodes_skip_ws [of max_nesting_depth raw v "[]"]
    raw_of_append [of raw "[]"]
  by (simp add: unmarshal_def json_parse_def json_first_def)

lemma dec_entries_distinct:
  assumes "distinct (map fst ms)" "\<And>k raw v. (k, raw, v) \<in> set ms \<Longrightarrow> dec (raw, v) zero = Some (f k)"
    "\<And>k. k \<in> fst ` set ms \<Longrightarrow> k \<notin> fst ` set m"
  shows "dec_entries dec zero ms m = Some (m @ map (\<lambda>(k, _). (k, f k)) ms)"
  using assms
proof (induction ms arbitrary: m)
  case (Cons e ms)
  obtain k raw v where e: "e = (k, raw, v)" by (cases e)
  have "AList.update k (f k) m = m @ [(k, f k)]"
    using Cons.prems(3) [of k] by (induction m) (auto simp: e)
  moreover have "dec_entries dec zero ms (m @ [(k, f k)]) =
      Some ((m @ [(k, f k)]) @ map (\<lambda>(k, _). (k, f k)) ms)"
    using Cons.prems by (intro Cons.IH) (auto simp: e)
  ultimately show ?case using Cons.prems(2) [of k raw v] by (simp add: e)
qed simp

section \<open>Maps\<close>

lemma insert_key_map: "insert_key (k, f v) (map (\<lambda>(k, v). (k, f v)) m) = map (\<lambda>(k, v). (k, f v)) (insert_key (k, v) m)"
  by (induction m) auto

lemma sort_keys_map: "sort_keys (map (\<lambda>(k, v). (k, f v)) m) = map (\<lambda>(k, v). (k, f v)) (sort_keys m)"
  by (induction m) (auto simp: sort_keys_def insert_key_map)

lemma mset_insert_key: "mset (insert_key kv m) = add_mset kv (mset m)"
  by (induction m) auto

lemma mset_sort_keys [simp]: "mset (sort_keys m) = mset m"
  by (induction m) (auto simp: sort_keys_def mset_insert_key)

lemma distinct_sort_keys: "distinct_keys (sort_keys m) \<longleftrightarrow> distinct_keys m"
  by (metis mset_eq_imp_distinct_iff mset_map mset_sort_keys)

text \<open>A map whose values are encoded one by one, and what the decoder makes of it.\<close>

definition map_members :: "('v \<Rightarrow> string) \<Rightarrow> ('v \<Rightarrow> json) \<Rightarrow> (string \<times> 'v) list \<Rightarrow> (string \<times> string \<times> json) list" where
  "map_members f g m = map (\<lambda>(k, v). (k, f v, g v)) (sort_keys m)"

lemma marshal_entries_text: "marshal_entries (map (\<lambda>(k, v). (k, f v)) m) = object_text (map_members f g m)"
  by (simp add: marshal_entries_def object_text_def map_members_def sort_keys_map)
     (simp add: entry_text_def case_prod_unfold comp_def)

lemma map_members_ok:
  assumes "\<And>k v. (k, v) \<in> set m \<Longrightarrow> valid_utf8 k" "\<And>k v. (k, v) \<in> set m \<Longrightarrow> encodes d (f v) (g v)"
  shows "list_all (entry_ok d) (map_members f g m)"
  using assms by (auto simp: list_all_iff map_members_def entry_ok_def)

lemma dec_entries_members:
  assumes keys: "distinct_keys m" and dec: "\<And>k v. (k, v) \<in> set m \<Longrightarrow> dec (f v, g v) zero = Some (h v)"
  shows "dec_entries dec zero (map_members f g m) [] = Some (map (\<lambda>(k, v). (k, h v)) (sort_keys m))"
proof -
  let ?v = "\<lambda>k. h (the (map_of (sort_keys m) k))"
  have dk: "distinct_keys (sort_keys m)" using keys by (simp add: distinct_sort_keys)
  have "map fst (map_members f g m) = map fst (sort_keys m)"
    by (simp add: map_members_def case_prod_unfold comp_def)
  with dk have "distinct (map fst (map_members f g m))" by simp
  moreover have "dec (raw, v) zero = Some (?v k)" if "(k, raw, v) \<in> set (map_members f g m)" for k raw v
    using that dec dk by (auto simp: map_members_def)
  ultimately have "dec_entries dec zero (map_members f g m) [] =
      Some ([] @ map (\<lambda>(k, _). (k, ?v k)) (map_members f g m))"
    by (intro dec_entries_distinct) auto
  moreover have "map (\<lambda>(k, _). (k, ?v k)) (map_members f g m) = map (\<lambda>(k, v). (k, h v)) (sort_keys m)"
    using dk by (auto simp: map_members_def)
  ultimately show ?thesis by simp
qed

lemma unmarshal_marshalled_map:
  assumes keys: "distinct_keys m" "\<And>k v. (k, v) \<in> set m \<Longrightarrow> valid_utf8 k"
    and vals: "\<And>k v. (k, v) \<in> set m \<Longrightarrow> encodes (max_nesting_depth - 1) (f v) (g v)"
    and dec: "\<And>k v. (k, v) \<in> set m \<Longrightarrow> dec (f v, g v) zero = Some (h v)"
  shows "unmarshal (dec_map dec zero) None (marshal_entries (map (\<lambda>(k, v). (k, f v)) m)) =
    Some (Some (map (\<lambda>(k, v). (k, h v)) (sort_keys m)))"
proof -
  have d: "max_nesting_depth = Suc (max_nesting_depth - 1)" by (simp add: max_nesting_depth_def)
  have "encodes max_nesting_depth (object_text (map_members f g m)) (JObj (map_members f g m))"
    by (subst d, rule encodes_object, rule map_members_ok) (use keys vals in auto)
  then show ?thesis
    by (simp add: marshal_entries_text [of f _ g] unmarshal_encoded dec_map_def gomap_items_def
        dec_entries_members [of m dec f g zero h, OF keys(1) dec])
qed

lemma unmarshal_string_map:
  assumes "distinct_keys m" "\<And>k v. (k, v) \<in> set m \<Longrightarrow> valid_utf8 k \<and> valid_utf8 v"
  shows "unmarshal (dec_map dec_string []) None (marshal_string_map m) = Some (Some (sort_keys m))"
proof -
  have "unmarshal (dec_map dec_string []) None (marshal_string_map m) =
      Some (Some (map (\<lambda>(k, v). (k, v)) (sort_keys m)))"
    unfolding marshal_string_map_def
    by (rule unmarshal_marshalled_map [where g = JStr]) (use assms in \<open>auto simp: encodes_string dec_string_def\<close>)
  then show ?thesis by simp
qed

end
