(* ===== verification/Self_Collector.thy ===== *)
theory Self_Collector
  imports Sn_Stats Fwd_Metrics Json_Roundtrip
begin

text \<open>
  The sentinel's report on itself (\<open>internal/sentinel/self/collector.go\<close>): a snapshot of the
  traffic statistics as a metrics payload. The last section follows it to the watchtower,
  whose extractor reads it back.
\<close>

section \<open>The collector\<close>

text \<open>\<open>json.Marshal\<close> of a \<open>TypeStats\<close>; its drops are a map that is never nil.\<close>

definition marshal_type_stats :: "sn_type_snapshot \<Rightarrow> string" where
  "marshal_type_stats s =
     ''{'' @ quote_string ''uncompressed_bytes'' @ '':'' @ format_int (ts_total_bytes s) @ '','' @
     quote_string ''wire_bytes'' @ '':'' @ format_int (ts_total_wire_bytes s) @ '','' @
     quote_string ''drops'' @ '':'' @
     marshal_entries (map (\<lambda>(reason, n). (reason, format_int n)) (ts_total_drops s)) @ ''}''"

definition self_stats_json :: "(string \<times> sn_type_snapshot) list \<Rightarrow> string" where
  "self_stats_json snap = marshal_entries (map (\<lambda>(typ, s). (typ, marshal_type_stats s)) snap)"

definition self_emit :: "gtime \<Rightarrow> gtime \<Rightarrow> sn_stats \<Rightarrow> payload option \<times> sn_stats" where
  "self_emit snap_now now st =
     (let ((snap, uptime), st') = sn_snapshot snap_now st
      in (if snap = [] then None
          else Some \<lparr>collected_at = now, p_data = Some [(''self_stats'', self_stats_json snap)]\<rparr>, st'))"

section \<open>Reading it back\<close>

definition drops_ok :: "(string \<times> int) list \<Rightarrow> bool" where
  "drops_ok m \<longleftrightarrow> distinct_keys m \<and> list_all (\<lambda>(r, n). valid_utf8 r \<and> int64_range n) m"

definition entry_encodable :: "sn_entry \<Rightarrow> bool" where
  "entry_encodable e \<longleftrightarrow>
     int64_range (en_total_bytes e) \<and> int64_range (en_total_wire_bytes e) \<and> drops_ok (en_total_drops e)"

definition stats_encodable :: "sn_stats \<Rightarrow> bool" where
  "stats_encodable st \<longleftrightarrow>
     distinct_keys (ss_data st) \<and> list_all (\<lambda>(typ, e). valid_utf8 typ \<and> entry_encodable e) (ss_data st)"

text \<open>What the watchtower should see of a type's counters.\<close>

definition reported :: "sn_entry \<Rightarrow> self_type_stats" where
  "reported e =
     \<lparr>ss_uncompressed_bytes = en_total_bytes e, ss_wire_bytes = en_total_wire_bytes e,
      ss_drops = Some (sort_keys (en_total_drops e))\<rparr>"

abbreviation drop_members :: "(string \<times> int) list \<Rightarrow> (string \<times> string \<times> json) list" where
  "drop_members \<equiv> map_members format_int (\<lambda>n. JNum (format_int n))"

definition type_stats_members :: "sn_type_snapshot \<Rightarrow> (string \<times> string \<times> json) list" where
  "type_stats_members s =
     [(''uncompressed_bytes'', format_int (ts_total_bytes s), JNum (format_int (ts_total_bytes s))),
      (''wire_bytes'', format_int (ts_total_wire_bytes s), JNum (format_int (ts_total_wire_bytes s))),
      (''drops'', object_text (drop_members (ts_total_drops s)), JObj (drop_members (ts_total_drops s)))]"

lemma field_names_valid:
  "valid_utf8 ''uncompressed_bytes''" "valid_utf8 ''wire_bytes''" "valid_utf8 ''drops''"
  by (simp_all add: ascii_valid_utf8)

lemma marshal_type_stats_text: "marshal_type_stats s = object_text (type_stats_members s)"
  by (simp add: marshal_type_stats_def marshal_entries_text [of format_int _ "\<lambda>n. JNum (format_int n)"])
     (simp add: object_text_def [of "type_stats_members s"], simp add: type_stats_members_def entry_text_def)

lemma drops_encode: "drops_ok m \<Longrightarrow> encodes (Suc d) (object_text (drop_members m)) (JObj (drop_members m))"
  by (intro encodes_object map_members_ok) (auto simp: drops_ok_def list_all_iff encodes_int)

lemma type_stats_encode:
  "drops_ok (ts_total_drops s) \<Longrightarrow>
   encodes (Suc (Suc d)) (marshal_type_stats s) (JObj (type_stats_members s))"
  unfolding marshal_type_stats_text
  by (intro encodes_object)
     (simp add: type_stats_members_def entry_ok_def field_names_valid encodes_int drops_encode)

lemma dec_type_stats_fields:
  "members_named (type_stats_members s) ''uncompressed_bytes'' =
     [(format_int (ts_total_bytes s), JNum (format_int (ts_total_bytes s)))]"
  "members_named (type_stats_members s) ''wire_bytes'' =
     [(format_int (ts_total_wire_bytes s), JNum (format_int (ts_total_wire_bytes s)))]"
  "members_named (type_stats_members s) ''drops'' =
     [(object_text (drop_members (ts_total_drops s)), JObj (drop_members (ts_total_drops s)))]"
  by (simp_all add: members_named_def type_stats_members_def Let_def)

lemma dec_drops:
  "drops_ok m \<Longrightarrow> dec_map dec_int64 0 (raw, JObj (drop_members m)) None = Some (Some (sort_keys m))"
proof -
  assume "drops_ok m"
  then have "dec_entries dec_int64 0 (drop_members m) [] = Some (map (\<lambda>(k, v). (k, v)) (sort_keys m))"
    by (intro dec_entries_members) (auto simp: drops_ok_def list_all_iff dec_int64_def parse_int64_format_int)
  then show ?thesis by (simp add: dec_map_def gomap_items_def)
qed

lemma dec_type_stats:
  "entry_encodable e \<Longrightarrow>
   dec_self_type_stats (raw, JObj (type_stats_members (snapshot_entry e))) zero_self_type_stats = Some (reported e)"
  by (simp add: dec_self_type_stats_def dec_struct_def dec_field_def dec_type_stats_fields entry_encodable_def
      dec_drops snapshot_entry_def zero_self_type_stats_def dec_int64_def parse_int64_format_int reported_def)

lemma self_stats_read_back:
  assumes "stats_encodable st"
  shows "append_self_stats ls validator ts (self_stats_json (map (\<lambda>(k, e). (k, snapshot_entry e)) (ss_data st))) =
    ls @ concat (map (\<lambda>(typ, e). self_type_lines validator ts (typ, reported e)) (sort_keys (ss_data st)))"
proof -
  let ?f = "\<lambda>e. marshal_type_stats (snapshot_entry e)"
  let ?g = "\<lambda>e. JObj (type_stats_members (snapshot_entry e))"
  have "self_stats_json (map (\<lambda>(k, e). (k, snapshot_entry e)) (ss_data st)) =
      marshal_entries (map (\<lambda>(k, e). (k, ?f e)) (ss_data st))"
    by (simp add: self_stats_json_def case_prod_unfold comp_def)
  moreover have "unmarshal (dec_map dec_self_type_stats zero_self_type_stats) None
      (marshal_entries (map (\<lambda>(k, e). (k, ?f e)) (ss_data st))) =
      Some (Some (map (\<lambda>(k, e). (k, reported e)) (sort_keys (ss_data st))))"
  proof (rule unmarshal_marshalled_map [where g = ?g])
    have d: "max_nesting_depth - 1 = Suc (Suc (max_nesting_depth - 3))" by (simp add: max_nesting_depth_def)
    show "encodes (max_nesting_depth - 1) (?f e) (?g e)" if "(k, e) \<in> set (ss_data st)" for k e
      unfolding d using assms that
      by (intro type_stats_encode) (auto simp: stats_encodable_def list_all_iff entry_encodable_def snapshot_entry_def)
    show "dec_self_type_stats (?f e, ?g e) zero_self_type_stats = Some (reported e)"
      if "(k, e) \<in> set (ss_data st)" for k e
      using assms that by (intro dec_type_stats) (auto simp: stats_encodable_def list_all_iff)
  qed (use assms in \<open>auto simp: stats_encodable_def list_all_iff\<close>)
  ultimately show ?thesis
    by (simp add: append_self_stats_def gomap_items_def case_prod_unfold comp_def)
qed

section \<open>Every run's statistics can be reported\<close>

fun labels_valid :: "stat_event counter_event \<Rightarrow> bool" where
  "labels_valid (Event (SentEvent typ u w)) = valid_utf8 typ"
| "labels_valid (Event (DropEvent typ reason)) = (valid_utf8 typ \<and> valid_utf8 reason)"
| "labels_valid TakeSnapshot = True"

lemma zero_entry_encodable: "entry_encodable zero_sn_entry"
  by (simp add: entry_encodable_def zero_sn_entry_def drops_ok_def)

lemma get_or_create_encodable: "stats_encodable st \<Longrightarrow> entry_encodable (get_or_create typ st)"
  by (auto simp: get_or_create_def stats_encodable_def list_all_iff zero_entry_encodable
      split: option.split dest: map_of_SomeD)

lemma update_encodable:
  assumes "stats_encodable st" "valid_utf8 typ" "entry_encodable e"
  shows "stats_encodable (st\<lparr>ss_data := AList.update typ e (ss_data st)\<rparr>)"
proof -
  have "set (AList.update typ e m) \<subseteq> insert (typ, e) (set m)" for m :: "(string \<times> sn_entry) list"
    by (induction m) auto
  with assms show ?thesis by (fastforce simp: stats_encodable_def list_all_iff distinct_update)
qed

lemma incr_count_ok:
  assumes "drops_ok m" "valid_utf8 reason"
  shows "drops_ok (incr_count reason m)"
proof -
  have "set (AList.update reason n m) \<subseteq> insert (reason, n) (set m)" for n
    by (induction m) auto
  with assms show ?thesis
    by (fastforce simp: drops_ok_def incr_count_def list_all_iff distinct_update wrap64_range)
qed

lemma stat_apply_encodable:
  "stats_encodable st \<Longrightarrow> labels_valid (Event ev) \<Longrightarrow> stats_encodable (stat_apply ev st)"
  using get_or_create_encodable [of st]
  by (cases ev)
     (auto simp: record_sent_def record_drop_def Let_def entry_encodable_def wrap64_range incr_count_ok
        intro!: update_encodable)

lemma snapshot_encodable: "stats_encodable st \<Longrightarrow> stats_encodable (snd (sn_snapshot now st))"
  by (auto simp: sn_snapshot_def stats_encodable_def list_all_iff entry_encodable_def reset_entry_def
      case_prod_unfold comp_def)

lemma sn_run_encodable:
  "list_all labels_valid xs \<Longrightarrow> stats_encodable st \<Longrightarrow> stats_encodable (snd (sn_run now xs st))"
proof (induction now xs st rule: sn_run.induct)
  case (3 now xs s)
  then show ?case using snapshot_encodable [of s now] by simp
qed (simp_all add: stat_apply_encodable)

text \<open>C32: after any run of sends, drops and snapshots with valid labels, what the self collector
  emits is read back by the watchtower exactly: one group of samples per type, with the
  byte totals and every drop count of that type; and nothing is emitted only when nothing
  was recorded.\<close>

theorem self_stats_reach_watchtower:
  assumes "list_all labels_valid xs" "st = snd (sn_run now xs (new_sn_stats t))"
  shows "case fst (self_emit snap_now ts st) of
      None \<Rightarrow> ss_data st = []
    | Some p \<Rightarrow>
        extract_metrics validator p =
          concat (map (\<lambda>(typ, e). self_type_lines validator (unix_milli ts) (typ, reported e)) (sort_keys (ss_data st)))"
proof -
  have "stats_encodable (new_sn_stats t)" by (simp add: new_sn_stats_def stats_encodable_def)
  with assms have "stats_encodable st" using sn_run_encodable by simp
  from self_stats_read_back [OF this, of "[]"] show ?thesis
    by (simp add: self_emit_def sn_snapshot_def extract_metrics_def append_metrics_key_def gomap_items_def)
qed

theorem self_stats_reach_watchtower_witness:
  "let st = snd (sn_run 0 [Event (SentEvent ''rpc'' 100 100), Event (DropEvent ''logs'' ''buffer_full'')] (new_sn_stats 0))
   in case fst (self_emit 0 0 st) of
        None \<Rightarrow> ss_data st = []
      | Some p \<Rightarrow>
          extract_metrics ''v1'' p =
            concat (map (\<lambda>(typ, e). self_type_lines ''v1'' (unix_milli 0) (typ, reported e)) (sort_keys (ss_data st)))"
proof -
  have "list_all labels_valid [Event (SentEvent ''rpc'' 100 100), Event (DropEvent ''logs'' ''buffer_full'')]"
    by (simp add: ascii_valid_utf8)
  from self_stats_reach_watchtower [OF this refl] show ?thesis unfolding Let_def .
qed

end
