(* ===== verification/Resource_Collector.thy ===== *)
theory Resource_Collector
  imports Delta Fwd_Metrics
begin

text \<open>
  The sentinel's resource collector (\<open>internal/sentinel/resources/collector.go\<close>,
  \<open>docker.go\<close>): host and container readings, each sent when its digest is new. The readings
  of gopsutil (already encoded; \<open>None\<close> is an error of the reading or of the encoder) and of
  the docker client are arguments.
\<close>

section \<open>Container statistics\<close>

text \<open>What the docker client gives: no client, no answer, or a body whose reading may fail.\<close>

datatype docker_answer = NoClient | NoStats | StatsBody string bool

definition container_stats_from_client :: "docker_answer \<Rightarrow> string option" where
  "container_stats_from_client ans =
     (case ans of
        StatsBody b fails \<Rightarrow> if fails then None else if json_valid b then Some b else None
      | _ \<Rightarrow> None)"

section \<open>The collector\<close>

record resource_readings =
  rr_cpu :: "string option"
  rr_memory :: "string option"
  rr_disk :: "string option"
  rr_network :: "string option"
  rr_docker :: docker_answer
  rr_now :: gtime

record resource_collector =
  rs_source :: string
  rs_delta :: delta

definition new_resource_collector :: "string \<Rightarrow> resource_collector" where
  "new_resource_collector source = \<lparr>rs_source = source, rs_delta = new_delta\<rparr>"

text \<open>One reading: sent if there is one and its digest is new.\<close>

definition report_reading ::
  "string \<times> string option \<Rightarrow> (string \<times> string) list \<times> delta \<Rightarrow> (string \<times> string) list \<times> delta" where
  "report_reading kr st =
     (case snd kr of
        None \<Rightarrow> st
      | Some b \<Rightarrow>
          (let (new, d) = changed (fst kr) b (snd st)
           in (if new then AList.update (fst kr) b (fst st) else fst st, d)))"

definition collect_host :: "resource_readings \<Rightarrow> (string \<times> string) list \<times> delta \<Rightarrow> (string \<times> string) list \<times> delta" where
  "collect_host r st =
     report_reading (''network'', rr_network r)
       (report_reading (''disk'', rr_disk r)
         (report_reading (''memory'', rr_memory r)
           (report_reading (''cpu'', rr_cpu r) st)))"

definition collect_docker :: "resource_readings \<Rightarrow> (string \<times> string) list \<times> delta \<Rightarrow> (string \<times> string) list \<times> delta" where
  "collect_docker r st = report_reading (''container'', container_stats_from_client (rr_docker r)) st"

definition collect_resources ::
  "resource_readings \<Rightarrow> resource_collector \<Rightarrow> payload option \<times> resource_collector" where
  "collect_resources r c =
     (let st0 = ([], rs_delta c);
          st1 = (if rs_source c = ''host'' \<or> rs_source c = ''both'' then collect_host r st0 else st0);
          (data, d) = (if rs_source c = ''docker'' \<or> rs_source c = ''both'' then collect_docker r st1 else st1)
      in (if data = [] then None else Some \<lparr>collected_at = rr_now r, p_data = Some data\<rparr>, c\<lparr>rs_delta := d\<rparr>))"

fun resource_run :: "resource_readings list \<Rightarrow> resource_collector \<Rightarrow> payload option list \<times> resource_collector" where
  "resource_run [] c = ([], c)"
| "resource_run (r # rs) c =
     (let (p, c1) = collect_resources r c; (ps, c2) = resource_run rs c1 in (p # ps, c2))"

section \<open>What is reported\<close>

text \<open>The readings a poll takes, given the configured source, and that of one key.\<close>

definition readings_of :: "string \<Rightarrow> resource_readings \<Rightarrow> (string \<times> string option) list" where
  "readings_of source r =
     (if source = ''host'' \<or> source = ''both''
      then [(''cpu'', rr_cpu r), (''memory'', rr_memory r), (''disk'', rr_disk r), (''network'', rr_network r)] else []) @
     (if source = ''docker'' \<or> source = ''both'' then [(''container'', container_stats_from_client (rr_docker r))] else [])"

definition reading :: "string \<Rightarrow> string \<Rightarrow> resource_readings \<Rightarrow> string option" where
  "reading source key r = (case map_of (readings_of source r) key of None \<Rightarrow> None | Some b \<Rightarrow> b)"

definition reported_value :: "payload option \<Rightarrow> string \<Rightarrow> string option" where
  "reported_value p key = (case p of None \<Rightarrow> None | Some q \<Rightarrow> map_of (gomap_items (p_data q)) key)"

lemma report_reading_data:
  "map_of (fst (report_reading kr st)) key =
     (case snd kr of
        Some b \<Rightarrow> if key = fst kr \<and> hash_at (snd st) key \<noteq> sha256 b then Some b else map_of (fst st) key
      | None \<Rightarrow> map_of (fst st) key)"
  by (auto simp: report_reading_def changed_def Let_def update_conv' split: option.split)

lemma report_reading_hash:
  "hash_at (snd (report_reading kr st)) key =
     (case snd kr of
        Some b \<Rightarrow> if key = fst kr then sha256 b else hash_at (snd st) key
      | None \<Rightarrow> hash_at (snd st) key)"
  by (auto simp: report_reading_def changed_def hash_at_def Let_def split: option.split)

lemma report_readings:
  "distinct_keys krs \<Longrightarrow>
   map_of (fst (foldl (\<lambda>st kr. report_reading kr st) st krs)) key =
     (case map_of krs key of
        Some (Some b) \<Rightarrow> if hash_at (snd st) key \<noteq> sha256 b then Some b else map_of (fst st) key
      | _ \<Rightarrow> map_of (fst st) key) \<and>
   hash_at (snd (foldl (\<lambda>st kr. report_reading kr st) st krs)) key =
     (case map_of krs key of Some (Some b) \<Rightarrow> sha256 b | _ \<Rightarrow> hash_at (snd st) key)"
proof (induction krs arbitrary: st)
  case (Cons kr krs)
  obtain k ob where kr: "kr = (k, ob)" by (cases kr)
  have "k = key \<Longrightarrow> map_of krs key = None" using Cons.prems by (auto simp: kr map_of_eq_None_iff)
  with Cons.IH [of "report_reading kr st"] Cons.prems show ?case
    by (auto simp: kr report_reading_data report_reading_hash split: option.splits)
qed simp

lemma collect_resources_fold:
  "collect_resources r c =
     (let (data, d) = foldl (\<lambda>st kr. report_reading kr st) ([], rs_delta c) (readings_of (rs_source c) r)
      in (if data = [] then None else Some \<lparr>collected_at = rr_now r, p_data = Some data\<rparr>, c\<lparr>rs_delta := d\<rparr>))"
  by (simp add: collect_resources_def readings_of_def collect_host_def collect_docker_def Let_def)

lemma readings_distinct: "distinct_keys (readings_of source r)"
  by (auto simp: readings_of_def)

lemma collect_resources_value:
  "reported_value (fst (collect_resources r c)) key =
     (case reading (rs_source c) key r of
        Some b \<Rightarrow> if hash_at (rs_delta c) key \<noteq> sha256 b then Some b else None
      | None \<Rightarrow> None)"
  using report_readings [OF readings_distinct [of "rs_source c" r], of "([], rs_delta c)" key]
  by (auto simp: collect_resources_fold reported_value_def reading_def case_prod_unfold Let_def gomap_items_def
      split: option.splits)

lemma collect_resources_hash:
  "hash_at (rs_delta (snd (collect_resources r c))) key =
     (case reading (rs_source c) key r of Some b \<Rightarrow> sha256 b | None \<Rightarrow> hash_at (rs_delta c) key)"
  using report_readings [OF readings_distinct [of "rs_source c" r], of "([], rs_delta c)" key]
  by (auto simp: collect_resources_fold reading_def case_prod_unfold Let_def split: option.splits)

lemma collect_resources_source [simp]: "rs_source (snd (collect_resources r c)) = rs_source c"
  by (simp add: collect_resources_fold case_prod_unfold Let_def)

text \<open>Over any run of polls and for each kind of reading the configured source has, the values
  in the payloads are exactly the changes: their digests, after the one kept, are those of
  all readings taken with adjacent repetitions removed, whatever readings fail in between.\<close>

theorem resources_report_changes:
  "hash_at (rs_delta c) key #
     map sha256 (List.map_filter (\<lambda>p. reported_value p key) (fst (resource_run rs c))) =
   remdups_adj (hash_at (rs_delta c) key #
     map sha256 (List.map_filter (reading (rs_source c) key) rs))"
proof (induction rs arbitrary: c)
  case (Cons r rs)
  let ?c1 = "snd (collect_resources r c)"
  have run: "fst (resource_run (r # rs) c) = fst (collect_resources r c) # fst (resource_run rs ?c1)"
    by (simp add: case_prod_unfold Let_def)
  note IH = Cons.IH [of ?c1, unfolded collect_resources_hash collect_resources_source]
  show ?case
  proof (cases "reading (rs_source c) key r")
    case None
    with IH show ?thesis by (simp add: run map_filter_simps collect_resources_value del: resource_run.simps)
  next
    case (Some b)
    with IH show ?thesis
      by (auto simp: run map_filter_simps collect_resources_value remdups_adj_Cons_Cons
          simp del: remdups_adj.simps resource_run.simps)
  qed
qed (simp add: map_filter_simps)

end
