(* ===== verification/Termstyle.thy ===== *)
theory Termstyle
  imports Json
begin

text \<open>
  Status lines for the terminal (\<open>pkg/termstyle/termstyle.go\<close>): a symbol, coloured when
  colours are on, a label padded to a column and a detail. Whether colours are on
  (\<open>NO_COLOR\<close> unset and standard output a terminal) is an argument.
\<close>

section \<open>Padding\<close>

text \<open>\<open>utf8.RuneCountInString\<close>: an invalid byte counts as one rune. \<open>%-20s\<close> pads with blanks
  on the right, measured in runes.\<close>

fun rune_count_from :: "nat \<Rightarrow> string \<Rightarrow> nat" where
  "rune_count_from 0 s = 0"
| "rune_count_from (Suc n) s =
     (if s = [] then 0
      else Suc (rune_count_from n (drop (case utf8_len s of None \<Rightarrow> 1 | Some k \<Rightarrow> k) s)))"

definition rune_count :: "string \<Rightarrow> nat" where
  "rune_count s = rune_count_from (length s) s"

definition pad_right :: "nat \<Rightarrow> string \<Rightarrow> string" where
  "pad_right w s = s @ replicate (w - rune_count s) (CHR '' '')"

section \<open>Colours and symbols\<close>

definition ansi :: "string \<Rightarrow> string" where
  "ansi code = CHR 0x1B # ''['' @ code @ ''m''"

definition green :: string where "green = ansi ''32''"
definition red :: string where "red = ansi ''31''"
definition yellow :: string where "yellow = ansi ''33''"
definition dim :: string where "dim = ansi ''2''"
definition reset :: string where "reset = ansi ''0''"

definition sym_ok :: string where "sym_ok = [CHR 0xE2, CHR 0x9C, CHR 0x94]"
definition sym_fail :: string where "sym_fail = [CHR 0xE2, CHR 0x9C, CHR 0x98]"
definition sym_off :: string where "sym_off = [CHR 0xE2, CHR 0x97, CHR 0x8B]"
definition sym_skip :: string where "sym_skip = ''~''"

definition compute_colors_enabled :: "string option \<Rightarrow> bool \<Rightarrow> bool" where
  "compute_colors_enabled no_color is_terminal =
     (case no_color of Some _ \<Rightarrow> False | None \<Rightarrow> is_terminal)"

definition colored :: "bool \<Rightarrow> string \<Rightarrow> string \<Rightarrow> string" where
  "colored on color s = (if \<not> on then s else color @ s @ reset)"

section \<open>Lines\<close>

definition status_line :: "string \<Rightarrow> nat \<Rightarrow> string \<Rightarrow> string \<Rightarrow> string \<Rightarrow> string" where
  "status_line indent w mark label detail = indent @ mark @ '' '' @ pad_right w label @ '' '' @ detail"

definition ok_line :: "bool \<Rightarrow> string \<Rightarrow> string \<Rightarrow> string" where
  "ok_line on label detail = status_line ''  '' 20 (colored on green sym_ok) label detail"

definition fail_line :: "bool \<Rightarrow> string \<Rightarrow> string \<Rightarrow> string" where
  "fail_line on label detail = status_line ''  '' 20 (colored on red sym_fail) label detail"

definition off_line :: "bool \<Rightarrow> string \<Rightarrow> string \<Rightarrow> string" where
  "off_line on label detail = status_line ''  '' 20 (colored on yellow sym_off) label detail"

definition skip_line :: "bool \<Rightarrow> string \<Rightarrow> string \<Rightarrow> string" where
  "skip_line on label detail =
     (if \<not> on then status_line ''  '' 20 sym_skip label detail
      else ''  '' @ dim @ sym_skip @ '' '' @ pad_right 20 label @ '' '' @ detail @ reset)"

definition sub_ok_line :: "bool \<Rightarrow> string \<Rightarrow> string \<Rightarrow> string" where
  "sub_ok_line on label detail = status_line ''    '' 18 (colored on green sym_ok) label detail"

definition sub_fail_line :: "bool \<Rightarrow> string \<Rightarrow> string \<Rightarrow> string" where
  "sub_fail_line on label detail = status_line ''    '' 18 (colored on red sym_fail) label detail"

section \<open>Without colours\<close>

lemma rune_count_from_le: "length s \<le> n \<Longrightarrow> rune_count_from n s \<le> length s"
proof (induction n arbitrary: s)
  case (Suc n)
  let ?k = "case utf8_len s of None \<Rightarrow> 1 | Some k \<Rightarrow> k"
  have k: "s \<noteq> [] \<Longrightarrow> 1 \<le> ?k \<and> ?k \<le> length s"
    by (auto simp: utf8_len_def Let_def Suc_le_eq split: list.splits if_splits option.splits)
  with Suc.prems have "s \<noteq> [] \<Longrightarrow> length (drop ?k s) \<le> n" by fastforce
  with Suc.IH [of "drop ?k s"] k show ?case by (cases "s = []") fastforce+
qed simp

lemma rune_count_le: "rune_count s \<le> length s"
  by (simp add: rune_count_def rune_count_from_le)

text \<open>A padded label takes at least its column.\<close>

lemma pad_right_length: "w \<le> length (pad_right w s)"
  using rune_count_le [of s] by (simp add: pad_right_def)

end
