(* ===== verification/Noise_Keys.thy ===== *)
theory Noise_Keys
  imports Json_Roundtrip
begin

text \<open>
  Noise keys on disk (\<open>pkg/noise/keys.go\<close>): hex encoding, the two files of a keys directory
  and the parser of public keys. A directory is the contents of its files by name; whether
  a file can be written is an argument. Generating a pair belongs to the Noise library.
\<close>

section \<open>Hex\<close>

definition hex_encode :: "string \<Rightarrow> string" where
  "hex_encode s =
     concat (map (\<lambda>c. [hex_digit (of_char c div 16), hex_digit (of_char c mod 16)]) s)"

fun hex_decode :: "string \<Rightarrow> string option" where
  "hex_decode [] = Some []"
| "hex_decode [_] = None"
| "hex_decode (a # b # r) =
     (case (hex_val a, hex_val b) of
        (Some x, Some y) \<Rightarrow> map_option ((#) (char_of (16 * x + y))) (hex_decode r)
      | _ \<Rightarrow> None)"

section \<open>Key files\<close>

record keypair =
  kp_private :: string
  kp_public :: string

definition priv_key_filename :: string where "priv_key_filename = ''privkey''"
definition pub_key_filename :: string where "pub_key_filename = ''pubkey''"

type_synonym key_dir = "string \<rightharpoonup> string"

datatype key_error = BadSizes | WriteFails string | ReadFails string | BadHex string | BadLength string

definition write_file :: "(string \<Rightarrow> bool) \<Rightarrow> string \<Rightarrow> string \<Rightarrow> key_dir \<Rightarrow> key_error option \<times> key_dir" where
  "write_file writable name data d =
     (if writable name then (None, d(name \<mapsto> data)) else (Some (WriteFails name), d))"

definition write_keypair :: "(string \<Rightarrow> bool) \<Rightarrow> keypair \<Rightarrow> key_dir \<Rightarrow> key_error option \<times> key_dir" where
  "write_keypair writable kp d =
     (if length (kp_private kp) \<noteq> 32 \<or> length (kp_public kp) \<noteq> 32 then (Some BadSizes, d)
      else
        (case write_file writable priv_key_filename (hex_encode (kp_private kp) @ [CHR 0x0A]) d of
           (Some err, d1) \<Rightarrow> (Some err, d1)
         | (None, d1) \<Rightarrow> write_file writable pub_key_filename (hex_encode (kp_public kp) @ [CHR 0x0A]) d1))"

definition load_hex_file :: "key_dir \<Rightarrow> string \<Rightarrow> nat \<Rightarrow> key_error + string" where
  "load_hex_file d name want_len =
     (case d name of
        None \<Rightarrow> Inl (ReadFails name)
      | Some b \<Rightarrow>
          (case hex_decode (trim_space b) of
             None \<Rightarrow> Inl (BadHex name)
           | Some key \<Rightarrow> if length key \<noteq> want_len then Inl (BadLength name) else Inr key))"

definition load_keypair :: "key_dir \<Rightarrow> key_error + keypair" where
  "load_keypair d =
     (case load_hex_file d priv_key_filename 32 of
        Inl err \<Rightarrow> Inl err
      | Inr priv \<Rightarrow>
          (case load_hex_file d pub_key_filename 32 of
             Inl err \<Rightarrow> Inl err
           | Inr pub \<Rightarrow> Inr \<lparr>kp_private = priv, kp_public = pub\<rparr>))"

definition decode_public_key :: "string \<Rightarrow> string option" where
  "decode_public_key s =
     (case hex_decode (trim_space s) of
        None \<Rightarrow> None
      | Some key \<Rightarrow> if length key \<noteq> 32 then None else Some key)"

section \<open>Reading back\<close>

lemma byte_halves: "(of_char c :: nat) div 16 < 16" "(of_char c :: nat) mod 16 < 16"
  using nat_of_char_less_256 [of c] by (auto simp: less_mult_imp_div_less)

lemma hex_decode_encode [simp]: "hex_decode (hex_encode s) = Some s"
  by (induction s) (simp_all add: hex_encode_def hex_val_digit byte_halves)

lemma hex_digit_not_space: "d < 16 \<Longrightarrow> \<not> ascii_space (hex_digit d) \<and> (of_char (hex_digit d) :: nat) < 128"
  by (auto simp: ascii_space_def hex_digit_def of_char_of dest!: arg_cong [where f = "of_char :: char \<Rightarrow> nat"])

text \<open>Text without white space: \<open>strings.TrimSpace\<close> removes what surrounds it and no more.\<close>

definition plain_text :: "string \<Rightarrow> bool" where
  "plain_text s \<longleftrightarrow> s \<noteq> [] \<and> list_all (\<lambda>c. \<not> ascii_space c \<and> (of_char c :: nat) < 128) s"

lemma ascii_no_wide_space:
  assumes "(of_char c :: nat) < 128"
  shows "\<not> space2 c b" "\<not> space3 c a b" "\<not> space2 b c" "\<not> space3 a b c"
  using assms by (auto simp: space2_def space3_def)

lemma trim_left_plain:
  assumes "\<not> ascii_space c" "(of_char c :: nat) < 128"
  shows "trim_left (c # s) = c # s"
proof -
  consider "s = []" | x where "s = [x]" | x y r where "s = x # y # r" by (metis list.exhaust)
  then show ?thesis by cases (simp_all add: assms ascii_no_wide_space)
qed

lemma trim_left_rev_plain:
  assumes "\<not> ascii_space c" "(of_char c :: nat) < 128"
  shows "trim_left_rev (c # s) = c # s"
proof -
  consider "s = []" | x where "s = [x]" | x y r where "s = x # y # r" by (metis list.exhaust)
  then show ?thesis by cases (simp_all add: assms ascii_no_wide_space)
qed

lemma trim_left_rev_newline: "trim_left_rev (CHR 0x0A # s) = trim_left_rev s"
proof -
  consider "s = []" | x where "s = [x]" | x y r where "s = x # y # r" by (metis list.exhaust)
  then show ?thesis by cases (simp_all add: ascii_space_def)
qed

lemma trim_space_line:
  assumes "plain_text s"
  shows "trim_space (s @ [CHR 0x0A]) = s" "trim_space s = s"
proof -
  obtain c t where s: "s = c # t" using assms by (cases s) (auto simp: plain_text_def)
  obtain u d where r: "s = u @ [d]" using assms by (cases s rule: rev_cases) (auto simp: plain_text_def)
  have c: "trim_left (s @ x) = s @ x" for x
    using assms s trim_left_plain [of c] by (simp add: plain_text_def)
  have d: "trim_left_rev (rev s) = rev s"
    using assms r trim_left_rev_plain [of d] by (simp add: plain_text_def)
  show "trim_space (s @ [CHR 0x0A]) = s" "trim_space s = s"
    using c [of "[CHR 0x0A]"] c [of "[]"] d by (simp_all add: trim_space_def trim_left_rev_newline)
qed

lemma hex_encode_plain: "s \<noteq> [] \<Longrightarrow> plain_text (hex_encode s)"
  by (cases s) (auto simp: plain_text_def hex_encode_def list_all_iff byte_halves hex_digit_not_space)

lemma trim_key_line: "length key = 32 \<Longrightarrow> trim_space (hex_encode key @ [CHR 0x0A]) = hex_encode key"
  by (rule trim_space_line, rule hex_encode_plain) auto

lemma load_written_file:
  "length key = 32 \<Longrightarrow> d name = Some (hex_encode key @ [CHR 0x0A]) \<Longrightarrow> load_hex_file d name 32 = Inr key"
  by (simp add: load_hex_file_def trim_key_line)

lemma key_line_decodes: "length key = 32 \<Longrightarrow> decode_public_key (hex_encode key @ [CHR 0x0A]) = Some key"
  by (simp add: decode_public_key_def trim_key_line)

text \<open>A key pair of the right sizes that is written without an error is the pair read back
  from the directory, its public file decodes to the public key, and a pair of any other
  size is refused before a file is touched.\<close>

lemma keypair_files_roundtrip:
  assumes "write_keypair writable kp d = (err, d')"
  shows "(err = None \<longrightarrow> load_keypair d' = Inr kp \<and>
            (\<exists>txt. d' pub_key_filename = Some txt \<and> decode_public_key txt = Some (kp_public kp))) \<and>
         (length (kp_private kp) \<noteq> 32 \<or> length (kp_public kp) \<noteq> 32 \<longrightarrow> err = Some BadSizes \<and> d' = d)"
proof (cases "length (kp_private kp) = 32 \<and> length (kp_public kp) = 32")
  case True
  show ?thesis
  proof (cases "writable priv_key_filename \<and> writable pub_key_filename")
    case w: True
    have d': "d' = d(priv_key_filename \<mapsto> hex_encode (kp_private kp) @ [CHR 0x0A],
                     pub_key_filename \<mapsto> hex_encode (kp_public kp) @ [CHR 0x0A])"
      and e: "err = None"
      using assms True w by (simp_all add: write_keypair_def write_file_def)
    have "load_hex_file d' priv_key_filename 32 = Inr (kp_private kp)"
      "load_hex_file d' pub_key_filename 32 = Inr (kp_public kp)"
      using True by (intro load_written_file; simp add: d' priv_key_filename_def pub_key_filename_def)+
    moreover have "decode_public_key (hex_encode (kp_public kp) @ [CHR 0x0A]) = Some (kp_public kp)"
      using True by (simp add: decode_public_key_def trim_key_line)
    ultimately show ?thesis using True by (simp add: load_keypair_def d' e)
  next
    case False
    with assms True show ?thesis by (auto simp: write_keypair_def write_file_def split: if_splits)
  qed
next
  case False
  with assms show ?thesis by (auto simp: write_keypair_def)
qed

definition demo_keypair :: keypair where
  "demo_keypair = \<lparr>kp_private = replicate 32 (CHR 0xA5), kp_public = replicate 32 (CHR 0x0F)\<rparr>"

end
