(* ===== verification/Noise_Conn.thy ===== *)
theory Noise_Conn
  imports Prelude "HOL-Library.Sublist"
begin

text \<open>
  The framed, encrypted connection (\<open>pkg/noise/conn.go\<close>). The cipher states of the Noise
  library are arguments: \<open>enc\<close> and \<open>dec\<close> take a state and a text and return the other text
  with the next state, or fail. The transport underneath is the byte sequence the peer has
  sent (then end of file) and, for writing, a sink that takes bytes or fails. Deadlines and
  addresses are those of the transport; the two mutexes make each call one step.
\<close>

section \<open>Frames\<close>

definition max_noise_plaintext :: nat where
  "max_noise_plaintext = 65535 - 16 - 16"

datatype conn_error = Eof | UnexpectedEof | ZeroFrame | DecryptFails | ZeroPlaintext
  | EncryptFails | FrameTooLarge | SinkFails

text \<open>\<open>io.ReadFull\<close>: at the end of the input it gives \<open>EOF\<close>, in the middle \<open>ErrUnexpectedEOF\<close>.\<close>

definition read_full :: "nat \<Rightarrow> string \<Rightarrow> (conn_error + string) \<times> string" where
  "read_full n s =
     (if n \<le> length s then (Inr (take n s), drop n s)
      else if s = [] then (Inl Eof, []) else (Inl UnexpectedEof, []))"

definition be16 :: "string \<Rightarrow> nat" where
  "be16 h = of_char (h ! 0) * 256 + of_char (h ! 1)"

definition put_be16 :: "nat \<Rightarrow> string" where
  "put_be16 n = [char_of (n div 256 mod 256), char_of (n mod 256)]"

definition read_frame :: "string \<Rightarrow> (conn_error + string) \<times> string" where
  "read_frame s =
     (case read_full 2 s of
        (Inl err, r) \<Rightarrow> (Inl err, r)
      | (Inr hdr, r) \<Rightarrow> if be16 hdr = 0 then (Inl ZeroFrame, r) else read_full (be16 hdr) r)"

text \<open>A sink takes bytes and says whether it took all of them.\<close>

type_synonym 'w sink = "'w \<Rightarrow> string \<Rightarrow> bool \<times> 'w"

definition write_frame :: "'w sink \<Rightarrow> 'w \<Rightarrow> string \<Rightarrow> conn_error option \<times> 'w" where
  "write_frame sink w payload =
     (if 65535 < length payload then (Some FrameTooLarge, w)
      else
        (let (ok1, w1) = sink w (put_be16 (length payload))
         in if \<not> ok1 then (Some SinkFails, w1)
            else (let (ok2, w2) = sink w1 payload in (if ok2 then None else Some SinkFails, w2))))"

section \<open>The connection\<close>

record ('s, 'r) conn =
  cn_peer_static :: string
  cn_send :: 's
  cn_recv :: 'r
  cn_read_buf :: string

type_synonym 'c cipher = "'c \<Rightarrow> string \<Rightarrow> (string \<times> 'c) option"

text \<open>\<open>Read\<close> into a slice of \<open>n\<close> bytes: the bytes or the error, the connection and what is left
  of the peer's bytes.\<close>

definition conn_read ::
  "'r cipher \<Rightarrow> nat \<Rightarrow> ('s, 'r) conn \<Rightarrow> string \<Rightarrow> (conn_error + string) \<times> ('s, 'r) conn \<times> string" where
  "conn_read dec n c inp =
     (if cn_read_buf c \<noteq> [] then
        (Inr (take n (cn_read_buf c)), c\<lparr>cn_read_buf := drop n (cn_read_buf c)\<rparr>, inp)
      else
        (case read_frame inp of
           (Inl err, inp1) \<Rightarrow> (Inl err, c, inp1)
         | (Inr frame, inp1) \<Rightarrow>
             (case dec (cn_recv c) frame of
                None \<Rightarrow> (Inl DecryptFails, c, inp1)
              | Some (plain, r1) \<Rightarrow>
                  if plain = [] then (Inl ZeroPlaintext, c\<lparr>cn_recv := r1\<rparr>, inp1)
                  else (Inr (take n plain), c\<lparr>cn_recv := r1, cn_read_buf := drop n plain\<rparr>, inp1))))"

text \<open>\<open>Write\<close>: the bytes sent so far, the error if any, the cipher state and the sink.\<close>

function conn_write_loop ::
  "'s cipher \<Rightarrow> 'w sink \<Rightarrow> nat \<Rightarrow> 's \<Rightarrow> 'w \<Rightarrow> string \<Rightarrow>
   (nat \<times> conn_error option) \<times> 's \<times> 'w" where
  "conn_write_loop enc sink sent s w p =
     (if p = [] then ((sent, None), s, w)
      else
        (let chunk = take max_noise_plaintext p
         in case enc s chunk of
              None \<Rightarrow> ((sent, Some EncryptFails), s, w)
            | Some (ct, s1) \<Rightarrow>
                (case write_frame sink w ct of
                   (Some err, w1) \<Rightarrow> ((sent, Some err), s1, w1)
                 | (None, w1) \<Rightarrow>
                     conn_write_loop enc sink (sent + length chunk) s1 w1 (drop (length chunk) p))))"
  by pat_completeness auto
termination
  by (relation "measure (\<lambda>(enc, sink, sent, s, w, p). length p)") (auto simp: max_noise_plaintext_def)

definition conn_write ::
  "'s cipher \<Rightarrow> 'w sink \<Rightarrow> string \<Rightarrow> ('s, 'r) conn \<Rightarrow> 'w \<Rightarrow>
   (nat \<times> conn_error option) \<times> ('s, 'r) conn \<times> 'w" where
  "conn_write enc sink p c w =
     (let (res, s1, w1) = conn_write_loop enc sink 0 (cn_send c) w p in (res, c\<lparr>cn_send := s1\<rparr>, w1))"

definition peer_static :: "('s, 'r) conn \<Rightarrow> string" where
  "peer_static c = cn_peer_static c"

section \<open>What arrives is what was sent\<close>

lemma be16_put: "n < 65536 \<Longrightarrow> be16 (put_be16 n) = n"
  by (simp add: be16_def put_be16_def of_char_of)

lemma read_frame_written:
  assumes "0 < length ct" "length ct < 65536"
  shows "read_frame (put_be16 (length ct) @ ct @ rest) = (Inr ct, rest)"
proof -
  have "read_full 2 (put_be16 (length ct) @ ct @ rest) = (Inr (put_be16 (length ct)), ct @ rest)"
    by (simp add: read_full_def put_be16_def)
  with assms show ?thesis by (simp add: read_frame_def be16_put read_full_def)
qed

text \<open>\<open>carries dec r w p r'\<close>: the bytes \<open>w\<close> are whole frames that take the receiving cipher from
  \<open>r\<close> to \<open>r'\<close> and decrypt to \<open>p\<close>.\<close>

inductive carries :: "'r cipher \<Rightarrow> 'r \<Rightarrow> string \<Rightarrow> string \<Rightarrow> 'r \<Rightarrow> bool" for dec where
  carries_nil: "carries dec r [] [] r"
| carries_frame: "dec r ct = Some (q, r1) \<Longrightarrow> q \<noteq> [] \<Longrightarrow> 0 < length ct \<Longrightarrow> length ct < 65536 \<Longrightarrow>
    carries dec r1 w p r2 \<Longrightarrow> carries dec r (put_be16 (length ct) @ ct @ w) (q @ p) r2"

inductive_cases carries_cases: "carries dec r w p r'"

lemma carries_append:
  "carries dec r w p r1 \<Longrightarrow> carries dec r1 w' p' r' \<Longrightarrow> carries dec r (w @ w') (p @ p') r'"
proof (induction rule: carries.induct)
  case (carries_frame r ct q r1 w p r2)
  from carries.carries_frame [OF carries_frame.hyps(1-4) carries_frame.IH [OF carries_frame.prems]]
  show ?case by simp
qed simp

text \<open>What the code relies on in the cipher: as long as messages are left (a cipher state has a
  bounded number of nonces), a ciphertext is 16 bytes longer than its text, and a receiving
  state in step with the sending one decrypts it and stays in step.\<close>

definition cipher_law :: "'s cipher \<Rightarrow> 'r cipher \<Rightarrow> (nat \<Rightarrow> 's \<Rightarrow> 'r \<Rightarrow> bool) \<Rightarrow> bool" where
  "cipher_law enc dec in_step \<longleftrightarrow>
     (\<forall>left s r p. in_step (Suc left) s r \<longrightarrow>
        (\<exists>ct s1 r1. enc s p = Some (ct, s1) \<and> dec r ct = Some (p, r1) \<and> in_step left s1 r1 \<and>
           length ct = length p + 16))"

text \<open>The number of frames a write takes.\<close>

definition frames_of :: "string \<Rightarrow> nat" where
  "frames_of p = (length p + (max_noise_plaintext - 1)) div max_noise_plaintext"

lemma frames_of_Nil [simp]: "frames_of [] = 0"
  by (simp add: frames_of_def max_noise_plaintext_def)

lemma frames_of_chunk:
  assumes "p \<noteq> []"
  shows "frames_of p = Suc (frames_of (drop max_noise_plaintext p))"
proof (cases "length p < max_noise_plaintext")
  case True
  with assms have "(length p + (max_noise_plaintext - 1)) div max_noise_plaintext = 1"
    by (intro div_nat_eqI) (auto simp: max_noise_plaintext_def Suc_le_eq)
  with True show ?thesis by (simp add: frames_of_def max_noise_plaintext_def)
next
  case False
  then obtain k where "length p = max_noise_plaintext + k" using le_Suc_ex by (auto simp: not_less)
  then show ?thesis by (simp add: frames_of_def max_noise_plaintext_def)
qed

definition append_sink :: "string sink" where
  "append_sink w b = (True, w @ b)"

lemma write_frame_append:
  "length ct < 65536 \<Longrightarrow> write_frame append_sink w ct = (None, w @ put_be16 (length ct) @ ct)"
  by (simp add: write_frame_def append_sink_def)

declare conn_write_loop.simps [simp del]

lemma conn_write_loop_carries:
  assumes law: "cipher_law enc dec in_step"
  shows "in_step (frames_of p + left) s r \<Longrightarrow>
    \<exists>s1 r1 w1. conn_write_loop enc append_sink n s w p = ((n + length p, None), s1, w @ w1) \<and>
       in_step left s1 r1 \<and> carries dec r w1 p r1"
proof (induction p arbitrary: n s r w rule: length_induct)
  case (1 p)
  show ?case
  proof (cases "p = []")
    case True
    then show ?thesis using 1(2) carries_nil [of dec r]
      by (auto simp: conn_write_loop.simps)
  next
    case False
    define chunk where "chunk = take max_noise_plaintext p"
    have d: "drop (length chunk) p = drop max_noise_plaintext p" by (simp add: chunk_def min_def)
    have chunk: "chunk \<noteq> []" "length chunk \<le> max_noise_plaintext" "p = chunk @ drop (length chunk) p"
      unfolding d using False by (auto simp: chunk_def max_noise_plaintext_def)
    have "in_step (Suc (frames_of (drop (length chunk) p) + left)) s r"
      using 1(2) frames_of_chunk [OF False] by (simp add: d)
    with law obtain ct s1 r1 where e: "enc s chunk = Some (ct, s1)" "dec r ct = Some (chunk, r1)"
        "in_step (frames_of (drop (length chunk) p) + left) s1 r1" "length ct = length chunk + 16"
      unfolding cipher_law_def by meson
    have len: "0 < length ct" "length ct < 65536"
      using e(4) chunk by (auto simp: max_noise_plaintext_def)
    have "length (drop (length chunk) p) < length p" using chunk False by simp
    with 1(1) e(3) obtain s2 r2 w2 where IH:
        "conn_write_loop enc append_sink (n + length chunk) s1 (w @ put_be16 (length ct) @ ct) (drop (length chunk) p)
           = ((n + length chunk + length (drop (length chunk) p), None), s2, (w @ put_be16 (length ct) @ ct) @ w2)"
        "in_step left s2 r2" "carries dec r1 w2 (drop (length chunk) p) r2"
      by blast
    have "carries dec r (put_be16 (length ct) @ ct @ w2) p r2"
      using carries_frame [OF e(2) chunk(1) len IH(3)] chunk(3) by simp
    moreover have "n + length chunk + length (drop (length chunk) p) = n + length p"
      using chunk(3) by (metis add.assoc length_append)
    ultimately show ?thesis
      using IH(1,2) False e(1) write_frame_append [OF len(2), of w]
      by (subst conn_write_loop.simps) (auto simp: chunk_def [symmetric] Let_def)
  qed
qed

text \<open>Several writes on one connection, with the reports of each.\<close>

fun conn_writes ::
  "'s cipher \<Rightarrow> 'w sink \<Rightarrow> string list \<Rightarrow> ('s, 'r) conn \<Rightarrow> 'w \<Rightarrow>
   (nat \<times> conn_error option) list \<times> ('s, 'r) conn \<times> 'w" where
  "conn_writes enc sink [] c w = ([], c, w)"
| "conn_writes enc sink (p # ps) c w =
     (let (res, c1, w1) = conn_write enc sink p c w; (rs, c2, w2) = conn_writes enc sink ps c1 w1
      in (res # rs, c2, w2))"

lemma conn_writes_carry:
  assumes law: "cipher_law enc dec in_step"
  shows "in_step (sum_list (map frames_of ps) + left) (cn_send c) r \<Longrightarrow>
    \<exists>c1 r1 w1. conn_writes enc append_sink ps c w = (map (\<lambda>p. (length p, None)) ps, c1, w @ w1) \<and>
      in_step left (cn_send c1) r1 \<and> carries dec r w1 (concat ps) r1"
proof (induction ps arbitrary: c r w)
  case Nil
  then show ?case using carries_nil [of dec r] by auto
next
  case (Cons p ps)
  have "in_step (frames_of p + (sum_list (map frames_of ps) + left)) (cn_send c) r"
    using Cons.prems by (simp add: add.assoc)
  from conn_write_loop_carries [OF law this, of 0 w]
  obtain s1 r1 w1 where p: "conn_write_loop enc append_sink 0 (cn_send c) w p = ((0 + length p, None), s1, w @ w1)"
      "in_step (sum_list (map frames_of ps) + left) s1 r1" "carries dec r w1 p r1"
    by blast
  obtain c2 r2 w2 where ps: "conn_writes enc append_sink ps (c\<lparr>cn_send := s1\<rparr>) (w @ w1) =
        (map (\<lambda>p. (length p, None)) ps, c2, (w @ w1) @ w2)" "in_step left (cn_send c2) r2"
      "carries dec r1 w2 (concat ps) r2"
    using Cons.IH [of "c\<lparr>cn_send := s1\<rparr>" r1 "w @ w1"] p(2) by auto
  show ?case using p ps carries_append [OF p(3) ps(3)]
    by (simp add: conn_write_def) blast
qed

text \<open>Several reads, up to the first error.\<close>

fun conn_reads ::
  "'r cipher \<Rightarrow> nat list \<Rightarrow> ('s, 'r) conn \<Rightarrow> string \<Rightarrow> string list \<times> conn_error option" where
  "conn_reads dec [] c inp = ([], None)"
| "conn_reads dec (n # ns) c inp =
     (case conn_read dec n c inp of
        (Inl err, c1, inp1) \<Rightarrow> ([], Some err)
      | (Inr b, c1, inp1) \<Rightarrow> (let (bs, e) = conn_reads dec ns c1 inp1 in (b # bs, e)))"

lemma conn_read_carried:
  assumes "carries dec (cn_recv c) inp p r'"
  shows "(cn_read_buf c = [] \<and> p = [] \<and> fst (conn_read dec n c inp) = Inl Eof) \<or>
    (\<exists>b c1 inp1 p1. conn_read dec n c inp = (Inr b, c1, inp1) \<and> carries dec (cn_recv c1) inp1 p1 r' \<and>
       b @ cn_read_buf c1 @ p1 = cn_read_buf c @ p \<and> (0 < n \<longrightarrow> b \<noteq> []))"
proof (cases "cn_read_buf c = []")
  case False
  then show ?thesis using assms by (auto simp: conn_read_def)
next
  case True
  from assms show ?thesis
  proof cases
    case carries_nil
    then show ?thesis using True by (simp add: conn_read_def read_frame_def read_full_def)
  next
    case (carries_frame ct q r1 w p1)
    then show ?thesis using True by (auto simp: conn_read_def read_frame_written)
  qed
qed

lemma conn_reads_carried:
  "carries dec (cn_recv c) inp p r' \<Longrightarrow>
   case conn_reads dec ns c inp of
     (bs, None) \<Rightarrow> prefix (concat bs) (cn_read_buf c @ p) \<and>
        (list_all (\<lambda>n. 0 < n) ns \<longrightarrow> length ns \<le> length (cn_read_buf c @ p))
   | (bs, Some err) \<Rightarrow> err = Eof \<and> concat bs = cn_read_buf c @ p"
proof (induction ns arbitrary: c inp p)
  case (Cons n ns)
  from conn_read_carried [OF Cons.prems, of n] show ?case
  proof (elim disjE exE conjE)
    assume "cn_read_buf c = []" "p = []" "fst (conn_read dec n c inp) = Inl Eof"
    then show ?thesis by (cases "conn_read dec n c inp") auto
  next
    fix b c1 inp1 p1
    assume r: "conn_read dec n c inp = (Inr b, c1, inp1)" "carries dec (cn_recv c1) inp1 p1 r'"
      "b @ cn_read_buf c1 @ p1 = cn_read_buf c @ p" "0 < n \<longrightarrow> b \<noteq> []"
    have b: "0 < n \<Longrightarrow> m \<le> k \<Longrightarrow> Suc m \<le> length b + k" for m k using r(4) by (cases b) auto
    have l: "length (cn_read_buf c @ p) = length b + length (cn_read_buf c1 @ p1)"
      by (simp flip: r(3))
    show ?thesis using Cons.IH [OF r(2)] b l
      by (auto simp: r(1) r(3) [symmetric] split: prod.splits option.splits)
  qed
qed simp

text \<open>C10: given a cipher whose receiving state decrypts what the sending state in step with it
  encrypts, with at least as many messages left as the writes take frames, everything written to a connection arrives: each write reports all its bytes,
  whatever their number, and reads of any sizes at the other end deliver the written bytes
  in order without a gap, report end of file only after the last of them, and do so within
  one read per byte plus one.\<close>

theorem conn_delivers_everything:
  assumes law: "cipher_law enc dec in_step"
    and step: "in_step (sum_list (map frames_of ps)) (cn_send a) (cn_recv b)" and fresh: "cn_read_buf b = []"
    and written: "conn_writes enc append_sink ps a [] = (reports, a1, wire)"
    and read: "conn_reads dec ns b wire = (bs, err)"
  shows "reports = map (\<lambda>p. (length p, None)) ps \<and> prefix (concat bs) (concat ps) \<and>
    (err = None \<or> err = Some Eof \<and> concat bs = concat ps) \<and>
    (list_all (\<lambda>n. 0 < n) ns \<and> length (concat ps) < length ns \<longrightarrow> err = Some Eof)"
proof -
  obtain c1 r1 w1 where w: "conn_writes enc append_sink ps a [] = (map (\<lambda>p. (length p, None)) ps, c1, [] @ w1)"
      and c: "carries dec (cn_recv b) w1 (concat ps) r1"
    using conn_writes_carry [OF law, of ps 0 a "cn_recv b" "[]"] step by auto
  have "wire = w1" "reports = map (\<lambda>p. (length p, None)) ps" using w written by auto
  with conn_reads_carried [OF c, of ns] read fresh show ?thesis
    by (cases err) (auto simp: not_le)
qed

text \<open>A cipher with a counter as its state and the counter as its tag.\<close>

definition demo_enc :: "nat cipher" where
  "demo_enc s p = Some (replicate 16 (char_of (s mod 256)) @ p, Suc s)"

definition demo_dec :: "nat cipher" where
  "demo_dec r ct = (if take 16 ct = replicate 16 (char_of (r mod 256)) then Some (drop 16 ct, Suc r) else None)"

lemma demo_cipher_law: "cipher_law demo_enc demo_dec (\<lambda>left s r. s = r)"
  by (auto simp: cipher_law_def demo_enc_def demo_dec_def)

definition demo_conn :: "(nat, nat) conn" where
  "demo_conn = \<lparr>cn_peer_static = [], cn_send = 0, cn_recv = 0, cn_read_buf = []\<rparr>"

theorem conn_delivers_everything_witness:
  "case conn_writes demo_enc append_sink [''hello '', ''world''] demo_conn [] of
     (reports, a1, wire) \<Rightarrow>
       (case conn_reads demo_dec (replicate 12 5) demo_conn wire of
          (bs, err) \<Rightarrow> err = Some Eof \<and> prefix (concat bs) ''hello world'')"
proof -
  obtain reports a1 wire where w: "conn_writes demo_enc append_sink [''hello '', ''world''] demo_conn [] = (reports, a1, wire)"
    by (metis prod_cases3)
  obtain bs err where r: "conn_reads demo_dec (replicate 12 5) demo_conn wire = (bs, err)"
    by (cases "conn_reads demo_dec (replicate 12 5) demo_conn wire") auto
  have "cn_send demo_conn = cn_recv demo_conn" "cn_read_buf demo_conn = []" by (simp_all add: demo_conn_def)
  from conn_delivers_everything [OF demo_cipher_law this w r] show ?thesis
    by (simp add: w r list_all_length del: conn_writes.simps conn_reads.simps)
qed

end
