(* ===== verification/Noise_Session.thy ===== *)
theory Noise_Session
  imports Noise_Keys Noise_Conn "HOL-Library.Multiset"
begin

text \<open>
  Noise sessions (\<open>pkg/noise/config.go\<close>, \<open>handshake.go\<close>, \<open>dial.go\<close>, \<open>listen.go\<close>): the
  check of the configuration and of the peer's key, the handshake loop, the dialer and the
  listener. The handshake state of the Noise library is an argument (\<open>hs_ops\<close>); the cipher
  suite, the pattern and the prologue are fixed in the code and part of its constructor. The
  peer is the bytes it sends, whatever they are.
\<close>

section \<open>Configuration\<close>

record noise_config =
  nz_static :: keypair
  nz_authorized_keys :: "string list"

datatype hs_error = BadStatic | BadAuthorized nat | NoHandshakeState | HsWrite nat | HsSend nat conn_error
  | HsRecv nat conn_error | HsRead nat | NoPeerKey | NotAuthorized string

definition authorize_peer :: "noise_config \<Rightarrow> string \<Rightarrow> hs_error option" where
  "authorize_peer cfg peer =
     (if nz_authorized_keys cfg = [] then None
      else if peer \<in> set (nz_authorized_keys cfg) then None
      else Some (NotAuthorized peer))"

fun bad_key :: "nat \<Rightarrow> string list \<Rightarrow> nat option" where
  "bad_key i [] = None"
| "bad_key i (k # ks) = (if length k \<noteq> 32 then Some i else bad_key (Suc i) ks)"

definition validate_noise :: "noise_config \<Rightarrow> hs_error option" where
  "validate_noise cfg =
     (if length (kp_private (nz_static cfg)) \<noteq> 32 then Some BadStatic
      else if length (kp_public (nz_static cfg)) \<noteq> 32 then Some BadStatic
      else map_option BadAuthorized (bad_key 0 (nz_authorized_keys cfg)))"

section \<open>The handshake\<close>

record ('h, 'c) hs_ops =
  hs_new :: "bool \<Rightarrow> keypair \<Rightarrow> 'h option"
  hs_write :: "'h \<Rightarrow> (string \<times> ('c \<times> 'c) option \<times> 'h) option"
  hs_read :: "'h \<Rightarrow> string \<Rightarrow> (('c \<times> 'c) option \<times> 'h) option"
  hs_peer :: "'h \<Rightarrow> string"

definition finish ::
  "('h, 'c) hs_ops \<Rightarrow> noise_config \<Rightarrow> bool \<Rightarrow> 'h \<Rightarrow> 'c \<times> 'c \<Rightarrow> hs_error + ('c, 'c) conn" where
  "finish ops cfg initiator h cs =
     (let peer = hs_peer ops h
      in if peer = [] then Inl NoPeerKey
         else
           (case authorize_peer cfg peer of
              Some err \<Rightarrow> Inl err
            | None \<Rightarrow>
                Inr \<lparr>cn_peer_static = peer,
                     cn_send = (if initiator then fst cs else snd cs),
                     cn_recv = (if initiator then snd cs else fst cs), cn_read_buf = []\<rparr>))"

lemma read_frame_shorter: "read_frame inp = (Inr frame, inp1) \<Longrightarrow> length inp1 < length inp"
  by (auto simp: read_frame_def read_full_def split: if_splits)

definition write_turn :: "bool \<Rightarrow> nat \<Rightarrow> bool" where
  "write_turn initiator i \<longleftrightarrow> initiator = even i"

function handshake_loop ::
  "('h, 'c) hs_ops \<Rightarrow> 'w sink \<Rightarrow> noise_config \<Rightarrow> bool \<Rightarrow> nat \<Rightarrow> 'h \<Rightarrow> string \<Rightarrow> 'w \<Rightarrow>
   (hs_error + ('c, 'c) conn) \<times> string \<times> 'w" where
  "handshake_loop ops sink cfg initiator i h inp w =
     (if write_turn initiator i then
        (case hs_write ops h of
           None \<Rightarrow> (Inl (HsWrite (i + 1)), inp, w)
         | Some (buf, cs, h1) \<Rightarrow>
             (case write_frame sink w buf of
                (Some err, w1) \<Rightarrow> (Inl (HsSend (i + 1) err), inp, w1)
              | (None, w1) \<Rightarrow>
                  (case cs of
                     Some css \<Rightarrow> (finish ops cfg initiator h1 css, inp, w1)
                   | None \<Rightarrow> handshake_loop ops sink cfg initiator (Suc i) h1 inp w1)))
      else
        (case read_frame inp of
           (Inl err, inp1) \<Rightarrow> (Inl (HsRecv (i + 1) err), inp1, w)
         | (Inr frame, inp1) \<Rightarrow>
             (case hs_read ops h frame of
                None \<Rightarrow> (Inl (HsRead (i + 1)), inp1, w)
              | Some (cs, h1) \<Rightarrow>
                  (case cs of
                     Some css \<Rightarrow> (finish ops cfg initiator h1 css, inp1, w)
                   | None \<Rightarrow> handshake_loop ops sink cfg initiator (Suc i) h1 inp1 w))))"
  by pat_completeness auto
termination
  by (relation "measure (\<lambda>(ops, sink, cfg, initiator, i, h, inp, w).
        2 * length inp + (if write_turn initiator i then 1 else 0))")
     (auto simp: write_turn_def dest!: read_frame_shorter [OF sym])

declare handshake_loop.simps [simp del]

definition run_handshake ::
  "('h, 'c) hs_ops \<Rightarrow> 'w sink \<Rightarrow> noise_config \<Rightarrow> bool \<Rightarrow> string \<Rightarrow> 'w \<Rightarrow>
   (hs_error + ('c, 'c) conn) \<times> string \<times> 'w" where
  "run_handshake ops sink cfg initiator inp w =
     (case validate_noise cfg of
        Some err \<Rightarrow> (Inl err, inp, w)
      | None \<Rightarrow>
          (case hs_new ops initiator (nz_static cfg) of
             None \<Rightarrow> (Inl NoHandshakeState, inp, w)
           | Some h \<Rightarrow> handshake_loop ops sink cfg initiator 0 h inp w))"

text \<open>\<open>Dial\<close>: the raw connection is what the peer will send, what was written to it and whether
  it is open; \<open>None\<close> is a transport that could not be opened. A failed handshake closes it.
  The deadlines are not modelled: one that fires is an input that stops.\<close>

datatype dial_error = TcpDial | Handshake hs_error

record 'w raw_conn =
  rw_input :: string
  rw_sent :: 'w
  rw_open :: bool

definition dial ::
  "('h, 'c) hs_ops \<Rightarrow> 'w sink \<Rightarrow> noise_config \<Rightarrow> 'w raw_conn option \<Rightarrow>
   (dial_error + ('c, 'c) conn) \<times> 'w raw_conn option" where
  "dial ops sink cfg opened =
     (case opened of
        None \<Rightarrow> (Inl TcpDial, None)
      | Some raw \<Rightarrow>
          (let (res, inp, w) = run_handshake ops sink cfg True (rw_input raw) (rw_sent raw);
               raw1 = raw\<lparr>rw_input := inp, rw_sent := w\<rparr>
           in case res of
                Inl err \<Rightarrow> (Inl (Handshake err), Some (raw1\<lparr>rw_open := False\<rparr>))
              | Inr c \<Rightarrow> (Inr c, Some raw1)))"

section \<open>Sessions are authorized\<close>

definition peer_ok :: "noise_config \<Rightarrow> ('s, 'r) conn \<Rightarrow> bool" where
  "peer_ok cfg c \<longleftrightarrow> cn_peer_static c \<noteq> [] \<and> cn_read_buf c = [] \<and>
     (nz_authorized_keys cfg = [] \<or> cn_peer_static c \<in> set (nz_authorized_keys cfg))"

lemma finish_peer_ok: "finish ops cfg initiator h cs = Inr c \<Longrightarrow> peer_ok cfg c"
  by (auto simp: finish_def peer_ok_def authorize_peer_def Let_def split: if_splits)

lemma handshake_loop_peer_ok:
  "fst (handshake_loop ops sink cfg initiator i h inp w) = Inr c \<Longrightarrow> peer_ok cfg c"
proof (induction ops sink cfg initiator i h inp w rule: handshake_loop.induct)
  case (1 ops sink cfg initiator i h inp w)
  show ?case
    using 1 by (subst (asm) (3) handshake_loop.simps)
      (auto split: if_splits option.splits prod.splits sum.splits dest: finish_peer_ok)
qed

lemma bad_key_None: "bad_key i ks = None \<longleftrightarrow> list_all (\<lambda>k. length k = 32) ks"
  by (induction i ks rule: bad_key.induct) auto

lemma run_handshake_peer_ok:
  "fst (run_handshake ops sink cfg initiator inp w) = Inr c \<Longrightarrow> peer_ok cfg c \<and> validate_noise cfg = None"
  by (auto simp: run_handshake_def split: option.splits dest: handshake_loop_peer_ok)

lemma dial_outcome:
  "dial ops sink cfg (Some raw) =
     (case fst (run_handshake ops sink cfg True (rw_input raw) (rw_sent raw)) of
        Inl err \<Rightarrow> (Inl (Handshake err),
          Some \<lparr>rw_input = fst (snd (run_handshake ops sink cfg True (rw_input raw) (rw_sent raw))),
                rw_sent = snd (snd (run_handshake ops sink cfg True (rw_input raw) (rw_sent raw))), rw_open = False\<rparr>)
      | Inr c \<Rightarrow> (Inr c,
          Some \<lparr>rw_input = fst (snd (run_handshake ops sink cfg True (rw_input raw) (rw_sent raw))),
                rw_sent = snd (snd (run_handshake ops sink cfg True (rw_input raw) (rw_sent raw))),
                rw_open = rw_open raw\<rparr>))"
  by (cases raw) (simp add: dial_def split: prod.split sum.split)

text \<open>C9: whatever bytes the peer sends and whichever side this end is, a session that the
  handshake gives has a peer key, one of the authorized keys where there are any, all of them
  32 bytes long. A dialer with an open transport returns a session exactly when its handshake
  gives one, that session, and leaves the connection open; in every other case it returns the
  handshake's error and the connection it opened is closed.\<close>

theorem sessions_are_authorized:
  assumes opened: "rw_open raw"
  shows "(\<forall>c. fst (run_handshake ops sink cfg initiator inp w) = Inr c \<longrightarrow>
      peer_static c \<noteq> [] \<and> (nz_authorized_keys cfg = [] \<or> peer_static c \<in> set (nz_authorized_keys cfg)) \<and>
      list_all (\<lambda>k. length k = 32) (nz_authorized_keys cfg)) \<and>
    (\<exists>res raw'. dial ops sink cfg (Some raw) = (res, Some raw') \<and>
      (case fst (run_handshake ops sink cfg True (rw_input raw) (rw_sent raw)) of
         Inr c \<Rightarrow> res = Inr c \<and> rw_open raw'
       | Inl err \<Rightarrow> res = Inl (Handshake err) \<and> \<not> rw_open raw'))"
proof (intro conjI allI impI)
  fix c assume "fst (run_handshake ops sink cfg initiator inp w) = Inr c"
  note ok = run_handshake_peer_ok [OF this]
  then show "peer_static c \<noteq> []" "nz_authorized_keys cfg = [] \<or> peer_static c \<in> set (nz_authorized_keys cfg)"
    "list_all (\<lambda>k. length k = 32) (nz_authorized_keys cfg)"
    by (auto simp: peer_ok_def peer_static_def validate_noise_def bad_key_None split: if_splits)
next
  show "\<exists>res raw'. dial ops sink cfg (Some raw) = (res, Some raw') \<and>
      (case fst (run_handshake ops sink cfg True (rw_input raw) (rw_sent raw)) of
         Inr c \<Rightarrow> res = Inr c \<and> rw_open raw'
       | Inl err \<Rightarrow> res = Inl (Handshake err) \<and> \<not> rw_open raw')"
    using opened by (simp add: dial_outcome split: sum.split)
qed

text \<open>A handshake in three messages that carry the sender's static key in clear.\<close>

definition demo_hs :: "(bool \<times> nat \<times> string \<times> string, nat) hs_ops" where
  "demo_hs =
     \<lparr>hs_new = (\<lambda>initiator kp. Some (initiator, 0, kp_public kp, [])),
      hs_write = (\<lambda>(initiator, k, own, peer). Some (own, if k = 2 then Some (0, 1) else None, initiator, Suc k, own, peer)),
      hs_read = (\<lambda>(initiator, k, own, peer) frame. Some (if k = 2 then Some (0, 1) else None, initiator, Suc k, own, frame)),
      hs_peer = (\<lambda>(initiator, k, own, peer). peer)\<rparr>"

definition demo_noise :: noise_config where
  "demo_noise = \<lparr>nz_static = demo_keypair, nz_authorized_keys = [replicate 32 (CHR 0x42)]\<rparr>"

definition demo_peer_bytes :: string where
  "demo_peer_bytes = put_be16 32 @ replicate 32 (CHR 0x42)"

lemma read_demo_frame: "read_frame demo_peer_bytes = (Inr (replicate 32 (CHR 0x42)), [])"
  using read_frame_written [of "replicate 32 (CHR 0x42)" "[]"] by (simp add: demo_peer_bytes_def)

definition demo_raw :: "string \<Rightarrow> string raw_conn" where
  "demo_raw inp = \<lparr>rw_input = inp, rw_sent = [], rw_open = True\<rparr>"

lemma demo_handshakes:
  "\<not> isl (fst (run_handshake demo_hs append_sink demo_noise True demo_peer_bytes []))"
  "isl (fst (run_handshake demo_hs append_sink demo_noise True [] []))"
  subgoal
    by (simp add: run_handshake_def validate_noise_def demo_noise_def demo_keypair_def demo_hs_def
        handshake_loop.simps write_turn_def write_frame_append read_demo_frame finish_def authorize_peer_def)
  subgoal
    by (simp add: run_handshake_def validate_noise_def demo_noise_def demo_keypair_def demo_hs_def
        handshake_loop.simps write_turn_def write_frame_append read_frame_def read_full_def)
  done

theorem sessions_are_authorized_witness:
  "(\<exists>c raw'. dial demo_hs append_sink demo_noise (Some (demo_raw demo_peer_bytes)) = (Inr c, Some raw') \<and>
     peer_static c \<in> set (nz_authorized_keys demo_noise) \<and> rw_open raw') \<and>
   (\<exists>err raw'. dial demo_hs append_sink demo_noise (Some (demo_raw [])) = (Inl (Handshake err), Some raw') \<and>
     \<not> rw_open raw')"
proof -
  have o: "rw_open (demo_raw inp)" "rw_input (demo_raw inp) = inp" "rw_sent (demo_raw inp) = []" for inp
    by (simp_all add: demo_raw_def)
  have k: "nz_authorized_keys demo_noise \<noteq> []" by (simp add: demo_noise_def)
  obtain c where c: "fst (run_handshake demo_hs append_sink demo_noise True demo_peer_bytes []) = Inr c"
    using demo_handshakes(1) by (cases "fst (run_handshake demo_hs append_sink demo_noise True demo_peer_bytes [])") auto
  obtain err where err: "fst (run_handshake demo_hs append_sink demo_noise True [] []) = Inl err"
    using demo_handshakes(2) by (cases "fst (run_handshake demo_hs append_sink demo_noise True [] [])") auto
  note t = sessions_are_authorized [OF o(1), where ops = demo_hs and sink = append_sink and cfg = demo_noise
      and initiator = True and w = "[]"]
  from t [of demo_peer_bytes demo_peer_bytes] t [of "[]" "[]"] c err k show ?thesis
    by (auto simp: o)
qed

text \<open>The two ends of one handshake use the cipher states crosswise: what one sends with the
  other receives with.\<close>

theorem session_ends_paired:
  assumes "finish ops cfg True h cs = Inr a" and "finish ops' cfg' False h' cs = Inr b"
  shows "cn_send a = cn_recv b \<and> cn_send b = cn_recv a"
  using assms by (auto simp: finish_def Let_def split: if_splits option.splits)

theorem session_ends_paired_witness:
  "\<exists>a b. finish demo_hs demo_noise True (True, 3, [], replicate 32 (CHR 0x42)) (0, 1) = Inr a \<and>
     finish demo_hs demo_noise False (False, 3, [], replicate 32 (CHR 0x42)) (0, 1) = Inr b \<and>
     cn_send a = cn_recv b"
proof -
  obtain a b where a: "finish demo_hs demo_noise True (True, 3, [], replicate 32 (CHR 0x42)) (0, 1) = Inr a"
    and b: "finish demo_hs demo_noise False (False, 3, [], replicate 32 (CHR 0x42)) (0, 1) = Inr b"
    by (simp add: finish_def demo_hs_def demo_noise_def authorize_peer_def)
  from session_ends_paired [OF a b] a b show ?thesis by blast
qed

section \<open>The listener\<close>

text \<open>
  The accept loop, one handshake per inbound connection and the queue of ready sessions run
  side by side; the listener is a step relation in which each blocking operation of a
  goroutine is one step. An inbound connection is its number and the bytes its peer sends
  before it stops or the deadline ends the handshake. The last four fields record what
  became of the connections.
\<close>

record inbound =
  ib_id :: nat
  ib_input :: string

definition accept_result_buffer :: nat where "accept_result_buffer = 16"

datatype 'c accept_result = Session inbound "('c, 'c) conn" | AcceptFailed

record 'c listener =
  ln_closed :: bool
  ln_looping :: bool
  ln_shaking :: "inbound list"
  ln_ready :: "(inbound \<times> ('c, 'c) conn) list"
  ln_results :: "'c accept_result list"
  ln_accepted :: "(inbound \<times> ('c, 'c) conn) list"
  ln_rejected :: "inbound list"
  ln_dropped :: "inbound list"

definition new_listener :: "noise_config \<Rightarrow> hs_error + 'c listener" where
  "new_listener cfg =
     (case validate_noise cfg of
        Some err \<Rightarrow> Inl err
      | None \<Rightarrow>
          Inr \<lparr>ln_closed = False, ln_looping = True, ln_shaking = [], ln_ready = [], ln_results = [],
               ln_accepted = [], ln_rejected = [], ln_dropped = []\<rparr>)"

definition respond :: "('h, 'c) hs_ops \<Rightarrow> noise_config \<Rightarrow> inbound \<Rightarrow> hs_error + ('c, 'c) conn" where
  "respond ops cfg raw = fst (run_handshake ops append_sink cfg False (ib_input raw) [])"

inductive listen_step ::
  "('h, 'c) hs_ops \<Rightarrow> noise_config \<Rightarrow> inbound list \<times> 'c listener \<Rightarrow> inbound list \<times> 'c listener \<Rightarrow> bool"
  for ops cfg where
  inbound: "ln_looping l \<Longrightarrow>
    listen_step ops cfg (seen, l) (raw # seen, l\<lparr>ln_shaking := raw # ln_shaking l\<rparr>)"
| loop_fails: "ln_looping l \<Longrightarrow> \<not> ln_closed l \<Longrightarrow> length (ln_results l) < accept_result_buffer \<Longrightarrow>
    listen_step ops cfg (seen, l) (seen, l\<lparr>ln_looping := False, ln_results := ln_results l @ [AcceptFailed]\<rparr>)"
| loop_ends: "ln_looping l \<Longrightarrow> ln_closed l \<Longrightarrow>
    listen_step ops cfg (seen, l) (seen, l\<lparr>ln_looping := False\<rparr>)"
| rejects: "raw \<in> set (ln_shaking l) \<Longrightarrow> respond ops cfg raw = Inl err \<Longrightarrow>
    listen_step ops cfg (seen, l)
      (seen, l\<lparr>ln_shaking := remove1 raw (ln_shaking l), ln_rejected := raw # ln_rejected l\<rparr>)"
| shaken: "raw \<in> set (ln_shaking l) \<Longrightarrow> respond ops cfg raw = Inr c \<Longrightarrow>
    listen_step ops cfg (seen, l)
      (seen, l\<lparr>ln_shaking := remove1 raw (ln_shaking l), ln_ready := (raw, c) # ln_ready l\<rparr>)"
| publishes: "(raw, c) \<in> set (ln_ready l) \<Longrightarrow> length (ln_results l) < accept_result_buffer \<Longrightarrow>
    listen_step ops cfg (seen, l)
      (seen, l\<lparr>ln_ready := remove1 (raw, c) (ln_ready l), ln_results := ln_results l @ [Session raw c]\<rparr>)"
| drops: "(raw, c) \<in> set (ln_ready l) \<Longrightarrow> ln_closed l \<Longrightarrow>
    listen_step ops cfg (seen, l)
      (seen, l\<lparr>ln_ready := remove1 (raw, c) (ln_ready l), ln_dropped := raw # ln_dropped l\<rparr>)"
| accepts: "ln_results l = Session raw c # rs \<Longrightarrow>
    listen_step ops cfg (seen, l) (seen, l\<lparr>ln_results := rs, ln_accepted := (raw, c) # ln_accepted l\<rparr>)"
| accept_fails: "ln_results l = AcceptFailed # rs \<Longrightarrow>
    listen_step ops cfg (seen, l) (seen, l\<lparr>ln_results := rs\<rparr>)"
| closes: "listen_step ops cfg (seen, l) (seen, l\<lparr>ln_closed := True\<rparr>)"

fun queued :: "'c accept_result list \<Rightarrow> (inbound \<times> ('c, 'c) conn) list" where
  "queued [] = []"
| "queued (Session raw c # rs) = (raw, c) # queued rs"
| "queued (AcceptFailed # rs) = queued rs"

lemma queued_append [simp]: "queued (rs @ rs') = queued rs @ queued rs'"
  by (induction rs rule: queued.induct) auto

text \<open>Every inbound connection is in one place, and every session on its way to the caller or
  already there came out of its own handshake.\<close>

definition listen_inv :: "('h, 'c) hs_ops \<Rightarrow> noise_config \<Rightarrow> inbound list \<times> 'c listener \<Rightarrow> bool" where
  "listen_inv ops cfg st \<longleftrightarrow>
     (let (seen, l) = st; sessions = ln_ready l @ queued (ln_results l) @ ln_accepted l
      in mset seen = mset (ln_shaking l @ map fst sessions @ ln_rejected l @ ln_dropped l) \<and>
         (\<forall>(raw, c) \<in> set sessions. respond ops cfg raw = Inr c) \<and>
         (\<forall>raw \<in> set (ln_rejected l). isl (respond ops cfg raw)) \<and>
         length (ln_results l) \<le> accept_result_buffer)"

lemma mset_remove1_key:
  "raw \<in> set xs \<Longrightarrow> mset xs = add_mset raw (mset (remove1 raw xs))"
  by simp

lemma mset_map_remove1:
  "x \<in> set xs \<Longrightarrow> mset (map f xs) = add_mset (f x) (mset (map f (remove1 x xs)))"
  by (induction xs) auto

lemma listen_step_inv:
  "listen_step ops cfg st st' \<Longrightarrow> listen_inv ops cfg st \<Longrightarrow> listen_inv ops cfg st'"
proof (induction rule: listen_step.induct)
  case (publishes raw c l seen)
  then show ?case using mset_map_remove1 [OF publishes(1), of fst]
    by (auto simp: listen_inv_def Let_def dest: set_remove1_subset [THEN subsetD])
next
  case (drops raw c l seen)
  then show ?case using mset_map_remove1 [OF drops(1), of fst]
    by (auto simp: listen_inv_def Let_def dest: set_remove1_subset [THEN subsetD])
qed (auto simp: listen_inv_def Let_def)

lemma listen_reachable_inv:
  assumes "new_listener cfg = Inr l0" "(listen_step ops cfg)\<^sup>*\<^sup>* ([], l0) st"
  shows "listen_inv ops cfg st"
  using assms(2)
proof (induction rule: rtranclp_induct)
  case base
  show ?case using assms(1)
    by (auto simp: listen_inv_def new_listener_def Let_def split: option.splits)
next
  case (step y z)
  then show ?case using listen_step_inv by blast
qed

text \<open>C21: in every state the listener can reach, whatever the peers send and however the accept
  loop, the handshakes, the accepts and the close interleave, the sessions handed to the
  caller have authorized peers, every inbound connection is in exactly one place (being
  shaken, ready, queued, accepted, rejected or dropped), only those whose handshake fails
  are rejected, and at most 16 results wait.\<close>

theorem listener_yields_authorized_sessions:
  assumes "new_listener cfg = Inr l0" and "(listen_step ops cfg)\<^sup>*\<^sup>* ([], l0) (seen, l)"
  shows "(\<forall>(raw, c) \<in> set (ln_accepted l). respond ops cfg raw = Inr c \<and> peer_ok cfg c) \<and>
    (\<forall>raw \<in> set (ln_rejected l). isl (respond ops cfg raw)) \<and>
    mset seen = mset (ln_shaking l @ map fst (ln_ready l @ queued (ln_results l) @ ln_accepted l)
                      @ ln_rejected l @ ln_dropped l) \<and>
    length (ln_results l) \<le> accept_result_buffer"
proof -
  note inv = listen_reachable_inv [OF assms, unfolded listen_inv_def Let_def prod.case]
  have "peer_ok cfg c" if "(raw, c) \<in> set (ln_accepted l)" for raw c
    using inv that run_handshake_peer_ok unfolding respond_def by fastforce
  moreover have "respond ops cfg raw = Inr c" if "(raw, c) \<in> set (ln_accepted l)" for raw c
    using inv that by fastforce
  ultimately show ?thesis using inv by auto
qed

definition demo_inbound :: inbound where
  "demo_inbound = \<lparr>ib_id = 1, ib_input = demo_peer_bytes @ demo_peer_bytes\<rparr>"

definition demo_session :: "(nat, nat) conn" where
  "demo_session = \<lparr>cn_peer_static = replicate 32 (CHR 0x42), cn_send = 1, cn_recv = 0, cn_read_buf = []\<rparr>"

lemma demo_respond: "respond demo_hs demo_noise demo_inbound = Inr demo_session"
proof -
  have "read_frame (demo_peer_bytes @ demo_peer_bytes) = (Inr (replicate 32 (CHR 0x42)), demo_peer_bytes)"
    using read_frame_written [of "replicate 32 (CHR 0x42)" demo_peer_bytes] by (simp add: demo_peer_bytes_def)
  then show ?thesis
    by (simp add: respond_def demo_inbound_def run_handshake_def validate_noise_def demo_noise_def
        demo_keypair_def demo_hs_def handshake_loop.simps write_turn_def write_frame_append read_demo_frame
        finish_def authorize_peer_def demo_session_def)
qed

theorem listener_yields_authorized_sessions_witness:
  "\<exists>l0 seen l. new_listener demo_noise = Inr l0 \<and> (listen_step demo_hs demo_noise)\<^sup>*\<^sup>* ([], l0) (seen, l) \<and>
     ln_accepted l = [(demo_inbound, demo_session)] \<and> peer_ok demo_noise demo_session"
proof -
  obtain l0 :: "nat listener" where l0: "new_listener demo_noise = Inr l0" "ln_looping l0" "ln_shaking l0 = []" "ln_ready l0 = []"
      "ln_results l0 = []" "ln_accepted l0 = []"
    by (simp add: new_listener_def validate_noise_def demo_noise_def demo_keypair_def)
  define l1 where "l1 = l0\<lparr>ln_shaking := [demo_inbound]\<rparr>"
  define l2 where "l2 = l1\<lparr>ln_shaking := [], ln_ready := [(demo_inbound, demo_session)]\<rparr>"
  define l3 where "l3 = l2\<lparr>ln_ready := [], ln_results := [Session demo_inbound demo_session]\<rparr>"
  define l4 where "l4 = l3\<lparr>ln_results := [], ln_accepted := [(demo_inbound, demo_session)]\<rparr>"
  let ?step = "listen_step demo_hs demo_noise"
  have 1: "?step ([], l0) ([demo_inbound], l1)"
    using inbound [of l0 demo_hs demo_noise "[]" demo_inbound] l0 by (simp add: l1_def)
  have 2: "?step ([demo_inbound], l1) ([demo_inbound], l2)"
    using shaken [of demo_inbound l1 demo_hs demo_noise demo_session] demo_respond l0 by (simp add: l1_def l2_def)
  have 3: "?step ([demo_inbound], l2) ([demo_inbound], l3)"
    using publishes [of demo_inbound demo_session l2 demo_hs demo_noise] l0
    by (simp add: l1_def l2_def l3_def accept_result_buffer_def)
  have 4: "?step ([demo_inbound], l3) ([demo_inbound], l4)"
    using accepts [of l3 demo_inbound demo_session "[]" demo_hs demo_noise] l0
    by (simp add: l1_def l2_def l3_def l4_def)
  have run: "?step\<^sup>*\<^sup>* ([], l0) ([demo_inbound], l4)"
    using 1 2 3 4 by (meson rtranclp.rtrancl_into_rtrancl rtranclp.rtrancl_refl)
  have acc: "ln_accepted l4 = [(demo_inbound, demo_session)]" by (simp add: l4_def)
  with listener_yields_authorized_sessions [OF l0(1) run] have "peer_ok demo_noise demo_session" by simp
  with l0(1) run acc show ?thesis by blast
qed

end
