(* ===== verification/Metadata_Collector.thy ===== *)
theory Metadata_Collector
  imports Delta Fwd_Metrics Json_Roundtrip
begin

text \<open>
  The sentinel's metadata collector (\<open>internal/sentinel/metadata/collector.go\<close>): the values
  of a fixed list of gnoland configuration keys, read from the TOML file or by a shell
  command, sent when they change and, at a longer interval, in any case. The TOML decoder,
  the file system and the shell are arguments (\<open>meta_env\<close>); the file watcher and the tickers
  are the events that ask for a collection.
\<close>

section \<open>Reading a key\<close>

text \<open>A decoded TOML value; \<open>TOther\<close> is a float, a date or an array, as \<open>%v\<close> prints it.\<close>

datatype toml = TString string | TInt int | TBool bool | TOther string | TTable "(string \<times> toml) list"

fun format_toml :: "toml \<Rightarrow> string" where
  "format_toml (TString s) = s"
| "format_toml (TInt i) = format_int i"
| "format_toml (TBool b) = (if b then ''true'' else ''false'')"
| "format_toml (TOther s) = s"
| "format_toml (TTable kvs) =
     ''map['' @ join_with '' '' (map (\<lambda>(k, s). k @ '':'' @ s) (sort_keys (map (\<lambda>(k, v). (k, format_toml v)) kvs))) @ '']''"

fun toml_path :: "toml \<Rightarrow> string list \<Rightarrow> toml option" where
  "toml_path node [] = Some node"
| "toml_path node (part # parts) =
     (case node of
        TTable kvs \<Rightarrow> (case map_of kvs part of None \<Rightarrow> None | Some v \<Rightarrow> toml_path v parts)
      | _ \<Rightarrow> None)"

record meta_env =
  me_read_file :: "string \<Rightarrow> string option"
  me_decode :: "string \<Rightarrow> (string \<times> toml) list option"
  me_exec :: "string \<Rightarrow> string option"

definition read_config_key :: "meta_env \<Rightarrow> string \<Rightarrow> string \<Rightarrow> string option" where
  "read_config_key e path key =
     (case me_read_file e path of
        None \<Rightarrow> None
      | Some b \<Rightarrow>
          (case me_decode e b of
             None \<Rightarrow> None
           | Some tbl \<Rightarrow> map_option format_toml (toml_path (TTable tbl) (split_on (CHR ''.'') key))))"

definition run_cmd :: "meta_env \<Rightarrow> string \<Rightarrow> string option" where
  "run_cmd e cmd = map_option trim_space (me_exec e cmd)"

text \<open>\<open>strings.ReplaceAll\<close> with a non-empty pattern.\<close>

fun replace_all :: "string \<Rightarrow> string \<Rightarrow> string \<Rightarrow> string" where
  "replace_all old new [] = []"
| "replace_all old new (c # s) =
     (if old \<noteq> [] \<and> has_prefix (c # s) old then new @ replace_all old new (drop (length old - 1) s)
      else c # replace_all old new s)"

definition config_keys :: "string list" where
  "config_keys =
     [''application.prune_strategy'', ''consensus.peer_gossip_sleep_duration'', ''consensus.timeout_commit'',
      ''mempool.size'', ''p2p.flush_throttle_timeout'', ''p2p.max_num_outbound_peers'', ''p2p.pex'']"

section \<open>The collector\<close>

record metadata_config =
  mc_config_path :: string
  mc_config_get_cmd :: string
  mc_check_interval :: duration
  mc_force_interval :: duration

record metadata_collector =
  md_cfg :: metadata_config
  md_delta :: delta
  md_force_interval :: duration

definition default_force_interval :: duration where "default_force_interval = 12 * hour"

definition new_metadata_collector :: "metadata_config \<Rightarrow> metadata_collector" where
  "new_metadata_collector cfg =
     \<lparr>md_cfg = cfg, md_delta = new_delta,
      md_force_interval = (if mc_force_interval cfg \<le> 0 then default_force_interval else mc_force_interval cfg)\<rparr>"

definition watched_paths :: "metadata_config \<Rightarrow> string list" where
  "watched_paths cfg =
     (if mc_config_path cfg \<noteq> [] \<and> mc_config_get_cmd cfg = [] then [mc_config_path cfg] else [])"

definition read_value :: "meta_env \<Rightarrow> metadata_config \<Rightarrow> string \<Rightarrow> string option" where
  "read_value e cfg key =
     (if mc_config_path cfg \<noteq> [] then read_config_key e (mc_config_path cfg) key
      else run_cmd e (replace_all ''%s'' key (mc_config_get_cmd cfg)))"

definition config_values :: "meta_env \<Rightarrow> metadata_config \<Rightarrow> string list \<Rightarrow> (string \<times> string) list" where
  "config_values e cfg keys =
     List.map_filter (\<lambda>key. map_option (\<lambda>v. (key, v)) (read_value e cfg key)) keys"

definition collect_config ::
  "meta_env \<Rightarrow> bool \<Rightarrow> metadata_collector \<Rightarrow> (string \<times> string) list \<times> metadata_collector" where
  "collect_config e force c =
     (if mc_config_path (md_cfg c) = [] \<and> mc_config_get_cmd (md_cfg c) = [] then ([], c)
      else
        (let vals = config_values e (md_cfg c) config_keys; b = marshal_string_map vals
         in if vals = [] then ([], c)
            else if force then ([(''config'', b)], c)
            else
              (let (new, d) = changed ''config'' b (md_delta c)
               in (if new then [(''config'', b)] else [], c\<lparr>md_delta := d\<rparr>))))"

definition collect_and_send ::
  "meta_env \<Rightarrow> bool \<Rightarrow> gtime \<Rightarrow> metadata_collector \<Rightarrow> payload option \<times> metadata_collector" where
  "collect_and_send e force now c =
     (let (data, c') = collect_config e force c
      in (if data = [] then None else Some \<lparr>collected_at = now, p_data = Some data\<rparr>, c'))"

text \<open>\<open>Run\<close>: one collection at the start, then one per tick, forced tick or change of the file;
  other file events and watcher errors ask for none.\<close>

datatype meta_event = CheckTick | ForceTick | FileChanged | OtherEvent

fun meta_run ::
  "(meta_event \<times> meta_env \<times> gtime) list \<Rightarrow> metadata_collector \<Rightarrow> payload option list \<times> metadata_collector" where
  "meta_run [] c = ([], c)"
| "meta_run ((OtherEvent, e, now) # evs) c = (let (ps, c') = meta_run evs c in (None # ps, c'))"
| "meta_run ((ev, e, now) # evs) c =
     (let (p, c1) = collect_and_send e (ev = ForceTick) now c; (ps, c2) = meta_run evs c1 in (p # ps, c2))"

section \<open>From the file to the watchtower\<close>

lemma config_values_keys: "map fst (config_values e cfg keys) = filter (\<lambda>k. read_value e cfg k \<noteq> None) keys"
  by (induction keys) (auto simp: config_values_def map_filter_simps split: option.split)

lemma config_values_distinct: "distinct_keys (config_values e cfg config_keys)"
  by (simp add: config_values_keys config_keys_def)

lemma config_keys_valid: "k \<in> set config_keys \<Longrightarrow> valid_utf8 k"
proof -
  have "list_all (list_all (\<lambda>c. (of_char c :: nat) < 128)) config_keys" by (simp add: config_keys_def)
  then show "k \<in> set config_keys \<Longrightarrow> valid_utf8 k" by (auto simp: list_all_iff intro: ascii_valid_utf8)
qed

lemma config_values_key_valid:
  assumes "(k, v) \<in> set (config_values e cfg config_keys)" shows "valid_utf8 k"
proof -
  from assms have "k \<in> set (map fst (config_values e cfg config_keys))" by force
  then show ?thesis unfolding config_values_keys by (auto intro: config_keys_valid)
qed

lemma node_config_read_back:
  assumes "list_all (\<lambda>(k, v). valid_utf8 v) (config_values e cfg config_keys)"
  shows "append_node_config ls validator ts (marshal_string_map (config_values e cfg config_keys)) =
    ls @ config_lines ''sentinel_node_config'' validator ts (Some (sort_keys (config_values e cfg config_keys)))"
  using unmarshal_string_map [OF config_values_distinct, of e cfg] assms config_values_key_valid
  by (fastforce simp: append_node_config_def list_all_iff)

text \<open>C33: when every value read is valid UTF-8, a collection emits nothing exactly when no source is
  configured, no key could be read, or it is not forced and the values' digest is the one last
  kept; otherwise, whatever key the source gives or refuses, the watchtower turns the payload
  into one sample per readable key with that key's value.\<close>

theorem node_config_reaches_watchtower:
  assumes "list_all (\<lambda>(k, v). valid_utf8 v) (config_values e (md_cfg c) config_keys)"
  shows "(fst (collect_and_send e force now c) = None \<longleftrightarrow>
        mc_config_path (md_cfg c) = [] \<and> mc_config_get_cmd (md_cfg c) = [] \<or>
        config_values e (md_cfg c) config_keys = [] \<or>
        \<not> force \<and> hash_at (md_delta c) ''config'' = sha256 (marshal_string_map (config_values e (md_cfg c) config_keys))) \<and>
    (case fst (collect_and_send e force now c) of
      None \<Rightarrow> True
    | Some p \<Rightarrow>
        extract_metrics validator p =
          config_lines ''sentinel_node_config'' validator (unix_milli now)
            (Some (sort_keys (config_values e (md_cfg c) config_keys))))"
  using node_config_read_back [OF assms, where ls = "[]"]
  by (auto simp: collect_and_send_def collect_config_def Let_def changed_def extract_metrics_def
      append_metrics_key_def gomap_items_def)

definition demo_meta_env :: meta_env where
  "demo_meta_env =
     \<lparr>me_read_file = (\<lambda>p. Some ''toml''),
      me_decode = (\<lambda>b. Some [(''p2p'', TTable [(''pex'', TBool True)]), (''mempool'', TTable [(''size'', TInt 5000)])]),
      me_exec = (\<lambda>cmd. None)\<rparr>"

definition demo_meta_config :: metadata_config where
  "demo_meta_config =
     \<lparr>mc_config_path = ''/gno/config.toml'', mc_config_get_cmd = [], mc_check_interval = minute, mc_force_interval = hour\<rparr>"

lemma demo_config_values:
  "config_values demo_meta_env demo_meta_config config_keys = [(''mempool.size'', ''5000''), (''p2p.pex'', ''true'')]"
  by (simp add: config_values_def map_filter_simps config_keys_def read_value_def read_config_key_def
      demo_meta_env_def demo_meta_config_def format_int_def format_nat.simps digit_char_def char_of_def bit_iff_odd)

theorem node_config_reaches_watchtower_witness:
  "case fst (collect_and_send demo_meta_env True 0 (new_metadata_collector demo_meta_config)) of
     None \<Rightarrow> False
   | Some p \<Rightarrow>
       extract_metrics ''v1'' p =
         config_lines ''sentinel_node_config'' ''v1'' (unix_milli 0)
           (Some (sort_keys [(''mempool.size'', ''5000''), (''p2p.pex'', ''true'')]))"
proof -
  let ?c = "new_metadata_collector demo_meta_config"
  have cfg: "md_cfg ?c = demo_meta_config" by (simp add: new_metadata_collector_def)
  have u: "list_all (\<lambda>(k, v). valid_utf8 v) (config_values demo_meta_env (md_cfg ?c) config_keys)"
    by (simp add: cfg demo_config_values ascii_valid_utf8)
  have "mc_config_path demo_meta_config \<noteq> []" by (simp add: demo_meta_config_def)
  with node_config_reaches_watchtower [OF u, where force = True and validator = "''v1''" and now = 0] show ?thesis
    by (simp add: cfg demo_config_values split: option.splits)
qed

end
