(* ===== verification/Sn_Config.thy ===== *)
theory Sn_Config
  imports Noise_Session Metadata_Collector Sender
begin

text \<open>
  The sentinel's configuration (\<open>internal/sentinel/config/config.go\<close>, \<open>detect.go\<close>,
  \<open>generate.go\<close>): byte sizes, the structs, the defaults, \<open>Load\<close> with its validation, the
  Noise configuration, and the generated file's values and commented alternatives. Reading
  the file and the TOML codec are arguments; so are the results of the probes (docker,
  systemctl and the file system).
\<close>

section \<open>Byte sizes\<close>

definition kb :: int where "kb = 1024"
definition mb :: int where "mb = 1024 * kb"
definition gb :: int where "gb = 1024 * mb"

text \<open>\<open>strings.ToUpper\<close> on the letters a size can hold.\<close>

definition to_upper :: "string \<Rightarrow> string" where
  "to_upper = map (\<lambda>c. let n = of_char c :: nat in if 97 \<le> n \<and> n \<le> 122 then char_of (n - 32) else c)"

definition scaled_size :: "string \<Rightarrow> int \<Rightarrow> int option" where
  "scaled_size digits factor = map_option (\<lambda>n. wrap64 (n * factor)) (parse_int64 digits)"

definition unmarshal_byte_size :: "string \<Rightarrow> int option" where
  "unmarshal_byte_size s0 =
     (let s = to_upper (trim_space s0)
      in if has_suffix s ''GB'' then scaled_size (trim_suffix s ''GB'') gb
         else if has_suffix s ''MB'' then scaled_size (trim_suffix s ''MB'') mb
         else if has_suffix s ''KB'' then scaled_size (trim_suffix s ''KB'') kb
         else parse_int64 s)"

definition marshal_byte_size :: "int \<Rightarrow> string" where
  "marshal_byte_size v =
     (if 0 < v \<and> v mod gb = 0 then format_int (v div gb) @ ''GB''
      else if 0 < v \<and> v mod mb = 0 then format_int (v div mb) @ ''MB''
      else if 0 < v \<and> v mod kb = 0 then format_int (v div kb) @ ''KB''
      else format_int v)"

section \<open>The structs\<close>

record sn_rpc_config =
  rp_enabled :: bool
  rp_poll_interval :: duration
  rp_rpc_url :: string
  rp_dump_interval :: duration
  rp_genesis_refresh :: duration
  rp_validators_refresh :: duration

record sn_logs_config =
  lg_enabled :: bool
  lg_source :: string
  lg_container_name :: string
  lg_journald_unit :: string
  lg_batch_size :: int
  lg_batch_timeout :: duration
  lg_min_level :: string
  lg_resume_lookback :: duration

record sn_resources_config =
  re_enabled :: bool
  re_poll_interval :: duration
  re_source :: string
  re_container_name :: string

record sn_config =
  sc_server_url :: string
  sc_server_token :: string
  sc_beacon_keys_dir :: string
  sc_beacon_public_key :: string
  sc_rpc :: sn_rpc_config
  sc_logs :: sn_logs_config
  sc_otlp_enabled :: bool
  sc_otlp_listen_addr :: string
  sc_resources :: sn_resources_config
  sc_metadata_enabled :: bool
  sc_metadata :: metadata_config
  sc_self_enabled :: bool
  sc_self_report_interval :: duration
  sc_health_enabled :: bool
  sc_health_listen_addr :: string

definition is_placeholder :: "string \<Rightarrow> bool" where
  "is_placeholder s \<longleftrightarrow> 2 < length s \<and> hd s = CHR ''<'' \<and> last s = CHR ''>''"

definition default_sn_config :: sn_config where
  "default_sn_config =
     \<lparr>sc_server_url = ''<watchtower-server-url>'', sc_server_token = ''<watchtower-auth-token>'',
      sc_beacon_keys_dir = [], sc_beacon_public_key = [],
      sc_rpc = \<lparr>rp_enabled = True, rp_poll_interval = 3 * second, rp_rpc_url = ''http://localhost:26657'',
        rp_dump_interval = 30 * second, rp_genesis_refresh = 12 * hour, rp_validators_refresh = 12 * hour\<rparr>,
      sc_logs = \<lparr>lg_enabled = True, lg_source = ''docker'', lg_container_name = ''<gnoland-container-name>'',
        lg_journald_unit = [], lg_batch_size = mb, lg_batch_timeout = 5 * second, lg_min_level = ''info'',
        lg_resume_lookback = 60 * second\<rparr>,
      sc_otlp_enabled = True, sc_otlp_listen_addr = ''localhost:4318'',
      sc_resources = \<lparr>re_enabled = True, re_poll_interval = 10 * second, re_source = ''host'',
        re_container_name = ''<gnoland-container-name>''\<rparr>,
      sc_metadata_enabled = True,
      sc_metadata = \<lparr>mc_config_path = ''<path-to-gnoland-config>'', mc_config_get_cmd = [],
        mc_check_interval = 10 * minute, mc_force_interval = 12 * hour\<rparr>,
      sc_self_enabled = True, sc_self_report_interval = 30 * second,
      sc_health_enabled = True, sc_health_listen_addr = ''127.0.0.1:8081''\<rparr>"

section \<open>Validation and loading\<close>

datatype sn_config_error = UrlRequired | ServerTokenRequired | KeysDirRequired | KeysDirUnused | PublicKeyUnused
  | HealthAddrRequired | BothMetadataSources | BadLogSource string | BadMinLevel string | BadResourceSource string

definition any_collector_enabled :: "sn_config \<Rightarrow> bool" where
  "any_collector_enabled c \<longleftrightarrow>
     rp_enabled (sc_rpc c) \<or> lg_enabled (sc_logs c) \<or> sc_otlp_enabled c \<or> re_enabled (sc_resources c) \<or>
     sc_metadata_enabled c \<or> sc_self_enabled c"

definition is_noise_scheme :: "sn_config \<Rightarrow> bool" where
  "is_noise_scheme c = has_prefix (sc_server_url c) ''noise://''"

definition validate_beacon :: "sn_config \<Rightarrow> sn_config_error option" where
  "validate_beacon c =
     (if is_noise_scheme c \<and> sc_beacon_keys_dir c = [] then Some KeysDirRequired
      else if \<not> is_noise_scheme c \<and> sc_beacon_keys_dir c \<noteq> [] then Some KeysDirUnused
      else if \<not> is_noise_scheme c \<and> sc_beacon_public_key c \<noteq> [] then Some PublicKeyUnused
      else None)"

definition validate_sn :: "sn_config \<Rightarrow> sn_config_error option" where
  "validate_sn c =
     (if any_collector_enabled c \<and> sc_server_url c = [] then Some UrlRequired
      else if any_collector_enabled c \<and> sc_server_token c = [] then Some ServerTokenRequired
      else
        (case validate_beacon c of
           Some err \<Rightarrow> Some err
         | None \<Rightarrow>
             if sc_health_enabled c \<and> sc_health_listen_addr c = [] then Some HealthAddrRequired
             else if sc_metadata_enabled c \<and> mc_config_path (sc_metadata c) \<noteq> [] \<and>
                     mc_config_get_cmd (sc_metadata c) \<noteq> [] then Some BothMetadataSources
             else if lg_enabled (sc_logs c) \<and> lg_source (sc_logs c) \<notin> {''docker'', ''journald''}
               then Some (BadLogSource (lg_source (sc_logs c)))
             else if lg_enabled (sc_logs c) \<and> lg_min_level (sc_logs c) \<notin> {''debug'', ''info'', ''warn'', ''error''}
               then Some (BadMinLevel (lg_min_level (sc_logs c)))
             else if re_enabled (sc_resources c) \<and> re_source (sc_resources c) \<notin> {''host'', ''docker'', ''both''}
               then Some (BadResourceSource (re_source (sc_resources c)))
             else None))"

datatype sn_load_error = SnReadFailed | SnUnmarshalFailed | SnInvalid sn_config_error

definition load_sn :: "(string \<Rightarrow> string option) \<Rightarrow> (string \<Rightarrow> sn_config option) \<Rightarrow> string \<Rightarrow> sn_load_error + sn_config" where
  "load_sn read_file toml_unmarshal path =
     (case read_file path of
        None \<Rightarrow> Inl SnReadFailed
      | Some data \<Rightarrow>
          (case toml_unmarshal data of
             None \<Rightarrow> Inl SnUnmarshalFailed
           | Some c \<Rightarrow> (case validate_sn c of Some err \<Rightarrow> Inl (SnInvalid err) | None \<Rightarrow> Inr c)))"

text \<open>The outer option of a success is nil: no Noise transport.\<close>

datatype noise_config_error = KeypairError key_error | PublicKeyError

definition sn_noise_config ::
  "(string \<Rightarrow> key_dir) \<Rightarrow> sn_config \<Rightarrow> noise_config_error + noise_config option" where
  "sn_noise_config dirs c =
     (if \<not> is_noise_scheme c then Inr None
      else
        (case load_keypair (dirs (sc_beacon_keys_dir c)) of
           Inl err \<Rightarrow> Inl (KeypairError err)
         | Inr kp \<Rightarrow>
             if sc_beacon_public_key c = [] then Inr (Some \<lparr>nz_static = kp, nz_authorized_keys = []\<rparr>)
             else
               (case decode_public_key (sc_beacon_public_key c) of
                  None \<Rightarrow> Inl PublicKeyError
                | Some pub \<Rightarrow> Inr (Some \<lparr>nz_static = kp, nz_authorized_keys = [pub]\<rparr>))))"

section \<open>The generated configuration\<close>

record docker_result =
  dr_container_name :: string
  dr_rpc_port :: nat

record binary_result =
  br_path :: string
  br_config_path :: string

record environment =
  en_docker :: "docker_result option"
  en_journald :: "string option"
  en_binary :: "binary_result option"

text \<open>The probes: the containers with their names and port pairs (private, public), the output of
  \<open>systemctl\<close>, the resolved path of the binary and the files that exist.\<close>

definition contains :: "string \<Rightarrow> string \<Rightarrow> bool" where
  "contains s sub \<longleftrightarrow> (\<exists>i \<le> length s. has_prefix (drop i s) sub)"

definition gnoland_rpc_port :: nat where "gnoland_rpc_port = 26657"

definition find_rpc_port :: "(nat \<times> nat) list \<Rightarrow> nat" where
  "find_rpc_port ports =
     (case find (\<lambda>(priv, pub). priv = gnoland_rpc_port \<and> pub \<noteq> 0) ports of None \<Rightarrow> 0 | Some (_, pub) \<Rightarrow> pub)"

fun find_name :: "string list \<Rightarrow> string option" where
  "find_name [] = None"
| "find_name (n # ns) =
     (let trimmed = trim_prefix n ''/'' in if contains trimmed ''gnoland'' then Some trimmed else find_name ns)"

fun probe_docker :: "(string list \<times> (nat \<times> nat) list) list \<Rightarrow> docker_result option" where
  "probe_docker [] = None"
| "probe_docker ((names, ports) # cs) =
     (case find_name names of
        Some n \<Rightarrow> Some \<lparr>dr_container_name = n, dr_rpc_port = find_rpc_port ports\<rparr>
      | None \<Rightarrow> probe_docker cs)"

text \<open>The first field of a line (\<open>strings.Fields\<close>), for a line of ASCII text.\<close>

definition first_field :: "string \<Rightarrow> string" where
  "first_field line = takeWhile (\<lambda>c. \<not> ascii_space c) (dropWhile ascii_space line)"

definition probe_journald :: "string option \<Rightarrow> string option" where
  "probe_journald out =
     (case out of
        None \<Rightarrow> None
      | Some txt \<Rightarrow>
          map_option first_field
            (find (\<lambda>line. first_field line \<noteq> [] \<and> contains (first_field line) ''gnoland'') (split_on (CHR 0x0A) txt)))"

definition apply_detection :: "environment \<Rightarrow> sn_config \<Rightarrow> sn_config" where
  "apply_detection env c =
     (let c1 =
            (case en_docker env of
               Some d \<Rightarrow>
                 c\<lparr>sc_logs := (sc_logs c)\<lparr>lg_source := ''docker'', lg_container_name := dr_container_name d\<rparr>,
                   sc_resources := (sc_resources c)\<lparr>re_container_name := dr_container_name d, re_source := ''both''\<rparr>,
                   sc_rpc := (if dr_rpc_port d = 0 then sc_rpc c
                              else (sc_rpc c)\<lparr>rp_rpc_url := ''http://localhost:'' @ format_nat (dr_rpc_port d)\<rparr>)\<rparr>
             | None \<Rightarrow>
                 (case en_journald env of
                    None \<Rightarrow> c
                  | Some unit \<Rightarrow>
                      c\<lparr>sc_logs := (sc_logs c)\<lparr>lg_source := ''journald'', lg_journald_unit := unit, lg_container_name := []\<rparr>,
                        sc_resources := (sc_resources c)\<lparr>re_container_name := [], re_source := ''host''\<rparr>\<rparr>))
      in case en_binary env of
           Some b \<Rightarrow>
             if en_docker env = None \<and> br_config_path b \<noteq> []
             then c1\<lparr>sc_metadata := (sc_metadata c1)\<lparr>mc_config_path := br_config_path b\<rparr>\<rparr> else c1
         | None \<Rightarrow> c1)"

record alternative =
  al_section :: string
  al_after_key :: string
  al_comment :: string
  al_key :: string
  al_value :: string

definition build_alternatives :: "sn_config \<Rightarrow> environment \<Rightarrow> alternative list" where
  "build_alternatives c env =
     (if lg_source (sc_logs c) = ''docker'' then
        [\<lparr>al_section = ''logs'', al_after_key = ''container_name'',
          al_comment = ''Alternative: use journald as log source'', al_key = ''journald_unit'',
          al_value = ''<gnoland-systemd-unit>''\<rparr>]
      else if lg_source (sc_logs c) = ''journald'' then
        [\<lparr>al_section = ''logs'', al_after_key = ''journald_unit'',
          al_comment = ''Alternative: use docker as log source'', al_key = ''container_name'',
          al_value = ''<gnoland-container-name>''\<rparr>]
      else []) @
     [\<lparr>al_section = [], al_after_key = ''config_path'',
       al_comment = ''Alternative: run a shell command (requires the command to be reachable from the sentinel process '' @
         [CHR 0xE2, CHR 0x80, CHR 0x94] @ '' not the case for containerised sentinels without a bundled CLI)'',
       al_key = ''config_get_cmd'',
       al_value = (case en_docker env of
                     None \<Rightarrow> ''docker exec <container> gnoland config get %s --raw''
                   | Some d \<Rightarrow> ''docker exec '' @ dr_container_name d @ '' gnoland config get %s --raw'')\<rparr>]"

definition trim_set :: "char set \<Rightarrow> string \<Rightarrow> string" where
  "trim_set cs s = rev (dropWhile (\<lambda>c. c \<in> cs) (rev (dropWhile (\<lambda>c. c \<in> cs) s)))"

definition track_section :: "string \<Rightarrow> string \<Rightarrow> string" where
  "track_section sec trimmed =
     (if has_prefix trimmed ''['' \<and> \<not> has_prefix trimmed ''[['' then trim_set {CHR ''['', CHR '']'', CHR '' ''} trimmed
      else sec)"

definition alternative_lines :: "string \<Rightarrow> string \<Rightarrow> alternative \<Rightarrow> string list" where
  "alternative_lines sec trimmed alt =
     (if al_section alt \<noteq> [] \<and> al_section alt \<noteq> sec then []
      else if has_prefix trimmed (al_after_key alt @ '' ='') \<or> has_prefix trimmed (al_after_key alt @ ''='')
      then [''# '' @ al_comment alt, ''# '' @ al_key alt @ '' = '' @ [CHR 0x27] @ al_value alt @ [CHR 0x27]]
      else [])"

fun inject_lines :: "alternative list \<Rightarrow> string \<Rightarrow> string list \<Rightarrow> string list" where
  "inject_lines alts sec [] = []"
| "inject_lines alts sec (line # lines) =
     (let trimmed = trim_space line; sec' = track_section sec trimmed
      in line # concat (map (alternative_lines sec' trimmed) alts) @ inject_lines alts sec' lines)"

definition inject_alternatives :: "string \<Rightarrow> alternative list \<Rightarrow> string" where
  "inject_alternatives toml_str alts =
     join_with [CHR 0x0A] (inject_lines alts [] (split_on (CHR 0x0A) toml_str))"

section \<open>Properties\<close>

text \<open>Validation looks at a configuration through these of its fields.\<close>

lemma validate_sn_fields:
  assumes "sc_server_url c = ''<watchtower-server-url>''" "sc_server_token c \<noteq> []" "sc_beacon_keys_dir c = []"
    "sc_beacon_public_key c = []" "sc_health_listen_addr c \<noteq> []" "mc_config_get_cmd (sc_metadata c) = []"
    "lg_source (sc_logs c) \<in> {''docker'', ''journald''}" "lg_min_level (sc_logs c) = ''info''"
    "re_source (sc_resources c) \<in> {''host'', ''docker'', ''both''}"
  shows "validate_sn c = None"
  using assms by (simp add: validate_sn_def validate_beacon_def is_noise_scheme_def has_prefix_def)

text \<open>Whatever the probes find, the configuration the generator writes out passes the
  validation that loading applies to it.\<close>

lemma generated_config_valid: "validate_sn (apply_detection env default_sn_config) = None"
proof (rule validate_sn_fields)
  obtain d j b where env: "env = \<lparr>en_docker = d, en_journald = j, en_binary = b\<rparr>"
    by (cases env) simp
  note defs = env apply_detection_def Let_def default_sn_config_def
  show "sc_server_url (apply_detection env default_sn_config) = ''<watchtower-server-url>''"
    "sc_server_token (apply_detection env default_sn_config) \<noteq> []"
    "sc_beacon_keys_dir (apply_detection env default_sn_config) = []"
    "sc_beacon_public_key (apply_detection env default_sn_config) = []"
    "sc_health_listen_addr (apply_detection env default_sn_config) \<noteq> []"
    "mc_config_get_cmd (sc_metadata (apply_detection env default_sn_config)) = []"
    "lg_source (sc_logs (apply_detection env default_sn_config)) \<in> {''docker'', ''journald''}"
    "lg_min_level (sc_logs (apply_detection env default_sn_config)) = ''info''"
    "re_source (sc_resources (apply_detection env default_sn_config)) \<in> {''host'', ''docker'', ''both''}"
    by (cases d; cases j; cases b; simp add: defs)+
qed

text \<open>The characters of a printed size are left alone by trimming and upper-casing.\<close>

definition size_letter :: "char \<Rightarrow> bool" where
  "size_letter c \<longleftrightarrow> is_digit c \<or> c \<in> {CHR ''-'', CHR ''G'', CHR ''M'', CHR ''K'', CHR ''B''}"

lemma size_letter_plain:
  "size_letter c \<Longrightarrow> \<not> ascii_space c \<and> (of_char c :: nat) < 97"
  by (auto simp: size_letter_def is_digit_def ascii_space_def)

lemma size_text_kept:
  assumes "s \<noteq> []" "list_all size_letter s"
  shows "to_upper (trim_space s) = s"
proof -
  have "plain_text s" using assms by (fastforce simp: plain_text_def list_all_iff dest: size_letter_plain)
  moreover have "to_upper s = s"
    using assms(2) unfolding to_upper_def
    by (intro map_idI) (fastforce simp: list_all_iff Let_def dest: size_letter_plain)
  ultimately show ?thesis by (simp add: trim_space_line)
qed

lemma format_int_size: "format_int n \<noteq> [] \<and> list_all size_letter (format_int n)"
  using format_nat_digits by (auto simp: format_int_def size_letter_def list_all_iff)

lemma format_int_last: "is_digit (last (format_int n))"
proof -
  have "format_nat m \<noteq> []" "is_digit (last (format_nat m))" for m
    using format_nat_digits [of m] by (auto simp: list_all_iff)
  then show ?thesis by (simp add: format_int_def)
qed

lemma suffix_of_two: "has_suffix (s @ [a, b]) [c, d] \<longleftrightarrow> a = c \<and> b = d"
  by (auto simp: has_suffix_iff)

lemma suffix_last: "has_suffix s (t @ [d]) \<Longrightarrow> last s = d"
  by (auto simp: has_suffix_iff)

lemma size_suffix:
  assumes "u \<in> {CHR ''G'', CHR ''M'', CHR ''K''}"
  shows "unmarshal_byte_size (format_int n @ [u, CHR ''B'']) =
    scaled_size (format_int n) (if u = CHR ''G'' then gb else if u = CHR ''M'' then mb else kb)"
proof -
  have "to_upper (trim_space (format_int n @ [u, CHR ''B''])) = format_int n @ [u, CHR ''B'']"
    using assms format_int_size [of n] by (intro size_text_kept) (auto simp: size_letter_def)
  then show ?thesis using assms
    by (auto simp: unmarshal_byte_size_def Let_def suffix_of_two trim_suffix_def)
qed

lemma size_plain:
  assumes "int64_range v" shows "unmarshal_byte_size (format_int v) = Some v"
proof -
  have "\<not> has_suffix (format_int v) [c, CHR ''B'']" for c
    using suffix_last [of "format_int v" "[c]" "CHR ''B''"] format_int_last [of v] by (auto simp: is_digit_def)
  moreover have "to_upper (trim_space (format_int v)) = format_int v"
    using format_int_size by (intro size_text_kept) auto
  ultimately show ?thesis by (simp add: unmarshal_byte_size_def Let_def parse_int64_format_int assms)
qed

lemma scaled_back:
  assumes "int64_range v" "0 < v" "v mod m = 0" "0 < m"
  shows "scaled_size (format_int (v div m)) m = Some v"
proof -
  have "v div m * m = v" using assms(3) div_mult_mod_eq [of v m] by simp
  moreover have "0 \<le> v div m" using assms by (simp add: pos_imp_zdiv_nonneg_iff)
  moreover have "v div m \<le> v" using assms int_div_less_self [of v m] by (cases "m = 1") auto
  moreover have "int64_range (v div m)" using calculation assms(1) by (auto simp: int64_range_def)
  ultimately show ?thesis using assms(1) by (simp add: scaled_size_def parse_int64_format_int)
qed

text \<open>Every byte size the configuration can hold is written out as text that reads back as the
  same size.\<close>

lemma byte_size_roundtrip: "unmarshal_byte_size (marshal_byte_size (wrap64 v)) = Some (wrap64 v)"
proof -
  have r: "int64_range (wrap64 v)" by (rule wrap64_range)
  have p: "0 < gb" "0 < mb" "0 < kb" by (simp_all add: gb_def mb_def kb_def)
  show ?thesis
    using r p by (auto simp: marshal_byte_size_def size_suffix scaled_back size_plain)
qed

lemma load_hex_file_length: "load_hex_file d name n = Inr key \<Longrightarrow> length key = n"
  by (auto simp: load_hex_file_def split: option.splits if_splits)

lemma load_keypair_lengths: "load_keypair d = Inr kp \<Longrightarrow> length (kp_private kp) = 32 \<and> length (kp_public kp) = 32"
  by (auto simp: load_keypair_def split: sum.splits dest: load_hex_file_length)

lemma decode_public_key_length: "decode_public_key s = Some key \<Longrightarrow> length key = 32"
  by (auto simp: decode_public_key_def split: option.splits if_splits)

text \<open>C37: with a configuration the loader accepts and keys that load, the sender is built, and a
  pinned beacon key is never ignored: it can only be set together with a \<open>noise://\<close> URL, the
  sender then dials with Noise, and every handshake that succeeds is with a peer that holds
  exactly that key.\<close>

theorem pinned_beacon_key_enforced:
  fixes ops :: "('h, 'c) hs_ops"
  assumes "validate_sn c = None" "sn_noise_config dirs c = Inr nz"
  shows "\<exists>s. new_sender (sc_server_url c) (sc_server_token c) nz = Some s \<and>
    (nz = None \<longrightarrow> sd_transport s = Plain \<and> sc_beacon_public_key c = [] \<and> sc_beacon_keys_dir c = []) \<and>
    (\<forall>cfg. nz = Some cfg \<longrightarrow> sd_transport s = NoiseTransport cfg \<and> validate_noise cfg = None \<and>
       (\<forall>sink inp w session.
          sc_beacon_public_key c \<noteq> [] \<and> fst (run_handshake ops sink cfg True inp w) = Inr session \<longrightarrow>
          decode_public_key (sc_beacon_public_key c) = Some (peer_static session)))"
proof -
  have plain: "\<not> is_noise_scheme c \<Longrightarrow> sc_beacon_public_key c = [] \<and> sc_beacon_keys_dir c = []"
    using assms(1) by (auto simp: validate_sn_def validate_beacon_def split: if_splits option.splits)
  have pinned: "decode_public_key (sc_beacon_public_key c) = Some (peer_static session)"
    if "nz = Some cfg" "sc_beacon_public_key c \<noteq> []" "fst (run_handshake ops sink cfg True inp w) = Inr session"
    for cfg sink inp w session
    using run_handshake_peer_ok [OF that(3)] assms(2) that(1,2)
    by (auto simp: sn_noise_config_def peer_ok_def peer_static_def split: if_splits sum.splits option.splits)
  have "\<exists>s. new_sender (sc_server_url c) (sc_server_token c) nz = Some s \<and>
      (nz = None \<longrightarrow> sd_transport s = Plain \<and> sc_beacon_public_key c = [] \<and> sc_beacon_keys_dir c = []) \<and>
      (\<forall>cfg. nz = Some cfg \<longrightarrow> sd_transport s = NoiseTransport cfg \<and> validate_noise cfg = None)"
    using plain assms(2)
    by (auto simp: sn_noise_config_def new_sender_def is_noise_scheme_def validate_noise_def
        split: if_splits sum.splits option.splits dest: load_keypair_lengths decode_public_key_length)
  then obtain s where "new_sender (sc_server_url c) (sc_server_token c) nz = Some s"
      "nz = None \<longrightarrow> sd_transport s = Plain \<and> sc_beacon_public_key c = [] \<and> sc_beacon_keys_dir c = []"
      "\<forall>cfg. nz = Some cfg \<longrightarrow> sd_transport s = NoiseTransport cfg \<and> validate_noise cfg = None"
    by blast
  then show ?thesis by (intro exI [of _ s] conjI allI impI) (auto intro: pinned)
qed

text \<open>The validation never looks at an interval, so it accepts a configuration whatever its
  polling, batching, checking and reporting intervals are, those for which a ticker cannot
  be made included.\<close>

theorem intervals_not_validated:
  "validate_sn (c\<lparr>sc_rpc := (sc_rpc c)\<lparr>rp_poll_interval := d1\<rparr>,
                  sc_logs := (sc_logs c)\<lparr>lg_batch_timeout := d2\<rparr>,
                  sc_resources := (sc_resources c)\<lparr>re_poll_interval := d3\<rparr>,
                  sc_metadata := (sc_metadata c)\<lparr>mc_check_interval := d4\<rparr>,
                  sc_self_report_interval := d5\<rparr>) = validate_sn c"
  by (simp add: validate_sn_def validate_beacon_def any_collector_enabled_def is_noise_scheme_def)

definition demo_sn_config :: sn_config where
  "demo_sn_config =
     default_sn_config\<lparr>sc_server_url := ''noise://sentry:8080'', sc_beacon_keys_dir := ''keys'',
       sc_beacon_public_key := hex_encode (replicate 32 (CHR 0x42)) @ [CHR 0x0A]\<rparr>"

definition demo_key_dirs :: "string \<Rightarrow> key_dir" where
  "demo_key_dirs dir = snd (write_keypair (\<lambda>_. True) demo_keypair Map.empty)"

lemma demo_keys_load: "load_keypair (demo_key_dirs dir) = Inr demo_keypair"
proof -
  have "length (kp_private demo_keypair) = 32" "length (kp_public demo_keypair) = 32"
    by (simp_all add: demo_keypair_def)
  then show ?thesis
    by (simp add: load_keypair_def demo_key_dirs_def write_keypair_def write_file_def
        load_hex_file_def trim_key_line priv_key_filename_def pub_key_filename_def)
qed

theorem pinned_beacon_key_enforced_witness:
  "\<exists>s session. new_sender (sc_server_url demo_sn_config) (sc_server_token demo_sn_config) (Some demo_noise) = Some s \<and>
     sd_transport s = NoiseTransport demo_noise \<and>
     fst (run_handshake demo_hs append_sink demo_noise True demo_peer_bytes []) = Inr session \<and>
     decode_public_key (sc_beacon_public_key demo_sn_config) = Some (peer_static session)"
proof -
  have v: "validate_sn demo_sn_config = None"
    by (simp add: demo_sn_config_def default_sn_config_def validate_sn_def validate_beacon_def
        is_noise_scheme_def has_prefix_def)
  define line where "line = hex_encode (replicate 32 (CHR 0x42)) @ [CHR 0x0A]"
  have k: "decode_public_key line = Some (replicate 32 (CHR 0x42))" unfolding line_def by (rule key_line_decodes) simp
  have f: "sc_beacon_public_key demo_sn_config = line" "is_noise_scheme demo_sn_config"
    by (simp_all add: demo_sn_config_def is_noise_scheme_def has_prefix_def line_def)
  have p: "line \<noteq> []" by (simp add: line_def)
  have n: "sn_noise_config demo_key_dirs demo_sn_config = Inr (Some demo_noise)"
    using f(2) p by (simp only: sn_noise_config_def f(1) k demo_keys_load demo_noise_def not_True_eq_False if_False
        sum.case option.case)
  obtain session where r: "fst (run_handshake demo_hs append_sink demo_noise True demo_peer_bytes []) = Inr session"
    using demo_handshakes(1) by (cases "fst (run_handshake demo_hs append_sink demo_noise True demo_peer_bytes [])") auto
  obtain s where s: "new_sender (sc_server_url demo_sn_config) (sc_server_token demo_sn_config) (Some demo_noise) = Some s"
      "\<forall>cfg. Some demo_noise = Some cfg \<longrightarrow> sd_transport s = NoiseTransport cfg \<and> validate_noise cfg = None \<and>
       (\<forall>(sink :: string sink) inp w session.
          line \<noteq> [] \<and> fst (run_handshake demo_hs sink cfg True inp w) = Inr session \<longrightarrow>
          decode_public_key line = Some (peer_static session))"
    using pinned_beacon_key_enforced [OF v n, of demo_hs] unfolding f(1) by (elim exE conjE) rule
  note t = s(2) [rule_format, OF refl]
  show ?thesis unfolding f(1)
    by (intro exI conjI) (rule s(1), rule t [THEN conjunct1], rule r, rule t [THEN conjunct2, THEN conjunct2, rule_format, OF conjI [OF p r]])
qed

end
