(* ===== verification/Sn_Doctor.thy ===== *)
theory Sn_Doctor
  imports Termstyle Sn_Config Log_Source Http
begin

text \<open>
  The sentinel's doctor (\<open>internal/sentinel/doctor\<close>): one check per part of the configuration,
  the report lines and the exit code. What the checks probe (the watchtower's answer, files,
  commands, host readings, the lines a log source delivers in three seconds, ports) and the
  error messages of the libraries are arguments, collected in \<open>doctor_env\<close>.
\<close>

section \<open>Results\<close>

type_synonym check_status = string

definition status_green :: check_status where "status_green = ''GREEN''"
definition status_red :: check_status where "status_red = ''RED''"
definition status_orange :: check_status where "status_orange = ''ORANGE''"
definition status_grey :: check_status where "status_grey = ''GREY''"

lemmas doctor_statuses = status_green_def status_red_def status_orange_def status_grey_def

record check_result =
  ck_name :: string
  ck_status :: check_status
  ck_detail :: string

definition mk_result :: "string \<Rightarrow> check_status \<Rightarrow> string \<Rightarrow> check_result" where
  "mk_result name st detail = \<lparr>ck_name = name, ck_status = st, ck_detail = detail\<rparr>"

lemma mk_result_sel [simp]:
  "ck_name (mk_result n st d) = n" "ck_status (mk_result n st d) = st" "ck_detail (mk_result n st d) = d"
  by (simp_all add: mk_result_def)

record auth_response =
  au_validator :: string
  au_permissions :: "string list"
  au_logs_min_level :: string

definition dec_auth_response :: "auth_response decoder" where
  "dec_auth_response =
     dec_struct (\<lambda>ms old.
       Option.bind (dec_field ms ''validator'' dec_string (au_validator old)) (\<lambda>v.
       Option.bind (dec_field ms ''permissions'' (dec_slice dec_string []) (au_permissions old)) (\<lambda>ps.
       Option.bind (dec_field ms ''logs_min_level'' dec_string (au_logs_min_level old)) (\<lambda>l.
       Some \<lparr>au_validator = v, au_permissions = ps, au_logs_min_level = l\<rparr>))))"

datatype report_format = FormatStyled | FormatPlain

definition format_result :: "bool \<Rightarrow> check_result \<Rightarrow> report_format \<Rightarrow> string" where
  "format_result colors r f =
     (if f = FormatPlain then
        ''  ['' @ ck_status r @ ''] '' @ pad_right 20 (ck_name r) @ '' '' @ ck_detail r
      else if ck_status r = status_green then ok_line colors (ck_name r) (ck_detail r)
      else if ck_status r = status_red then fail_line colors (ck_name r) (ck_detail r)
      else if ck_status r = status_orange then off_line colors (ck_name r) (ck_detail r)
      else if ck_status r = status_grey then skip_line colors (ck_name r) (ck_detail r)
      else fail_line colors (ck_name r) (ck_detail r))"

section \<open>What the checks probe\<close>

datatype otlp_wait = ExportReceived | WaitDeadline | WaitCancelled string

record doctor_env =
  de_dirs :: "string \<Rightarrow> key_dir"
  de_noise_error :: "noise_config_error \<Rightarrow> string"
  de_request_error :: "string \<Rightarrow> string option"
  de_do :: "noise_config option \<Rightarrow> string \<Rightarrow> string \<Rightarrow> string + http_response"
  de_decode_error :: "string \<Rightarrow> string"
  de_meta :: meta_env
  de_open_error :: "string \<Rightarrow> string option"
  de_cmd_error :: "string \<Rightarrow> string"
  de_cpu_error :: "string option"
  de_memory_error :: "string option"
  de_disk_error :: "string option"
  de_network_error :: "string option"
  de_container_error :: "string \<Rightarrow> string option"
  de_source_error :: "string \<Rightarrow> string"
  de_lines :: "log_source \<Rightarrow> log_line list"
  de_dial :: "string \<Rightarrow> bool"
  de_listen_error :: "string \<Rightarrow> string option"
  de_otlp_wait :: "string \<Rightarrow> otlp_wait"

section \<open>The watchtower, the token and its permissions\<close>

definition three_results :: "check_status \<Rightarrow> string \<Rightarrow> check_result list" where
  "three_results st detail =
     [mk_result ''Watchtower'' st detail, mk_result ''Token valid'' st detail,
      mk_result ''Token permissions'' st detail]"

definition unreachable :: "string \<Rightarrow> check_result list" where
  "unreachable reason =
     [mk_result ''Watchtower'' status_red (''unreachable: '' @ reason),
      mk_result ''Token valid'' status_red ''cannot check: watchtower unreachable'',
      mk_result ''Token permissions'' status_red ''cannot check: watchtower unreachable'']"

text \<open>The transport (plain, or Noise with its configuration) and the URL to ask.\<close>

definition build_auth_check_client :: "doctor_env \<Rightarrow> sn_config \<Rightarrow> string + noise_config option \<times> string" where
  "build_auth_check_client e c =
     (if \<not> has_prefix (sc_server_url c) ''noise://'' then Inr (None, sc_server_url c @ ''/auth/check'')
      else
        (case sn_noise_config (de_dirs e) c of
           Inl err \<Rightarrow> Inl (''noise config: '' @ de_noise_error e err)
         | Inr None \<Rightarrow> Inl ''server.url is noise:// but no beacon keypair was configured''
         | Inr (Some nz) \<Rightarrow>
             Inr (Some nz, ''http://'' @ trim_prefix (sc_server_url c) ''noise://'' @ ''/auth/check'')))"

definition missing_permissions :: "sn_config \<Rightarrow> string list \<Rightarrow> string list" where
  "missing_permissions c perms =
     (if rp_enabled (sc_rpc c) \<and> ''rpc'' \<notin> set perms then [''rpc''] else []) @
     (if (re_enabled (sc_resources c) \<or> sc_metadata_enabled c) \<and> ''metrics'' \<notin> set perms then [''metrics''] else []) @
     (if lg_enabled (sc_logs c) \<and> ''logs'' \<notin> set perms then [''logs''] else []) @
     (if sc_otlp_enabled c \<and> ''otlp'' \<notin> set perms then [''otlp''] else [])"

definition check_token_permissions :: "sn_config \<Rightarrow> auth_response \<Rightarrow> check_result" where
  "check_token_permissions c ar =
     (let missing = missing_permissions c (au_permissions ar)
      in if missing \<noteq> [] then
           mk_result ''Token permissions'' status_red
             (''missing permissions for enabled features: '' @ join_with '', '' missing)
         else
           mk_result ''Token permissions'' status_green (''granted: '' @ join_with '', '' (au_permissions ar)))"

definition read_auth_response :: "doctor_env \<Rightarrow> sn_config \<Rightarrow> http_response \<Rightarrow> check_result list \<times> auth_response option" where
  "read_auth_response e c resp =
     (let remote = mk_result ''Watchtower'' status_green (sc_server_url c)
      in if rs_status resp \<noteq> status_ok then
           ([remote,
             mk_result ''Token valid'' status_red (''auth/check returned HTTP '' @ format_int (rs_status resp)),
             mk_result ''Token permissions'' status_red ''cannot check: token invalid''], None)
         else
           (case Option.bind (json_first (rs_body resp)) (\<lambda>(rv, _).
                   dec_auth_response rv \<lparr>au_validator = [], au_permissions = [], au_logs_min_level = []\<rparr>) of
              None \<Rightarrow>
                ([remote,
                  mk_result ''Token valid'' status_red (''decode auth response: '' @ de_decode_error e (rs_body resp)),
                  mk_result ''Token permissions'' status_red ''cannot check: auth response invalid''], None)
            | Some ar \<Rightarrow>
                ([remote, mk_result ''Token valid'' status_green (''validator: '' @ au_validator ar),
                  check_token_permissions c ar], Some ar)))"

definition check_remote_token_and_permissions ::
  "doctor_env \<Rightarrow> sn_config \<Rightarrow> check_result list \<times> auth_response option" where
  "check_remote_token_and_permissions e c =
     (if is_placeholder (sc_server_url c) then (three_results status_orange ''server.url not configured'', None)
      else if is_placeholder (sc_server_token c) then (three_results status_orange ''server.token not configured'', None)
      else
        (case build_auth_check_client e c of
           Inl err \<Rightarrow> (unreachable err, None)
         | Inr (transport, url) \<Rightarrow>
             (case de_request_error e url of
                Some err \<Rightarrow> (unreachable (''build request: '' @ err), None)
              | None \<Rightarrow>
                  (case de_do e transport url (''Bearer '' @ sc_server_token c) of
                     Inl err \<Rightarrow> (unreachable err, None)
                   | Inr resp \<Rightarrow> read_auth_response e c resp))))"

section \<open>Metadata\<close>

definition keys_found :: "meta_env \<Rightarrow> string \<Rightarrow> nat" where
  "keys_found m path = length (filter (\<lambda>key. read_config_key m path key \<noteq> None) config_keys)"

definition check_metadata_config :: "doctor_env \<Rightarrow> metadata_config \<Rightarrow> check_result" where
  "check_metadata_config e cfg =
     (if mc_config_path cfg = [] \<and> mc_config_get_cmd cfg = [] then
        mk_result ''Metadata config'' status_orange ''not configured''
      else if mc_config_path cfg \<noteq> [] then
        (if is_placeholder (mc_config_path cfg) then
           mk_result ''Metadata config'' status_orange ''config_path not configured''
         else
           (case de_open_error e (mc_config_path cfg) of
              Some err \<Rightarrow> mk_result ''Metadata config'' status_red err
            | None \<Rightarrow>
                mk_result ''Metadata config'' status_green
                  (format_nat (keys_found (de_meta e) (mc_config_path cfg)) @ ''/'' @
                   format_nat (length config_keys) @ '' keys found'')))
      else
        (let cmd = replace_all ''%s'' (hd config_keys) (mc_config_get_cmd cfg)
         in case run_cmd (de_meta e) cmd of
              None \<Rightarrow> mk_result ''Metadata config'' status_red (de_cmd_error e cmd)
            | Some _ \<Rightarrow> mk_result ''Metadata config'' status_green ''cmd accessible''))"

section \<open>Resources\<close>

definition check_host_stats :: "doctor_env \<Rightarrow> string option" where
  "check_host_stats e =
     (case de_cpu_error e of Some err \<Rightarrow> Some (''cpu: '' @ err)
      | None \<Rightarrow>
     (case de_memory_error e of Some err \<Rightarrow> Some (''memory: '' @ err)
      | None \<Rightarrow>
     (case de_disk_error e of Some err \<Rightarrow> Some (''disk: '' @ err)
      | None \<Rightarrow>
     (case de_network_error e of Some err \<Rightarrow> Some (''network: '' @ err)
      | None \<Rightarrow> None))))"

definition check_resources :: "doctor_env \<Rightarrow> sn_resources_config \<Rightarrow> check_result" where
  "check_resources e cfg =
     (if re_source cfg = [] then mk_result ''Resources'' status_orange ''source not configured''
      else
        (let errs =
           (if re_source cfg = ''host'' \<or> re_source cfg = ''both'' then
              (case check_host_stats e of None \<Rightarrow> [] | Some err \<Rightarrow> [''host: '' @ err]) else []) @
           (if re_source cfg = ''docker'' \<or> re_source cfg = ''both'' then
              (case de_container_error e (re_container_name cfg) of None \<Rightarrow> [] | Some err \<Rightarrow> [''docker: '' @ err])
            else [])
         in if errs \<noteq> [] then mk_result ''Resources'' status_red (join_with ''; '' errs)
            else mk_result ''Resources'' status_green (''source='' @ re_source cfg @ '' OK'')))"

section \<open>Logs\<close>

text \<open>The counters of the loop over the lines received before the deadline.\<close>

record log_counts =
  lc_total :: nat
  lc_invalid_json :: nat
  lc_at_level :: nat

definition count_line :: "string \<Rightarrow> log_counts \<Rightarrow> log_line \<Rightarrow> log_counts" where
  "count_line min_level k line =
     (let k1 = k\<lparr>lc_total := lc_total k + 1\<rparr>;
          k2 = (if \<not> json_valid (ll_raw line) then k1\<lparr>lc_invalid_json := lc_invalid_json k1 + 1\<rparr> else k1)
      in if level_rank min_level \<le> level_rank (ll_level line) then k2\<lparr>lc_at_level := lc_at_level k2 + 1\<rparr> else k2)"

definition check_duration :: duration where "check_duration = 3 * second"

text \<open>\<open>%s\<close> of the two three-second deadlines.\<close>

definition check_duration_text :: string where "check_duration_text = ''3s''"

definition check_logs :: "doctor_env \<Rightarrow> log_source \<Rightarrow> string \<Rightarrow> check_result" where
  "check_logs e src min_level =
     (let k = foldl (count_line min_level) \<lparr>lc_total = 0, lc_invalid_json = 0, lc_at_level = 0\<rparr> (de_lines e src)
      in if lc_total k = 0 then
           mk_result ''Logs'' status_red (''no lines received in '' @ check_duration_text)
         else if 0 < lc_invalid_json k then
           mk_result ''Logs'' status_red
             (format_nat (lc_invalid_json k) @ ''/'' @ format_nat (lc_total k) @ '' lines are not valid JSON'')
         else if lc_at_level k = 0 then
           mk_result ''Logs'' status_red
             (format_nat (lc_total k) @ '' lines received but none at '' @ min_level @ '' or above'')
         else
           mk_result ''Logs'' status_green
             (format_nat (lc_total k) @ '' valid JSON lines, '' @ format_nat (lc_at_level k) @ '' at '' @
              min_level @ ''+ in '' @ check_duration_text))"

section \<open>OTLP\<close>

text \<open>The port already answers, or the check listens itself and waits for one export.\<close>

definition check_otlp :: "doctor_env \<Rightarrow> string \<Rightarrow> check_result" where
  "check_otlp e addr =
     (if de_dial e addr then mk_result ''OTLP'' status_green (''relay reachable on '' @ addr)
      else
        (case de_listen_error e addr of
           Some err \<Rightarrow> mk_result ''OTLP'' status_red (''listen '' @ addr @ '': '' @ err)
         | None \<Rightarrow>
             (case de_otlp_wait e addr of
                ExportReceived \<Rightarrow> mk_result ''OTLP'' status_green (''export received on '' @ addr)
              | WaitDeadline \<Rightarrow>
                  mk_result ''OTLP'' status_red (''no export received in '' @ check_duration_text @ '' on '' @ addr)
              | WaitCancelled err \<Rightarrow> mk_result ''OTLP'' status_red (''check cancelled: '' @ err))))"

section \<open>The run\<close>

definition not_granted :: "auth_response option \<Rightarrow> string \<Rightarrow> bool" where
  "not_granted ar perm = (case ar of None \<Rightarrow> False | Some a \<Rightarrow> perm \<notin> set (au_permissions a))"

definition metadata_check :: "doctor_env \<Rightarrow> sn_config \<Rightarrow> auth_response option \<Rightarrow> check_result" where
  "metadata_check e c ar =
     (if \<not> sc_metadata_enabled c then mk_result ''Metadata config'' status_orange ''disabled in config''
      else if not_granted ar ''metrics'' then mk_result ''Metadata config'' status_grey ''metrics permission not granted''
      else check_metadata_config e (sc_metadata c))"

definition logs_check :: "doctor_env \<Rightarrow> sn_config \<Rightarrow> auth_response option \<Rightarrow> check_result" where
  "logs_check e c ar =
     (let lg = sc_logs c
      in if \<not> lg_enabled lg then mk_result ''Logs'' status_orange ''disabled in config''
         else if not_granted ar ''logs'' then mk_result ''Logs'' status_grey ''logs permission not granted''
         else
           (case new_source (lg_source lg) (lg_container_name lg) (lg_journald_unit lg) (lg_resume_lookback lg) of
              None \<Rightarrow> mk_result ''Logs'' status_red (''invalid source config: '' @ de_source_error e (lg_source lg))
            | Some src \<Rightarrow>
                (let min_level =
                   (case ar of
                      None \<Rightarrow> lg_min_level lg
                    | Some a \<Rightarrow>
                        if level_rank (lg_min_level lg) < level_rank (au_logs_min_level a) then au_logs_min_level a
                        else lg_min_level lg)
                 in check_logs e src min_level)))"

definition otlp_check :: "doctor_env \<Rightarrow> sn_config \<Rightarrow> auth_response option \<Rightarrow> check_result" where
  "otlp_check e c ar =
     (if \<not> sc_otlp_enabled c then mk_result ''OTLP'' status_orange ''disabled in config''
      else if not_granted ar ''otlp'' then mk_result ''OTLP'' status_grey ''otlp permission not granted''
      else check_otlp e (sc_otlp_listen_addr c))"

definition resources_check :: "doctor_env \<Rightarrow> sn_config \<Rightarrow> auth_response option \<Rightarrow> check_result" where
  "resources_check e c ar =
     (if \<not> re_enabled (sc_resources c) then mk_result ''Resources'' status_orange ''disabled in config''
      else if not_granted ar ''metrics'' then mk_result ''Resources'' status_grey ''metrics permission not granted''
      else check_resources e (sc_resources c))"

definition rpc_check :: "sn_config \<Rightarrow> auth_response option \<Rightarrow> check_result" where
  "rpc_check c ar =
     (if \<not> rp_enabled (sc_rpc c) then mk_result ''RPC'' status_orange ''disabled in config''
      else if not_granted ar ''rpc'' then mk_result ''RPC'' status_grey ''rpc permission not granted''
      else if rp_rpc_url (sc_rpc c) = [] then mk_result ''RPC'' status_red ''rpc_url not set''
      else mk_result ''RPC'' status_green (''configured: '' @ rp_rpc_url (sc_rpc c)))"

definition health_check :: "sn_config \<Rightarrow> check_result" where
  "health_check c =
     (if \<not> sc_health_enabled c then mk_result ''Health'' status_orange ''disabled in config''
      else if sc_health_listen_addr c = [] then mk_result ''Health'' status_red ''listen_addr not set''
      else mk_result ''Health'' status_green (''configured: '' @ sc_health_listen_addr c))"

definition doctor_results :: "doctor_env \<Rightarrow> sn_config \<Rightarrow> check_result list" where
  "doctor_results e c =
     (let (remote, ar) = check_remote_token_and_permissions e c
      in remote @ [metadata_check e c ar, logs_check e c ar, otlp_check e c ar, resources_check e c ar,
                   rpc_check c ar, health_check c])"

text \<open>\<open>emit\<close>: the line is printed and a red result is remembered.\<close>

definition emit_result :: "bool \<Rightarrow> report_format \<Rightarrow> string list \<times> bool \<Rightarrow> check_result \<Rightarrow> string list \<times> bool" where
  "emit_result colors f st r =
     (fst st @ [format_result colors r f], snd st \<or> ck_status r = status_red)"

definition run_doctor :: "doctor_env \<Rightarrow> sn_config \<Rightarrow> string \<Rightarrow> bool \<Rightarrow> report_format \<Rightarrow> string list \<times> int" where
  "run_doctor e c config_path colors f =
     (let (out, has_red) =
        foldl (emit_result colors f) ([''Validating sentinel config: '' @ config_path], False) (doctor_results e c)
      in (out @ [[]], if has_red then 1 else 0))"

end
