(* ===== verification/Doctor_Props.thy ===== *)
theory Doctor_Props
  imports Sn_Doctor Handlers_Props Json_Roundtrip
begin

text \<open>
  What the sentinel's doctor reports: its exit code against the printed lines, and its
  verdict on the token against what the watchtower's handlers do with the sentinel's payloads.
\<close>

section \<open>The exit code\<close>

definition known_status :: "check_status \<Rightarrow> bool" where
  "known_status st \<longleftrightarrow> st \<in> {status_green, status_red, status_orange, status_grey}"

lemma known_statuses [simp]:
  "known_status status_green" "known_status status_red" "known_status status_orange" "known_status status_grey"
  by (simp_all add: known_status_def)

lemma check_statuses [simp]:
  "known_status (ck_status (check_token_permissions c ar))"
  "known_status (ck_status (check_metadata_config e mcfg))"
  "known_status (ck_status (check_logs e src level))"
  "known_status (ck_status (check_otlp e addr))"
  "known_status (ck_status (check_resources e rcfg))"
  by (simp_all add: check_token_permissions_def check_metadata_config_def check_logs_def check_otlp_def
      check_resources_def Let_def split: option.split otlp_wait.split)

lemma remote_statuses:
  "list_all (\<lambda>r. known_status (ck_status r)) (fst (check_remote_token_and_permissions e c))"
  by (simp add: check_remote_token_and_permissions_def three_results_def unreachable_def
      read_auth_response_def Let_def split: sum.split option.split prod.split)

lemma gated_statuses:
  "known_status (ck_status (metadata_check e c ar))" "known_status (ck_status (logs_check e c ar))"
  "known_status (ck_status (otlp_check e c ar))" "known_status (ck_status (resources_check e c ar))"
  "known_status (ck_status (rpc_check c ar))" "known_status (ck_status (health_check c))"
  by (simp_all add: metadata_check_def logs_check_def otlp_check_def resources_check_def
      rpc_check_def health_check_def Let_def split: option.split)

lemma doctor_result_status: "r \<in> set (doctor_results e c) \<Longrightarrow> known_status (ck_status r)"
  using remote_statuses [of e c]
  by (auto simp: doctor_results_def Let_def case_prod_unfold list_all_iff gated_statuses)

lemma emit_results:
  "foldl (emit_result colors f) (out, has_red) rs =
     (out @ map (\<lambda>r. format_result colors r f) rs, has_red \<or> (\<exists>r \<in> set rs. ck_status r = status_red))"
  by (induction rs arbitrary: out has_red) (auto simp: emit_result_def)

lemma run_doctor_unfold:
  "run_doctor e c path colors f =
     ((''Validating sentinel config: '' @ path) # map (\<lambda>r. format_result colors r f) (doctor_results e c) @ [[]],
      if \<exists>r \<in> set (doctor_results e c). ck_status r = status_red then 1 else 0)"
  by (simp add: run_doctor_def emit_results)

lemma plain_red_line:
  "known_status (ck_status r) \<Longrightarrow>
   has_prefix (format_result colors r FormatPlain) ''  [RED] '' \<longleftrightarrow> ck_status r = status_red"
  by (auto simp: known_status_def format_result_def has_prefix_def doctor_statuses)

text \<open>The doctor's exit code is 1 exactly when a line of its plain report starts with the
  \<open>[RED]\<close> tag, and 0 otherwise, whatever the probes find; the format does not change the code.\<close>

lemma exit_code_matches_report:
  "snd (run_doctor e c path colors f) =
     (if \<exists>l \<in> set (fst (run_doctor e c path colors' FormatPlain)). has_prefix l ''  [RED] '' then 1 else 0)"
proof -
  have "(\<exists>l \<in> set (fst (run_doctor e c path colors' FormatPlain)). has_prefix l ''  [RED] '') \<longleftrightarrow>
      (\<exists>r \<in> set (doctor_results e c). has_prefix (format_result colors' r FormatPlain) ''  [RED] '')"
    by (simp add: run_doctor_unfold) (simp add: has_prefix_def)
  also have "\<dots> \<longleftrightarrow> (\<exists>r \<in> set (doctor_results e c). ck_status r = status_red)"
    using plain_red_line doctor_result_status by blast
  finally show ?thesis by (simp add: run_doctor_unfold)
qed

section \<open>The token, against the watchtower\<close>

definition auth_request :: "string \<Rightarrow> string \<Rightarrow> http_request" where
  "auth_request addr token =
     \<lparr>rq_method = ''GET'', rq_path = ''/auth/check'', rq_query = [],
      rq_headers = [(''Authorization'', [''Bearer '' @ token])], rq_remote_addr = addr,
      rq_body = [], rq_body_fails = False\<rparr>"

text \<open>The types of the payloads the checked features send.\<close>

definition feature_types :: "sn_config \<Rightarrow> string list" where
  "feature_types c =
     (if rp_enabled (sc_rpc c) then [''rpc''] else []) @
     (if re_enabled (sc_resources c) \<or> sc_metadata_enabled c then [''metrics''] else []) @
     (if lg_enabled (sc_logs c) then [''logs''] else []) @ (if sc_otlp_enabled c then [''otlp''] else [])"

lemma missing_permissions_filter:
  "missing_permissions c perms = filter (\<lambda>p. p \<notin> set perms) (feature_types c)"
  by (simp add: missing_permissions_def feature_types_def)

lemma check_token_permissions_red:
  "ck_status (check_token_permissions c ar) = status_red \<longleftrightarrow>
     (\<exists>p \<in> set (feature_types c). p \<notin> set (au_permissions ar))"
  by (auto simp: check_token_permissions_def Let_def missing_permissions_filter doctor_statuses filter_empty_conv)

lemma handle_payload_forbidden:
  "rs_status (sr_response (handle_payload e perm name v r s)) = 403 \<longleftrightarrow> perm \<notin> set (vc_permissions v)"
  by (simp add: handle_payload_def Let_def http_status ok_response_def split: option.split)

text \<open>The body of \<open>/auth/check\<close> as the members of an object, and what the doctor decodes.\<close>

definition auth_members :: "string \<Rightarrow> validator_config \<Rightarrow> (string \<times> string \<times> json) list" where
  "auth_members name v =
     [(''validator'', quote_string name, JStr name),
      (''permissions'', if vc_permissions v = [] then (''null'', JNull)
                        else (array_text (vc_permissions v), array_value (vc_permissions v))),
      (''logs_min_level'', quote_string (vc_logs_min_level v), JStr (vc_logs_min_level v))]"

definition names_valid :: "string \<Rightarrow> validator_config \<Rightarrow> bool" where
  "names_valid name v \<longleftrightarrow>
     valid_utf8 name \<and> list_all valid_utf8 (vc_permissions v) \<and> valid_utf8 (vc_logs_min_level v)"

lemma auth_body_text: "auth_check_body name v = object_text (auth_members name v) @ [CHR 0x0A]"
  by (simp add: auth_check_body_def object_text_def auth_members_def entry_text_def array_text_def)

lemma auth_members_ok: "names_valid name v \<Longrightarrow> list_all (entry_ok (max_nesting_depth - 1)) (auth_members name v)"
proof -
  have d: "max_nesting_depth - 1 = Suc (max_nesting_depth - 2)" by (simp add: max_nesting_depth_def)
  assume v: "names_valid name v"
  then have "encodes (max_nesting_depth - 1) (array_text (vc_permissions v)) (array_value (vc_permissions v))"
    unfolding d by (intro encodes_array) (simp add: names_valid_def)
  with v show ?thesis
    by (simp add: auth_members_def entry_ok_def names_valid_def encodes_string encodes_null ascii_valid_utf8)
qed

lemma auth_body_decodes:
  assumes "names_valid name v"
  shows "Option.bind (json_first (auth_check_body name v)) (\<lambda>(rv, _).
      dec_auth_response rv \<lparr>au_validator = [], au_permissions = [], au_logs_min_level = []\<rparr>) =
    Some \<lparr>au_validator = name, au_permissions = vc_permissions v, au_logs_min_level = vc_logs_min_level v\<rparr>"
  by (simp add: auth_body_text json_first_object [OF auth_members_ok [OF assms]] dec_auth_response_def dec_struct_def)
     (simp add: auth_members_def dec_field_def members_named_def dec_string_def dec_string_array
        dec_slice_def [of _ _ "(''null'', JNull)"])

lemma auth_request_served:
  assumes "ar_verdict (auth_middleware (ev_clock e) (auth_request addr token) (sv_auth s)) = Authenticated name v"
    and "fst (allow (ev_new_bucket e) (ev_allow_bucket e) (ev_limit_now e) name (sv_rl s))"
  shows "sr_response (serve e (auth_request addr token) s) =
    \<lparr>rs_status = 200, rs_headers = [(''Content-Type'', [''application/json''])], rs_body = auth_check_body name v\<rparr>"
proof -
  obtain s2 where "protected_chain e (auth_request addr token) s = inner_mux e name v (auth_request addr token) s2"
    using protected_chain_admitted [OF assms] by metis
  then show ?thesis
    by (simp add: serve_def must_redirect_def clean_path_def step_segment_def outer_route_def is_get_def
        inner_mux_def inner_route_def handle_auth_check_def http_status auth_request_def)
qed

text \<open>C35: when the doctor's request reaches a watchtower that knows the token, the doctor reports
  the watchtower and the token as working, with the validator's name, permissions and log
  level exactly as the watchtower has them; and it reports the permissions as failing exactly
  when the watchtower would answer 403 to the payloads of an enabled feature it checks.\<close>

theorem doctor_agrees_with_watchtower:
  assumes config: "\<not> is_placeholder (sc_server_url c)" "\<not> is_placeholder (sc_server_token c)"
    and client: "build_auth_check_client d c = Inr (transport, url)" "de_request_error d url = None"
    and reached: "de_do d transport url (''Bearer '' @ sc_server_token c) =
      Inr (sr_response (serve e (auth_request addr (sc_server_token c)) s))"
    and known: "ar_verdict (auth_middleware (ev_clock e) (auth_request addr (sc_server_token c)) (sv_auth s)) =
      Authenticated name v"
    and within: "fst (allow (ev_new_bucket e) (ev_allow_bucket e) (ev_limit_now e) name (sv_rl s))"
    and utf8: "names_valid name v"
  shows "\<exists>perms.
    check_remote_token_and_permissions d c =
      ([mk_result ''Watchtower'' status_green (sc_server_url c),
        mk_result ''Token valid'' status_green (''validator: '' @ name), perms],
       Some \<lparr>au_validator = name, au_permissions = vc_permissions v, au_logs_min_level = vc_logs_min_level v\<rparr>) \<and>
    (ck_status perms = status_red \<longleftrightarrow>
       (\<exists>perm \<in> set (feature_types c). rs_status (sr_response (handle_payload e perm name v r s')) = 403))"
  by (simp add: check_remote_token_and_permissions_def config client reached [simplified] read_auth_response_def Let_def
      auth_request_served [OF known within] http_status auth_body_decodes [OF utf8] check_token_permissions_red
      handle_payload_forbidden)

definition demo_doctor_config :: sn_config where
  "demo_doctor_config =
     default_sn_config\<lparr>sc_server_url := ''https://watchtower'', sc_server_token := ''tok''\<rparr>"

definition demo_doctor_env :: doctor_env where
  "demo_doctor_env =
     \<lparr>de_dirs = demo_key_dirs, de_noise_error = \<lambda>_. [], de_request_error = \<lambda>_. None,
      de_do = \<lambda>_ url auth. Inr (sr_response (serve demo_env (auth_request ''10.0.0.1:99'' ''tok'') demo_server)),
      de_decode_error = \<lambda>_. [], de_meta = demo_meta_env, de_open_error = \<lambda>_. None, de_cmd_error = \<lambda>_. [],
      de_cpu_error = None, de_memory_error = None, de_disk_error = None, de_network_error = None,
      de_container_error = \<lambda>_. None, de_source_error = \<lambda>_. [], de_lines = \<lambda>_. [], de_dial = \<lambda>_. True,
      de_listen_error = \<lambda>_. None, de_otlp_wait = \<lambda>_. WaitDeadline\<rparr>"

theorem doctor_agrees_with_watchtower_witness:
  "\<exists>perms ar. check_remote_token_and_permissions demo_doctor_env demo_doctor_config =
     ([mk_result ''Watchtower'' status_green ''https://watchtower'',
       mk_result ''Token valid'' status_green ''validator: v1'', perms], Some ar) \<and>
     ck_status perms = status_red"
proof -
  let ?c = demo_doctor_config
  have c: "sc_server_url ?c = ''https://watchtower''" "sc_server_token ?c = ''tok''"
    by (simp_all add: demo_doctor_config_def)
  have "\<not> is_placeholder (sc_server_url ?c)" "\<not> is_placeholder (sc_server_token ?c)"
    by (simp_all add: c is_placeholder_def)
  moreover have "build_auth_check_client demo_doctor_env ?c = Inr (None, ''https://watchtower/auth/check'')"
    by (simp add: build_auth_check_client_def c has_prefix_def)
  moreover have "de_request_error demo_doctor_env ''https://watchtower/auth/check'' = None"
    by (simp add: demo_doctor_env_def)
  moreover have "de_do demo_doctor_env None ''https://watchtower/auth/check'' (''Bearer '' @ sc_server_token ?c) =
      Inr (sr_response (serve demo_env (auth_request ''10.0.0.1:99'' (sc_server_token ?c)) demo_server))"
    by (simp add: demo_doctor_env_def c)
  moreover have "ar_verdict (auth_middleware (ev_clock demo_env) (auth_request ''10.0.0.1:99'' (sc_server_token ?c))
      (sv_auth demo_server)) = Authenticated ''v1'' demo_validator"
    by (simp add: auth_middleware_authenticated_iff demo_server_def new_server_def demo_env_def
      is_banned_def maybe_sweep_def new_authenticator_def set_metrics_def bearer_token_def c auth_request_def
      header_get_def cut_prefix_def has_prefix_def demo_validator_def Let_def)
  moreover have "fst (allow (ev_new_bucket demo_env) (ev_allow_bucket demo_env) (ev_limit_now demo_env) ''v1'' (sv_rl demo_server))"
    by (simp add: demo_env_def allow_def)
  moreover have "names_valid ''v1'' demo_validator"
    by (simp add: names_valid_def demo_validator_def ascii_valid_utf8)
  ultimately obtain perms where "check_remote_token_and_permissions demo_doctor_env ?c =
      ([mk_result ''Watchtower'' status_green (sc_server_url ?c),
        mk_result ''Token valid'' status_green (''validator: '' @ ''v1''), perms],
       Some \<lparr>au_validator = ''v1'', au_permissions = vc_permissions demo_validator,
             au_logs_min_level = vc_logs_min_level demo_validator\<rparr>)"
      "ck_status perms = status_red \<longleftrightarrow> (\<exists>perm \<in> set (feature_types ?c).
         rs_status (sr_response (handle_payload demo_env perm ''v1'' demo_validator demo_post demo_server)) = 403)"
    using doctor_agrees_with_watchtower by metis
  moreover have "''metrics'' \<in> set (feature_types ?c)"
    by (simp add: feature_types_def demo_doctor_config_def default_sn_config_def)
  moreover have "''metrics'' \<notin> set (vc_permissions demo_validator)" by (simp add: demo_validator_def)
  ultimately show ?thesis by (simp add: c handle_payload_forbidden) blast
qed

end
