(* ===== verification/Beacon_Augment.thy ===== *)
theory Beacon_Augment
  imports Metadata_Collector Rpc_Collector
begin

text \<open>
  The beacon's augmenter (\<open>internal/beacon/augment/augment.go\<close>): a \<open>/rpc\<close> payload that holds a
  \<open>net_info\<close>, or any payload after a long time without one, is given the sentry's own status,
  peers and configuration. The answers of the sentry's RPC and the configuration source are
  arguments; the deadline of the fetches shows as an answer that failed. Writing into a nil
  map is a panic of the language, an outcome of its own.
\<close>

record augmenter =
  ag_meta_cfg :: metadata_config
  ag_meta_keys :: "string list"
  ag_force_interval :: duration
  ag_last_augment_at :: gtime

definition new_augmenter :: "metadata_config \<Rightarrow> string list option \<Rightarrow> gtime \<Rightarrow> augmenter" where
  "new_augmenter cfg keys now =
     \<lparr>ag_meta_cfg = cfg, ag_meta_keys = (case keys of None \<Rightarrow> config_keys | Some ks \<Rightarrow> ks),
      ag_force_interval = (if mc_force_interval cfg \<le> 0 then default_force_interval else mc_force_interval cfg),
      ag_last_augment_at = now\<rparr>"

datatype augment_result = PassThrough | Rewritten string | AugmentError | Panics

text \<open>\<open>fetchConfig\<close>: \<open>None\<close> is nil. With neither source configured no key is ever read.\<close>

definition fetch_config :: "meta_env \<Rightarrow> augmenter \<Rightarrow> string option" where
  "fetch_config e a =
     (let vals = foldl (\<lambda>m (k, v). AList.update k v m) []
            (config_values e (ag_meta_cfg a) (ag_meta_keys a))
      in if vals = [] then None else Some (marshal_string_map vals))"

record augment_env =
  ae_fetch_status :: "string \<Rightarrow> fetch_outcome"
  ae_fetch_net_info :: "string \<Rightarrow> fetch_outcome"
  ae_meta :: meta_env
  ae_since :: gtime
  ae_done :: gtime

definition nonempty :: "string option \<Rightarrow> string option" where
  "nonempty r = (case r of Some (c # s) \<Rightarrow> Some (c # s) | _ \<Rightarrow> None)"

definition injected_as :: "string \<Rightarrow> string option \<Rightarrow> (string \<times> string) list" where
  "injected_as key r = (case r of None \<Rightarrow> [] | Some raw \<Rightarrow> [(key, raw)])"

text \<open>What is injected, in the order of the code.\<close>

definition injections :: "augment_env \<Rightarrow> augmenter \<Rightarrow> (string \<times> string) list" where
  "injections e a =
     injected_as ''sentry_status'' (nonempty (rpc_get (ae_fetch_status e) ''/status'')) @
     injected_as ''sentry_net_info'' (nonempty (rpc_get (ae_fetch_net_info e) ''/net_info'')) @
     injected_as ''sentry_config''
       (if mc_config_path (ag_meta_cfg a) \<noteq> [] \<or> mc_config_get_cmd (ag_meta_cfg a) \<noteq> []
        then fetch_config (ae_meta e) a else None)"

definition inject :: "(string \<times> string) list \<Rightarrow> (string \<times> string) list \<Rightarrow> (string \<times> string) list" where
  "inject kvs data = foldl (\<lambda>m (k, v). AList.update k v m) data kvs"

definition augment_rpc :: "augment_env \<Rightarrow> string \<Rightarrow> augmenter \<Rightarrow> augment_result \<times> augmenter" where
  "augment_rpc e body a =
     (case unmarshal_raw_map body of
        None \<Rightarrow> (AugmentError, a)
      | Some payload \<Rightarrow>
          (case map_of (gomap_items payload) ''data'' of
             None \<Rightarrow> (PassThrough, a)
           | Some data_raw \<Rightarrow>
               (case unmarshal_raw_map data_raw of
                  None \<Rightarrow> (AugmentError, a)
                | Some data \<Rightarrow>
                    if map_of (gomap_items data) ''net_info'' = None \<and>
                       time_sub (ae_since e) (ag_last_augment_at a) < ag_force_interval a
                    then (PassThrough, a)
                    else if injections e a = [] then (PassThrough, a)
                    else
                      (case data of
                         None \<Rightarrow> (Panics, a)
                       | Some kvs \<Rightarrow>
                           (let reencoded = marshal_raw_map (Some (inject (injections e a) kvs))
                            in (Rewritten (marshal_raw_map
                                  (Some (AList.update ''data'' reencoded (gomap_items payload)))),
                                a\<lparr>ag_last_augment_at := ae_done e\<rparr>))))))"

definition transform :: "augment_env \<Rightarrow> string \<Rightarrow> string \<Rightarrow> augmenter \<Rightarrow> augment_result \<times> augmenter" where
  "transform e path body a =
     (if path \<noteq> ''/rpc'' then (PassThrough, a)
      else
        (case augment_rpc e body a of
           (AugmentError, a') \<Rightarrow> (PassThrough, a')
         | res \<Rightarrow> res))"

section \<open>Nothing is lost\<close>

definition sentry_keys :: "string set" where
  "sentry_keys = {''sentry_status'', ''sentry_net_info'', ''sentry_config''}"

lemma inject_lookup:
  "map_of (inject kvs data) k = (case map_of (rev kvs) k of Some v \<Rightarrow> Some v | None \<Rightarrow> map_of data k)"
  by (induction kvs arbitrary: data) (auto simp: inject_def update_conv' split: option.splits)

lemma injected_as_set: "(k, v) \<in> set (injected_as key r) \<longleftrightarrow> k = key \<and> r = Some v"
  by (cases r) (auto simp: injected_as_def)

lemma injected_as_keys: "map fst (injected_as key r) = (if r = None then [] else [key])"
  by (cases r) (simp_all add: injected_as_def)

lemma injections_keys: "(k, v) \<in> set (injections e a) \<Longrightarrow> k \<in> sentry_keys"
  by (auto simp: injections_def sentry_keys_def injected_as_set)

lemma injections_distinct: "distinct_keys (injections e a)"
  by (simp add: injections_def injected_as_keys)

lemma map_of_rev_distinct: "distinct_keys m \<Longrightarrow> map_of (rev m) = map_of m"
  by (subst map_of_inject_set) (simp_all add: rev_map [symmetric])

text \<open>C22: when the augmenter rewrites a body, the new one encodes the same payload with only its
  \<open>data\<close> changed, and that with only the three sentry entries set, each to what the sentry
  answered; every other entry, known or not, is the one that came in.\<close>

theorem augmentation_only_adds:
  assumes "fst (augment_rpc e body a) = Rewritten out"
  shows "\<exists>payload data_raw kvs data'.
    unmarshal_raw_map body = Some (Some payload) \<and> map_of payload ''data'' = Some data_raw \<and>
    unmarshal_raw_map data_raw = Some (Some kvs) \<and>
    out = marshal_raw_map (Some (AList.update ''data'' (marshal_raw_map (Some data')) payload)) \<and>
    (\<forall>k. map_of data' k = (case map_of (injections e a) k of Some v \<Rightarrow> Some v | None \<Rightarrow> map_of kvs k)) \<and>
    (\<forall>k. k \<notin> sentry_keys \<longrightarrow> map_of data' k = map_of kvs k)"
proof -
  obtain payload data_raw kvs where p: "unmarshal_raw_map body = Some payload"
      "map_of (gomap_items payload) ''data'' = Some data_raw" "unmarshal_raw_map data_raw = Some (Some kvs)"
      "out = marshal_raw_map (Some (AList.update ''data''
               (marshal_raw_map (Some (inject (injections e a) kvs))) (gomap_items payload)))"
    using assms by (auto simp: augment_rpc_def Let_def split: option.splits if_splits)
  obtain pl where pl: "payload = Some pl" using p(2) by (cases payload) (auto simp: gomap_items_def)
  have look: "map_of (inject (injections e a) kvs) k =
      (case map_of (injections e a) k of Some v \<Rightarrow> Some v | None \<Rightarrow> map_of kvs k)" for k
    by (simp add: inject_lookup map_of_rev_distinct injections_distinct)
  have "map_of (injections e a) k = None" if "k \<notin> sentry_keys" for k
    using that injections_keys by (cases "map_of (injections e a) k") (auto dest: map_of_SomeD)
  with look have "\<forall>k. k \<notin> sentry_keys \<longrightarrow> map_of (inject (injections e a) kvs) k = map_of kvs k" by simp
  with p look show ?thesis by (auto simp: pl gomap_items_def)
qed

definition demo_augment_env :: augment_env where
  \<open>demo_augment_env =
     \<lparr>ae_fetch_status = (\<lambda>_. FetchFailed), ae_fetch_net_info = (\<lambda>_. Fetched 200 ''{"result":7}''),
      ae_meta = demo_meta_env, ae_since = 0, ae_done = 0\<rparr>\<close>

definition demo_augmenter :: augmenter where
  "demo_augmenter = new_augmenter \<lparr>mc_config_path = [], mc_config_get_cmd = [], mc_check_interval = 0, mc_force_interval = 0\<rparr> None 0"

definition demo_rpc_body :: string where
  \<open>demo_rpc_body = ''{"data":{"net_info":1}}''\<close>

lemma demo_augmented:
  \<open>fst (augment_rpc demo_augment_env demo_rpc_body demo_augmenter) =
     Rewritten ''{"data":{"net_info":1,"sentry_net_info":7}}''\<close>
  by code_simp

theorem augmentation_only_adds_witness:
  \<open>\<exists>payload data_raw kvs data'.
    unmarshal_raw_map demo_rpc_body = Some (Some payload) \<and> map_of payload ''data'' = Some data_raw \<and>
    unmarshal_raw_map data_raw = Some (Some kvs) \<and>
    ''{"data":{"net_info":1,"sentry_net_info":7}}'' =
      marshal_raw_map (Some (AList.update ''data'' (marshal_raw_map (Some data')) payload)) \<and>
    (\<forall>k. k \<notin> sentry_keys \<longrightarrow> map_of data' k = map_of kvs k)\<close>
  using augmentation_only_adds [OF demo_augmented] by blast

end
