(* ===== verification/Beacon_Config.thy ===== *)
theory Beacon_Config
  imports Sn_Config
begin

text \<open>
  The beacon's configuration (\<open>internal/beacon/config/config.go\<close>): the structs, the defaults,
  \<open>Load\<close> with its validation and the Noise configuration of its listener. As for the
  sentinel, the file and the TOML codec are arguments.
\<close>

record bn_config =
  bc_server_url :: string
  bc_listen_addr :: string
  bc_keys_dir :: string
  bc_authorized_keys :: "string list"
  bc_handshake_timeout :: duration
  bc_rpc_url :: string
  bc_metadata :: metadata_config

definition default_bn_config :: bn_config where
  "default_bn_config =
     \<lparr>bc_server_url = ''<watchtower-url>'', bc_listen_addr = ''0.0.0.0:8080'',
      bc_keys_dir = ''<path-to-beacon-keys-dir>'', bc_authorized_keys = [],
      bc_handshake_timeout = 5 * second, bc_rpc_url = ''http://localhost:26657'',
      bc_metadata = \<lparr>mc_config_path = ''<path-to-gnoland-config>'', mc_config_get_cmd = [],
        mc_check_interval = 0, mc_force_interval = 0\<rparr>\<rparr>"

datatype bn_config_error = BnUrlRequired | BnUrlScheme string | BnListenAddrRequired | BnKeysDirRequired
  | BnRpcUrlRequired | BnBothMetadataSources | BnAuthorizedKey nat

fun bad_hex_key :: "nat \<Rightarrow> string list \<Rightarrow> nat option" where
  "bad_hex_key i [] = None"
| "bad_hex_key i (k # ks) = (if decode_public_key k = None then Some i else bad_hex_key (Suc i) ks)"

definition validate_bn :: "bn_config \<Rightarrow> bn_config_error option" where
  "validate_bn c =
     (if bc_server_url c = [] then Some BnUrlRequired
      else if \<not> is_placeholder (bc_server_url c) \<and> \<not> has_prefix (bc_server_url c) ''http://'' \<and>
              \<not> has_prefix (bc_server_url c) ''https://'' then Some (BnUrlScheme (bc_server_url c))
      else if bc_listen_addr c = [] then Some BnListenAddrRequired
      else if bc_keys_dir c = [] then Some BnKeysDirRequired
      else if bc_rpc_url c = [] then Some BnRpcUrlRequired
      else if mc_config_path (bc_metadata c) \<noteq> [] \<and> mc_config_get_cmd (bc_metadata c) \<noteq> []
        then Some BnBothMetadataSources
      else map_option BnAuthorizedKey (bad_hex_key 0 (bc_authorized_keys c)))"

datatype bn_load_error = BnReadFailed | BnUnmarshalFailed | BnInvalid bn_config_error

definition load_bn :: "(string \<Rightarrow> string option) \<Rightarrow> (string \<Rightarrow> bn_config option) \<Rightarrow> string \<Rightarrow> bn_load_error + bn_config" where
  "load_bn read_file toml_unmarshal path =
     (case read_file path of
        None \<Rightarrow> Inl BnReadFailed
      | Some data \<Rightarrow>
          (case toml_unmarshal data of
             None \<Rightarrow> Inl BnUnmarshalFailed
           | Some c \<Rightarrow> (case validate_bn c of Some err \<Rightarrow> Inl (BnInvalid err) | None \<Rightarrow> Inr c)))"

fun decode_keys :: "string list \<Rightarrow> string list option" where
  "decode_keys [] = Some []"
| "decode_keys (k # ks) =
     (case decode_public_key k of
        None \<Rightarrow> None
      | Some pub \<Rightarrow> (case decode_keys ks of None \<Rightarrow> None | Some pubs \<Rightarrow> Some (pub # pubs)))"

definition bn_noise_config :: "(string \<Rightarrow> key_dir) \<Rightarrow> bn_config \<Rightarrow> noise_config_error + noise_config" where
  "bn_noise_config dirs c =
     (case load_keypair (dirs (bc_keys_dir c)) of
        Inl err \<Rightarrow> Inl (KeypairError err)
      | Inr kp \<Rightarrow>
          (case decode_keys (bc_authorized_keys c) of
             None \<Rightarrow> Inl PublicKeyError
           | Some pubs \<Rightarrow> Inr \<lparr>nz_static = kp, nz_authorized_keys = pubs\<rparr>))"

section \<open>A loaded configuration listens\<close>

lemma decode_keys_ok:
  "bad_hex_key i ks = None \<Longrightarrow>
   \<exists>pubs. decode_keys ks = Some pubs \<and> list_all (\<lambda>k. length k = 32) pubs \<and>
     map Some pubs = map decode_public_key ks"
  by (induction i ks rule: bad_hex_key.induct) (auto split: if_splits dest: decode_public_key_length)

text \<open>A configuration the beacon's loader accepts can always be put to use: once the key pair
  loads there is a Noise configuration, with exactly the listed sentinel keys authorized,
  and the listener accepts it.\<close>

lemma loaded_config_listens:
  assumes "load_bn read_file toml path = Inr c" "load_keypair (dirs (bc_keys_dir c)) = Inr kp"
  shows "\<exists>cfg l. bn_noise_config dirs c = Inr cfg \<and> nz_static cfg = kp \<and>
    map Some (nz_authorized_keys cfg) = map decode_public_key (bc_authorized_keys c) \<and>
    new_listener cfg = (Inr l :: hs_error + nat listener)"
proof -
  have v: "validate_bn c = None" using assms(1) by (auto simp: load_bn_def split: option.splits)
  then have "bad_hex_key 0 (bc_authorized_keys c) = None" by (auto simp: validate_bn_def split: if_splits)
  then obtain pubs where p: "decode_keys (bc_authorized_keys c) = Some pubs" "list_all (\<lambda>k. length k = 32) pubs"
      "map Some pubs = map decode_public_key (bc_authorized_keys c)"
    using decode_keys_ok by blast
  have "validate_noise \<lparr>nz_static = kp, nz_authorized_keys = pubs\<rparr> = None"
    using load_keypair_lengths [OF assms(2)] p(2) by (simp add: validate_noise_def bad_key_None)
  with assms(2) p show ?thesis by (simp add: bn_noise_config_def new_listener_def)
qed

definition demo_bn_config :: bn_config where
  "demo_bn_config = default_bn_config\<lparr>bc_server_url := ''https://watchtower'', bc_keys_dir := ''/keys''\<rparr>"

end
