(* ===== verification/Beacon_Server.thy ===== *)
theory Beacon_Server
  imports Beacon_Augment Beacon_Config Auth
begin

text \<open>
  The beacon's HTTP handler (\<open>internal/beacon/server/server.go\<close>): a reverse proxy that hands
  the body to the augmenter and passes everything else through. The upstream's answer is an
  argument; a request to it is its method, path, query, headers and body, at the host of the
  configured URL. The Noise listener underneath is the one of the sessions theory;
  \<open>rq_path\<close> is the decoded path here.
\<close>

definition max_beacon_body_bytes :: nat where "max_beacon_body_bytes = 52428800"

record proxied =
  px_method :: string
  px_path :: string
  px_query :: string
  px_headers :: "(string \<times> string list) list"
  px_body :: string

definition hop_by_hop :: "string list" where
  "hop_by_hop =
     [''Connection'', ''Keep-Alive'', ''Proxy-Authenticate'', ''Proxy-Authorization'', ''Te'', ''Trailer'',
      ''Transfer-Encoding'', ''Upgrade'']"

definition add_header :: "string \<Rightarrow> (string \<times> string list) list \<Rightarrow> string \<Rightarrow> (string \<times> string list) list" where
  "add_header k h v = AList.update k ((case map_of h k of None \<Rightarrow> [] | Some vs \<Rightarrow> vs) @ [v]) h"

definition copy_header ::
  "(string \<times> string list) list \<Rightarrow> string \<times> string list \<Rightarrow> (string \<times> string list) list" where
  "copy_header dst kvs =
     (if fst kvs \<in> set hop_by_hop then dst else foldl (add_header (fst kvs)) dst (snd kvs))"

definition copy_headers ::
  "(string \<times> string list) list \<Rightarrow> (string \<times> string list) list \<Rightarrow> (string \<times> string list) list" where
  "copy_headers dst src = foldl copy_header dst src"

definition single_join :: "string \<Rightarrow> string \<Rightarrow> string" where
  "single_join a b =
     (if has_suffix a ''/'' \<and> has_prefix b ''/'' then a @ drop 1 b
      else if has_suffix a ''/'' \<or> has_prefix b ''/'' then a @ b
      else a @ ''/'' @ b)"

text \<open>\<open>safeTransform\<close>: a panic is recovered and leaves the body as it was.\<close>

definition safe_transform :: "augment_env \<Rightarrow> string \<Rightarrow> string \<Rightarrow> augmenter \<Rightarrow> string option \<times> augmenter" where
  "safe_transform e path body a =
     (case transform e path body a of
        (Rewritten out, a') \<Rightarrow> (Some out, a')
      | (_, a') \<Rightarrow> (None, a'))"

datatype handshake_log_level = LogDebug | LogWarn

fun caused_by_eof :: "hs_error \<Rightarrow> bool" where
  "caused_by_eof (HsRecv i err) = (err = Eof \<or> err = UnexpectedEof)"
| "caused_by_eof _ = False"

definition reject_log_level :: "hs_error \<Rightarrow> handshake_log_level" where
  "reject_log_level err = (if caused_by_eof err then LogDebug else LogWarn)"

record beacon =
  bn_upstream_path :: string
  bn_augmenter :: augmenter

definition upstream_request :: "beacon \<Rightarrow> http_request \<Rightarrow> string option \<Rightarrow> proxied" where
  "upstream_request b r out =
     \<lparr>px_method = rq_method r, px_path = single_join (bn_upstream_path b) (rq_path r),
      px_query = rq_query r, px_headers = copy_headers [] (rq_headers r),
      px_body = (case out of None \<Rightarrow> rq_body r | Some body \<Rightarrow> body)\<rparr>"

definition relay_response :: "http_response option \<Rightarrow> http_response" where
  "relay_response answer =
     (case answer of
        None \<Rightarrow> http_error ''upstream unreachable'' status_bad_gateway
      | Some resp \<Rightarrow>
          \<lparr>rs_status = rs_status resp, rs_headers = copy_headers [] (rs_headers resp), rs_body = rs_body resp\<rparr>)"

definition beacon_handle ::
  "augment_env \<Rightarrow> (proxied \<Rightarrow> http_response option) \<Rightarrow> http_request \<Rightarrow> beacon \<Rightarrow>
   http_response \<times> proxied option \<times> beacon" where
  "beacon_handle e upstream r b =
     (if max_beacon_body_bytes < length (rq_body r) then
        (http_error_with [(''Connection'', [''close''])] ''read body'' status_bad_request, None, b)
      else if rq_body_fails r then (http_error ''read body'' status_bad_request, None, b)
      else
        (let (out, a) = safe_transform e (rq_path r) (rq_body r) (bn_augmenter b);
             req = upstream_request b r out
         in (relay_response (upstream req), Some req, b\<lparr>bn_augmenter := a\<rparr>)))"

section \<open>A transparent pipe\<close>

lemma add_headers_lookup:
  "map_of (foldl (add_header k) h vs) k' =
     (if k' = k \<and> vs \<noteq> [] then Some ((case map_of h k of None \<Rightarrow> [] | Some us \<Rightarrow> us) @ vs) else map_of h k')"
  by (induction vs arbitrary: h) (auto simp: add_header_def update_conv' split: option.splits)

lemma copy_headers_other: "k \<notin> fst ` set src \<Longrightarrow> map_of (copy_headers dst src) k = map_of dst k"
  by (induction src arbitrary: dst) (auto simp: copy_headers_def copy_header_def add_headers_lookup)

lemma copy_headers_lookup:
  assumes "distinct_keys src" "map_of dst k = None"
  shows "map_of (copy_headers dst src) k =
    (if k \<in> set hop_by_hop then None
     else case map_of src k of None \<Rightarrow> None | Some vs \<Rightarrow> if vs = [] then None else Some vs)"
  using assms
proof (induction src arbitrary: dst)
  case (Cons kvs src)
  obtain h vs where kvs: "kvs = (h, vs)" by (cases kvs)
  have step: "copy_headers dst (kvs # src) = copy_headers (copy_header dst kvs) src"
    by (simp add: copy_headers_def)
  show ?case
  proof (cases "h = k")
    case True
    then have "k \<notin> fst ` set src" using Cons.prems(1) by (simp add: kvs)
    with Cons.prems(2) True show ?thesis
      unfolding step by (simp add: copy_headers_other kvs copy_header_def add_headers_lookup)
  next
    case False
    then have "map_of (copy_header dst kvs) k = None"
      using Cons.prems(2) by (simp add: kvs copy_header_def add_headers_lookup)
    with Cons False show ?thesis unfolding step by (simp add: kvs)
  qed
qed (simp add: copy_headers_def)

definition header_values :: "(string \<times> string list) list \<Rightarrow> string \<Rightarrow> string list" where
  "header_values h k = (case map_of h k of None \<Rightarrow> [] | Some vs \<Rightarrow> vs)"

lemma header_get_values: "header_get h k = (case header_values h k of [] \<Rightarrow> [] | v # vs \<Rightarrow> v)"
  by (simp add: header_get_def header_values_def split: option.split list.split)

lemma copied_header_values:
  assumes "distinct_keys src"
  shows "header_values (copy_headers [] src) k = (if k \<in> set hop_by_hop then [] else header_values src k)"
  using copy_headers_lookup [OF assms, of "[]" k] by (simp add: header_values_def split: option.split)

text \<open>A request whose body is read and not too large always goes upstream, with the same
  method, query and end-to-end headers, its bearer token among them, and with the original
  body or what the augmenter made of it (only on \<open>/rpc\<close>, never after a panic); the client gets
  the upstream's status and body, and 502 only when there is no upstream answer.\<close>

lemma forwarded_request:
  assumes "length (rq_body r) \<le> max_beacon_body_bytes" "\<not> rq_body_fails r" "distinct_keys (rq_headers r)"
  shows "\<exists>req b1. beacon_handle e upstream r b = (relay_response (upstream req), Some req, b1) \<and>
    px_method req = rq_method r \<and> px_query req = rq_query r \<and>
    px_path req = single_join (bn_upstream_path b) (rq_path r) \<and>
    (\<forall>k. header_values (px_headers req) k = (if k \<in> set hop_by_hop then [] else header_values (rq_headers r) k)) \<and>
    (px_body req = rq_body r \<or>
     rq_path r = ''/rpc'' \<and> fst (augment_rpc e (rq_body r) (bn_augmenter b)) = Rewritten (px_body req))"
proof -
  obtain out a where t: "safe_transform e (rq_path r) (rq_body r) (bn_augmenter b) = (out, a)"
    by (cases "safe_transform e (rq_path r) (rq_body r) (bn_augmenter b)")
  have body: "px_body (upstream_request b r out) = rq_body r \<or> rq_path r = ''/rpc'' \<and>
      fst (augment_rpc e (rq_body r) (bn_augmenter b)) = Rewritten (px_body (upstream_request b r out))"
    using t by (auto simp: upstream_request_def safe_transform_def transform_def
        split: augment_result.splits prod.splits if_splits)
  have "beacon_handle e upstream r b =
      (relay_response (upstream (upstream_request b r out)), Some (upstream_request b r out), b\<lparr>bn_augmenter := a\<rparr>)"
    using assms(1,2) by (simp add: beacon_handle_def t Let_def)
  moreover have "\<forall>k. header_values (px_headers (upstream_request b r out)) k =
      (if k \<in> set hop_by_hop then [] else header_values (rq_headers r) k)"
    using copied_header_values [OF assms(3)] by (simp add: upstream_request_def)
  ultimately show ?thesis using body
    by (intro exI [of _ "upstream_request b r out"]) (simp add: upstream_request_def)
qed

definition demo_beacon :: beacon where
  "demo_beacon = \<lparr>bn_upstream_path = ''/'', bn_augmenter = demo_augmenter\<rparr>"

definition demo_beacon_request :: http_request where
  "demo_beacon_request =
     \<lparr>rq_method = ''POST'', rq_path = ''/rpc'', rq_query = [],
      rq_headers = [(''Authorization'', [''Bearer t0'']), (''Connection'', [''keep-alive''])],
      rq_remote_addr = ''10.0.0.1:1'', rq_body = demo_rpc_body, rq_body_fails = False\<rparr>"

end
