(* ===== verification/Beacon_App.thy ===== *)
theory Beacon_App
  imports Beacon_Server Handlers_Props
begin

text \<open>
  The beacon as a whole (\<open>internal/beacon/app/run.go\<close> and the constructor and multiplexer of
  \<open>internal/beacon/server/server.go\<close>): what has to succeed before it serves, and what a
  sentinel's request sent through it does to the watchtower. Parsing a URL, binding the
  address and the end of the process are arguments or left out.
\<close>

section \<open>Starting\<close>

record parsed_url =
  pu_scheme :: string
  pu_path :: string

datatype bn_server_error = UpstreamRequired | UpstreamUnparsable | UpstreamScheme string

definition new_beacon :: "(string \<Rightarrow> parsed_url option) \<Rightarrow> string \<Rightarrow> augmenter \<Rightarrow> bn_server_error + beacon" where
  "new_beacon url_parse upstream_url a =
     (if upstream_url = [] then Inl UpstreamRequired
      else
        (case url_parse upstream_url of
           None \<Rightarrow> Inl UpstreamUnparsable
         | Some u \<Rightarrow>
             if pu_scheme u \<noteq> ''http'' \<and> pu_scheme u \<noteq> ''https'' then Inl (UpstreamScheme (pu_scheme u))
             else Inr \<lparr>bn_upstream_path = pu_path u, bn_augmenter = a\<rparr>))"

datatype bn_start_error = BnKeysError noise_config_error | BnServerError bn_server_error | BnListenError hs_error

definition start_beacon ::
  "(string \<Rightarrow> key_dir) \<Rightarrow> (string \<Rightarrow> parsed_url option) \<Rightarrow> gtime \<Rightarrow> bn_config \<Rightarrow> bn_start_error + beacon \<times> 'c listener" where
  "start_beacon dirs url_parse now c =
     (case bn_noise_config dirs c of
        Inl err \<Rightarrow> Inl (BnKeysError err)
      | Inr nz \<Rightarrow>
          (case new_beacon url_parse (bc_server_url c) (new_augmenter (bc_metadata c) None now) of
             Inl err \<Rightarrow> Inl (BnServerError err)
           | Inr b \<Rightarrow> (case new_listener nz of Inl err \<Rightarrow> Inl (BnListenError err) | Inr l \<Rightarrow> Inr (b, l))))"

text \<open>The multiplexer redirects a path that is not clean before the handler sees it.\<close>

definition beacon_serve ::
  "augment_env \<Rightarrow> (proxied \<Rightarrow> http_response option) \<Rightarrow> http_request \<Rightarrow> beacon \<Rightarrow>
   http_response \<times> proxied option \<times> beacon" where
  "beacon_serve e upstream r b =
     (if must_redirect r then (redirect_response r, None, b) else beacon_handle e upstream r b)"

section \<open>Through the beacon to the watchtower\<close>

text \<open>
  What stands in front of the watchtower, if anything: a proxy that answers a request itself or
  hands it on, possibly under another path and with other headers (the deployment's Caddy
  strips \<open>/watchtower\<close>, \<open>deploy/caddy/Caddyfile\<close>). It is an argument; \<open>Inr\<close> alone is no proxy.
  What the model relies on is the documented behaviour of a proxy: its decision and the headers
  it hands on depend on the end-to-end headers only, where no \<open>Connection\<close> header names others.
\<close>

type_synonym front = "http_request \<Rightarrow> http_response + http_request"

definition proxies :: "front \<Rightarrow> bool" where
  "proxies front \<longleftrightarrow>
     (\<forall>r h. header_values (rq_headers r) ''Connection'' = [] \<longrightarrow>
        (\<forall>k. header_values h k = (if k \<in> set hop_by_hop then [] else header_values (rq_headers r) k)) \<longrightarrow>
        (case front r of
           Inl answer \<Rightarrow> front (r\<lparr>rq_headers := h\<rparr>) = Inl answer
         | Inr r1 \<Rightarrow> \<exists>h1. front (r\<lparr>rq_headers := h\<rparr>) = Inr (r1\<lparr>rq_headers := h1\<rparr>) \<and>
             (\<forall>k. k \<notin> set hop_by_hop \<longrightarrow> header_values h1 k = header_values (rq_headers r1) k)))"

definition through_front ::
  "front \<Rightarrow> ('l, 'v, 'x, 'm, 'q) env \<Rightarrow> http_request \<Rightarrow> 'l server \<Rightarrow> http_response \<times> 'l server" where
  "through_front front e r s =
     (case front r of
        Inl answer \<Rightarrow> (answer, s)
      | Inr r1 \<Rightarrow> (sr_response (serve e r1 s), sr_state (serve e r1 s)))"

text \<open>The request that leaves the beacon, from the beacon's address, and the watchtower's state
  afterwards.\<close>

definition received :: "string \<Rightarrow> proxied \<Rightarrow> http_request" where
  "received addr px =
     \<lparr>rq_method = px_method px, rq_path = px_path px, rq_query = px_query px, rq_headers = px_headers px,
      rq_remote_addr = addr, rq_body = px_body px, rq_body_fails = False\<rparr>"

definition relay_to ::
  "front \<Rightarrow> ('l, 'v, 'x, 'm, 'q) env \<Rightarrow> string \<Rightarrow> augment_env \<Rightarrow> http_request \<Rightarrow> beacon \<Rightarrow> 'l server \<Rightarrow>
   http_response \<times> 'l server" where
  "relay_to front e addr ae r b s =
     (case beacon_serve ae (\<lambda>px. Some (fst (through_front front e (received addr px) s))) r b of
        (resp, sent, _) \<Rightarrow>
          (resp, case sent of None \<Rightarrow> s | Some px \<Rightarrow> snd (through_front front e (received addr px) s)))"

text \<open>The watchtower reads no headers but \<open>Authorization\<close> and \<open>X-Forwarded-For\<close>.\<close>

lemma serve_headers:
  assumes "header_get h ''Authorization'' = header_get (rq_headers r) ''Authorization''"
    and "header_get h ''X-Forwarded-For'' = header_get (rq_headers r) ''X-Forwarded-For''"
  shows "serve e (r\<lparr>rq_headers := h\<rparr>) s = serve e r s"
proof -
  let ?r = "r\<lparr>rq_headers := h\<rparr>"
  have "remote_ip ?r = remote_ip r"
    using assms(2) by (simp add: remote_ip_def Let_def split: option.split)
  moreover have "bearer_token ?r = bearer_token r" using assms(1) by (simp add: bearer_token_def)
  ultimately have auth: "auth_middleware (ev_clock e) ?r a = auth_middleware (ev_clock e) r a" for a
    by (simp add: auth_middleware_def)
  have "handle_payload e perm v c ?r t = handle_payload e perm v c r t" for perm v c t
    by (simp add: handle_payload_def)
  moreover have "inner_route ?r = inner_route r" by (simp add: inner_route_def is_get_def)
  ultimately have "inner_mux e v c ?r = inner_mux e v c r" for v c
    by (intro ext) (simp add: inner_mux_def split: inner_route.split)
  with auth have "protected_chain e ?r s = protected_chain e r s"
    by (simp add: protected_chain_def cong: auth_verdict.case_cong option.case_cong)
  moreover have "must_redirect ?r = must_redirect r" "redirect_response ?r = redirect_response r"
    "outer_route ?r = outer_route r"
    by (simp_all add: must_redirect_def redirect_response_def outer_route_def is_get_def)
  ultimately show ?thesis by (simp add: serve_def split: route.split)
qed

lemma single_join_root: "p = [] \<or> p = ''/'' \<Longrightarrow> has_prefix path ''/'' \<Longrightarrow> single_join p path = path"
  by (cases path) (auto simp: single_join_def has_prefix_def has_suffix_def)

lemma through_front_headers:
  assumes "proxies front" "header_values (rq_headers r) ''Connection'' = []"
    and h: "\<And>k. header_values h k = (if k \<in> set hop_by_hop then [] else header_values (rq_headers r) k)"
  shows "through_front front e (r\<lparr>rq_headers := h\<rparr>) s = through_front front e r s"
proof (cases "front r")
  case (Inl a)
  with assms(1) [unfolded proxies_def, rule_format, OF assms(2) h] show ?thesis
    by (simp add: through_front_def)
next
  case (Inr r1)
  from assms(1) [unfolded proxies_def, rule_format, OF assms(2) h]
  obtain h1 where "front (r\<lparr>rq_headers := h\<rparr>) = Inr (r1\<lparr>rq_headers := h1\<rparr>)"
      "\<And>k. k \<notin> set hop_by_hop \<Longrightarrow> header_values h1 k = header_values (rq_headers r1) k"
    by (auto simp: Inr)
  moreover from this(2) have "header_get h1 ''Authorization'' = header_get (rq_headers r1) ''Authorization''"
      "header_get h1 ''X-Forwarded-For'' = header_get (rq_headers r1) ''X-Forwarded-For''"
    by (simp_all add: header_get_values hop_by_hop_def)
  ultimately show ?thesis by (simp add: through_front_def Inr serve_headers)
qed

text \<open>C20: what becomes of a request (without a \<open>Connection\<close> header, which a sentinel does not send)
  that is sent through the beacon while its upstream answers, whatever the path of the upstream
  URL and whatever proxy stands in front of the watchtower: a request whose path is not clean gets the beacon's
  redirect, and one whose body is larger than 50 MiB or cannot be read gets its 400, and
  neither reaches the watchtower; any other does to the watchtower what the same request
  does when it is sent to the upstream URL directly from the beacon's address: the same
  change of state and the same status and body in answer. Only the body of a request to
  \<open>/rpc\<close> may differ, and then it is the one the augmenter wrote.\<close>

theorem through_beacon_as_direct:
  assumes front: "proxies front" and "distinct_keys (rq_headers r)" "header_values (rq_headers r) ''Connection'' = []"
  shows "let (resp, s') = relay_to front e addr ae r b s
    in if must_redirect r then resp = redirect_response r \<and> s' = s
       else if max_beacon_body_bytes < length (rq_body r) \<or> rq_body_fails r
       then rs_status resp = status_bad_request \<and> s' = s
       else \<exists>body.
         (body = rq_body r \<or> rq_path r = ''/rpc'' \<and> fst (augment_rpc ae (rq_body r) (bn_augmenter b)) = Rewritten body) \<and>
         (let direct = through_front front e
                (r\<lparr>rq_path := single_join (bn_upstream_path b) (rq_path r), rq_remote_addr := addr, rq_body := body\<rparr>) s
          in s' = snd direct \<and> rs_status resp = rs_status (fst direct) \<and> rs_body resp = rs_body (fst direct))"
proof -
  consider "must_redirect r" | "\<not> must_redirect r" "max_beacon_body_bytes < length (rq_body r) \<or> rq_body_fails r"
    | "\<not> must_redirect r" "length (rq_body r) \<le> max_beacon_body_bytes" "\<not> rq_body_fails r" by linarith
  then show ?thesis
  proof cases
    case 3
    let ?up = "\<lambda>px. Some (fst (through_front front e (received addr px) s))"
    obtain req b1 where h: "beacon_handle ae ?up r b = (relay_response (?up req), Some req, b1)"
        "px_method req = rq_method r" "px_query req = rq_query r"
        "px_path req = single_join (bn_upstream_path b) (rq_path r)"
        "\<And>k. header_values (px_headers req) k = (if k \<in> set hop_by_hop then [] else header_values (rq_headers r) k)"
        "px_body req = rq_body r \<or>
         rq_path r = ''/rpc'' \<and> fst (augment_rpc ae (rq_body r) (bn_augmenter b)) = Rewritten (px_body req)"
      using forwarded_request [OF 3(2,3) assms(2), of ae ?up b] by auto
    let ?direct = "r\<lparr>rq_path := single_join (bn_upstream_path b) (rq_path r), rq_remote_addr := addr, rq_body := px_body req\<rparr>"
    have "received addr req = ?direct\<lparr>rq_headers := px_headers req\<rparr>"
      using h 3(3) by (simp add: received_def)
    then have "through_front front e (received addr req) s = through_front front e ?direct s"
      by (simp only:) (rule through_front_headers [OF front], simp_all add: assms(3) h(5))
    then have r: "relay_to front e addr ae r b s =
        (relay_response (Some (fst (through_front front e ?direct s))), snd (through_front front e ?direct s))"
      using h(1) 3(1) by (simp add: relay_to_def beacon_serve_def)
    have "\<not> (max_beacon_body_bytes < length (rq_body r) \<or> rq_body_fails r)" using 3 by simp
    then show ?thesis
      unfolding r Let_def prod.case if_not_P [OF 3(1)]
      by (subst if_not_P, assumption) (intro exI [of _ "px_body req"] conjI h(6), simp_all add: relay_response_def)
  qed (auto simp: relay_to_def beacon_serve_def beacon_handle_def)
qed

text \<open>A front like the deployment's: what is under \<open>/watchtower/\<close> goes to the watchtower with that
  prefix stripped and the peer's address added, everything else elsewhere.\<close>

definition strip_front :: front where
  "strip_front r =
     (case cut_prefix (rq_path r) ''/watchtower'' of
        None \<Rightarrow> Inl (http_error ''grafana'' status_ok)
      | Some rest \<Rightarrow>
          if has_prefix rest ''/''
          then Inr (r\<lparr>rq_path := rest, rq_headers := AList.update ''X-Forwarded-For'' [rq_remote_addr r] (rq_headers r)\<rparr>)
          else Inl (http_error ''grafana'' status_ok))"

lemma header_values_update: "header_values (AList.update k vs h) k' = (if k' = k then vs else header_values h k')"
  by (simp add: header_values_def update_conv')

lemma strip_front_proxies: "proxies strip_front"
  by (auto simp: proxies_def strip_front_def header_values_update intro!: exI [of _ "AList.update _ _ _"] split: option.split)

lemma no_front_proxies: "proxies Inr"
  by (auto simp: proxies_def)

text \<open>A payload of the sample validator, sent through a beacon whose upstream is behind that front,
  and an overlong one.\<close>

theorem through_beacon_as_direct_witness:
  "let r = demo_post\<lparr>rq_path := ''/logs''\<rparr>; b = demo_beacon\<lparr>bn_upstream_path := ''/watchtower''\<rparr>;
       (resp, s') = relay_to strip_front demo_env ''10.9.9.9:1'' demo_augment_env r b demo_server;
       direct = through_front strip_front demo_env (r\<lparr>rq_path := ''/watchtower/logs'', rq_remote_addr := ''10.9.9.9:1''\<rparr>) demo_server
   in s' = snd direct \<and> rs_status resp = rs_status (fst direct)"
proof -
  let ?r = "demo_post\<lparr>rq_path := ''/logs''\<rparr>" and ?b = "demo_beacon\<lparr>bn_upstream_path := ''/watchtower''\<rparr>"
  have d: "distinct_keys (rq_headers ?r)" "header_values (rq_headers ?r) ''Connection'' = []"
    by (simp_all add: demo_post_def demo_request_def header_values_def)
  have "\<not> must_redirect ?r" by code_simp
  moreover have "length (rq_body ?r) \<le> max_beacon_body_bytes" "\<not> rq_body_fails ?r"
    by (simp_all add: demo_post_def demo_request_def sample_rpc_body_def max_beacon_body_bytes_def)
  moreover have "single_join (bn_upstream_path ?b) (rq_path ?r) = ''/watchtower/logs''"
    by (simp add: single_join_def has_suffix_def has_prefix_def)
  ultimately show ?thesis
    using through_beacon_as_direct [OF strip_front_proxies d, of demo_env "''10.9.9.9:1''" demo_augment_env ?b demo_server]
    by (simp add: Let_def case_prod_unfold not_le [symmetric])
qed

end
