(* ===== verification/Go_Flag.thy ===== *)
theory Go_Flag
  imports Prelude
begin

text \<open>
  What the commands use of Go's \<open>flag\<close> package: a flag set of string and Boolean flags whose
  errors end the process (\<open>flag.ExitOnError\<close>: code 0 after \<open>-h\<close> or \<open>-help\<close>, code 2 otherwise).
\<close>

datatype flag_kind = StringFlag | BoolFlag

type_synonym flag_values = "(string \<times> string) list"

definition parse_bool :: "string \<Rightarrow> bool option" where
  "parse_bool s =
     (if s \<in> {''1'', ''t'', ''T'', ''true'', ''TRUE'', ''True''} then Some True
      else if s \<in> {''0'', ''f'', ''F'', ''false'', ''FALSE'', ''False''} then Some False
      else None)"

text \<open>The name of a flag argument and the value after the first \<open>=\<close> that is not its first character.\<close>

definition split_flag :: "string \<Rightarrow> string \<times> string option" where
  "split_flag name =
     (let n = hd name # takeWhile (\<lambda>c. c \<noteq> CHR ''='') (tl name)
      in (n, if length n < length name then Some (drop (Suc (length n)) name) else None))"

definition flag_like :: "string \<Rightarrow> bool" where
  "flag_like s \<longleftrightarrow> 2 \<le> length s \<and> hd s = CHR ''-''"

definition flag_name :: "string \<Rightarrow> string" where
  "flag_name s = (if s ! 1 = CHR ''-'' then drop 2 s else drop 1 s)"

definition bad_flag_name :: "string \<Rightarrow> bool" where
  "bad_flag_name name \<longleftrightarrow> name = [] \<or> hd name = CHR ''-'' \<or> hd name = CHR ''=''"

definition help_exit :: "string \<Rightarrow> int" where
  "help_exit name = (if name = ''help'' \<or> name = ''h'' then 0 else 2)"

function parse_flags ::
  "(string \<times> flag_kind) list \<Rightarrow> flag_values \<Rightarrow> string list \<Rightarrow> int + flag_values \<times> string list" where
  "parse_flags formal vals args =
     (case args of
        [] \<Rightarrow> Inr (vals, [])
      | s # rest \<Rightarrow>
          if \<not> flag_like s then Inr (vals, args)
          else if s = ''--'' then Inr (vals, rest)
          else if bad_flag_name (flag_name s) then Inl 2
          else
            (let name = fst (split_flag (flag_name s)); value = snd (split_flag (flag_name s))
             in case map_of formal name of
                  None \<Rightarrow> Inl (help_exit name)
                | Some BoolFlag \<Rightarrow>
                    (case parse_bool (case value of None \<Rightarrow> ''true'' | Some v \<Rightarrow> v) of
                       None \<Rightarrow> Inl 2
                     | Some b \<Rightarrow>
                         parse_flags formal (AList.update name (if b then ''true'' else ''false'') vals) rest)
                | Some StringFlag \<Rightarrow>
                    (case value of
                       Some v \<Rightarrow> parse_flags formal (AList.update name v vals) rest
                     | None \<Rightarrow>
                         (case rest of
                            [] \<Rightarrow> Inl 2
                          | v # rest' \<Rightarrow> parse_flags formal (AList.update name v vals) rest'))))"
  by pat_completeness auto

termination by (relation "measure (\<lambda>(_, _, args). length args)") auto

declare parse_flags.simps [simp del]

definition flag_value :: "flag_values \<Rightarrow> string \<Rightarrow> string" where
  "flag_value vals name = (case map_of vals name of None \<Rightarrow> [] | Some v \<Rightarrow> v)"

section \<open>Properties\<close>

text \<open>What is not a flag ends the parsing and is left alone.\<close>

lemma parse_flags_positional: "\<not> flag_like s \<Longrightarrow> parse_flags formal vals (s # rest) = Inr (vals, s # rest)"
  by (simp add: parse_flags.simps)

text \<open>A flag \<open>--name=value\<close> sets its value.\<close>

lemma parse_flags_set:
  assumes "map_of formal name = Some StringFlag" "name \<noteq> []" "CHR ''='' \<notin> set name" "hd name \<noteq> CHR ''-''"
  shows "parse_flags formal vals ((''--'' @ name @ ''='' @ v) # rest) = parse_flags formal (AList.update name v vals) rest"
proof -
  obtain c cs where n: "name = c # cs" using assms(2) by (cases name) auto
  have tw: "takeWhile (\<lambda>x. x \<noteq> CHR ''='') (cs @ CHR ''='' # v) = cs"
    by (subst takeWhile_append2) (use assms(3) n in auto)
  have "split_flag (name @ ''='' @ v) = (name, Some v)" by (simp add: split_flag_def n tw)
  moreover have "\<not> bad_flag_name (name @ ''='' @ v)" using assms(3,4) by (auto simp: bad_flag_name_def n)
  ultimately show ?thesis
    using assms(1,2) by (subst parse_flags.simps) (simp add: flag_like_def flag_name_def)
qed

text \<open>A parse that fails ends the process with 0 or 2.\<close>

lemma parse_flags_exit: "parse_flags formal vals args = Inl code \<Longrightarrow> code = 0 \<or> code = 2"
proof (induction "length args" arbitrary: vals args rule: less_induct)
  case less
  have IH: "parse_flags formal vals' args' = Inl code \<Longrightarrow> length args' < length args \<Longrightarrow> code \<noteq> 2 \<Longrightarrow> code = 0"
    for vals' args'
    using less.hyps by blast
  from less.prems show ?case
    by (subst (asm) parse_flags.simps)
       (auto simp: Let_def help_exit_def split: list.split_asm if_split_asm option.split_asm flag_kind.split_asm
         dest: IH)
qed

end
