(* ===== verification/Build_Version.thy ===== *)
theory Build_Version
  imports Prelude
begin

text \<open>
  The build version (\<open>pkg/version/version.go\<close>). The values the release pipeline injects, the
  Go version and the module's build information are arguments.
\<close>

record build_info =
  bi_main_version :: string
  bi_settings :: "(string \<times> string) list"

record version_info =
  vi_version :: string
  vi_commit :: string
  vi_built :: string
  vi_go_ver :: string

definition apply_setting :: "version_info \<Rightarrow> string \<times> string \<Rightarrow> version_info" where
  "apply_setting info kv =
     (if fst kv = ''vcs.revision'' then (if vi_commit info = [] then info\<lparr>vi_commit := snd kv\<rparr> else info)
      else if fst kv = ''vcs.time'' then (if vi_built info = [] then info\<lparr>vi_built := snd kv\<rparr> else info)
      else info)"

definition resolve_version :: "string \<Rightarrow> string \<Rightarrow> string \<Rightarrow> string \<Rightarrow> build_info option \<Rightarrow> version_info" where
  "resolve_version version commit built go_ver read_build_info =
     (let info = \<lparr>vi_version = version, vi_commit = commit, vi_built = built, vi_go_ver = go_ver\<rparr>
      in case read_build_info of
           None \<Rightarrow> if vi_version info = [] then info\<lparr>vi_version := ''dev''\<rparr> else info
         | Some bi \<Rightarrow>
             (let info1 =
                (if vi_version info = [] then
                   info\<lparr>vi_version :=
                     (if bi_main_version bi \<noteq> [] \<and> bi_main_version bi \<noteq> ''(devel)'' then bi_main_version bi
                      else ''dev'')\<rparr>
                 else info)
              in foldl apply_setting info1 (bi_settings bi)))"

definition short_version :: "version_info \<Rightarrow> string" where
  "short_version i = vi_version i"

definition nl :: string where "nl = [CHR 0x0A]"

definition long_version :: "version_info \<Rightarrow> string" where
  "long_version i =
     ''  version:  '' @ vi_version i @ nl @
     (if vi_commit i \<noteq> [] then ''  commit:   '' @ vi_commit i @ nl else []) @
     (if vi_built i \<noteq> [] then ''  built:    '' @ vi_built i @ nl else []) @
     ''  go:       '' @ vi_go_ver i @ nl"

section \<open>What is resolved\<close>

lemma apply_settings_keep:
  "vi_version (foldl apply_setting info kvs) = vi_version info"
  "vi_go_ver (foldl apply_setting info kvs) = vi_go_ver info"
  "vi_commit info \<noteq> [] \<Longrightarrow> vi_commit (foldl apply_setting info kvs) = vi_commit info"
  "vi_built info \<noteq> [] \<Longrightarrow> vi_built (foldl apply_setting info kvs) = vi_built info"
  by (induction kvs arbitrary: info) (auto simp: apply_setting_def)

text \<open>A version is always reported, and an injected value always wins over the module's own.\<close>

lemma resolved_version:
  assumes "i = resolve_version version commit built go_ver bi"
  shows "vi_version i \<noteq> []" "version \<noteq> [] \<Longrightarrow> vi_version i = version"
    "commit \<noteq> [] \<Longrightarrow> vi_commit i = commit" "built \<noteq> [] \<Longrightarrow> vi_built i = built" "vi_go_ver i = go_ver"
  using assms by (auto simp: resolve_version_def Let_def apply_settings_keep split: option.splits)

text \<open>Without injected values the first revision and time of the settings are reported.\<close>

lemma resolved_commit:
  "vi_commit (foldl apply_setting info kvs) =
     (if vi_commit info \<noteq> [] then vi_commit info
      else case filter (\<lambda>v. v \<noteq> []) (map snd (filter (\<lambda>kv. fst kv = ''vcs.revision'') kvs)) of
             [] \<Rightarrow> [] | v # _ \<Rightarrow> v)"
  by (induction kvs arbitrary: info) (auto simp: apply_setting_def)

end
