(* ===== verification/Beacon_Doctor.thy ===== *)
theory Beacon_Doctor
  imports Sn_Doctor Beacon_Config
begin

text \<open>
  The beacon's doctor (\<open>internal/beacon/doctor\<close>): five checks, the report lines and the exit
  code. The statuses and the shape of a result are those of the sentinel's doctor, without
  the grey status; what the checks probe and the messages of the libraries are arguments.
\<close>

section \<open>Checks\<close>

record bn_doctor_env =
  bd_dirs :: "string \<Rightarrow> key_dir"
  bd_key_error :: "key_error \<Rightarrow> string"
  bd_request_error :: "string \<Rightarrow> string option"
  bd_get :: "string \<Rightarrow> string + int"
  bd_meta :: meta_env
  bd_open_error :: "string \<Rightarrow> string option"
  bd_cmd_error :: "string \<Rightarrow> string"

definition check_watchtower :: "bn_doctor_env \<Rightarrow> string \<Rightarrow> check_result" where
  "check_watchtower e server_url =
     (if is_placeholder server_url then mk_result ''Watchtower'' status_orange ''server.url not configured''
      else
        (case bd_request_error e (server_url @ ''/health'') of
           Some err \<Rightarrow> mk_result ''Watchtower'' status_red (''build request: '' @ err)
         | None \<Rightarrow>
             (case bd_get e (server_url @ ''/health'') of
                Inl err \<Rightarrow> mk_result ''Watchtower'' status_red (''unreachable: '' @ err)
              | Inr status \<Rightarrow>
                  if status \<noteq> status_ok then
                    mk_result ''Watchtower'' status_red (''/health returned HTTP '' @ format_int status)
                  else mk_result ''Watchtower'' status_green server_url)))"

definition check_keypair :: "bn_doctor_env \<Rightarrow> bn_config \<Rightarrow> check_result" where
  "check_keypair e c =
     (if is_placeholder (bc_keys_dir c) then
        mk_result ''Beacon keypair'' status_orange ''beacon.keys_dir not configured''
      else
        (case load_keypair (bd_dirs e (bc_keys_dir c)) of
           Inl err \<Rightarrow> mk_result ''Beacon keypair'' status_red (bd_key_error e err)
         | Inr _ \<Rightarrow> mk_result ''Beacon keypair'' status_green (bc_keys_dir c)))"

definition check_authorized_keys :: "bn_config \<Rightarrow> check_result" where
  "check_authorized_keys c =
     (if bc_authorized_keys c = [] then
        mk_result ''Authorized sentinel keys'' status_orange ''none configured (any sentinel may connect)''
      else
        mk_result ''Authorized sentinel keys'' status_green
          (format_nat (length (bc_authorized_keys c)) @ '' key(s) configured''))"

definition check_rpc :: "bn_doctor_env \<Rightarrow> string \<Rightarrow> check_result" where
  "check_rpc e rpc_url =
     (if rpc_url = [] then mk_result ''RPC'' status_red ''rpc.rpc_url not set''
      else
        (case bd_request_error e (rpc_url @ ''/status'') of
           Some err \<Rightarrow> mk_result ''RPC'' status_red (''build request: '' @ err)
         | None \<Rightarrow>
             (case bd_get e (rpc_url @ ''/status'') of
                Inl err \<Rightarrow> mk_result ''RPC'' status_red (''unreachable: '' @ err)
              | Inr status \<Rightarrow>
                  if status \<noteq> status_ok then
                    mk_result ''RPC'' status_red (''/status returned HTTP '' @ format_int status)
                  else mk_result ''RPC'' status_green rpc_url)))"

definition bn_check_metadata_config :: "bn_doctor_env \<Rightarrow> metadata_config \<Rightarrow> check_result" where
  "bn_check_metadata_config e cfg =
     (if mc_config_path cfg = [] \<and> mc_config_get_cmd cfg = [] then
        mk_result ''Metadata config'' status_orange ''not configured (augmentation disabled)''
      else if mc_config_path cfg \<noteq> [] then
        (if is_placeholder (mc_config_path cfg) then
           mk_result ''Metadata config'' status_orange ''config_path not configured''
         else
           (case bd_open_error e (mc_config_path cfg) of
              Some err \<Rightarrow> mk_result ''Metadata config'' status_red err
            | None \<Rightarrow>
                mk_result ''Metadata config'' status_green
                  (format_nat (keys_found (bd_meta e) (mc_config_path cfg)) @ ''/'' @
                   format_nat (length config_keys) @ '' keys found'')))
      else
        (let cmd = replace_all ''%s'' (hd config_keys) (mc_config_get_cmd cfg)
         in case run_cmd (bd_meta e) cmd of
              None \<Rightarrow> mk_result ''Metadata config'' status_red (bd_cmd_error e cmd)
            | Some _ \<Rightarrow> mk_result ''Metadata config'' status_green ''cmd accessible''))"

section \<open>The run\<close>

definition bn_format_result :: "bool \<Rightarrow> check_result \<Rightarrow> string" where
  "bn_format_result colors r =
     (if ck_status r = status_green then ok_line colors (ck_name r) (ck_detail r)
      else if ck_status r = status_red then fail_line colors (ck_name r) (ck_detail r)
      else if ck_status r = status_orange then off_line colors (ck_name r) (ck_detail r)
      else fail_line colors (ck_name r) (ck_detail r))"

definition bn_doctor_results :: "bn_doctor_env \<Rightarrow> bn_config \<Rightarrow> check_result list" where
  "bn_doctor_results e c =
     [check_watchtower e (bc_server_url c), check_keypair e c, check_authorized_keys c,
      check_rpc e (bc_rpc_url c), bn_check_metadata_config e (bc_metadata c)]"

definition bn_emit :: "bool \<Rightarrow> string list \<times> bool \<Rightarrow> check_result \<Rightarrow> string list \<times> bool" where
  "bn_emit colors st r = (fst st @ [bn_format_result colors r], snd st \<or> ck_status r = status_red)"

definition run_bn_doctor :: "bn_doctor_env \<Rightarrow> bn_config \<Rightarrow> string \<Rightarrow> bool \<Rightarrow> string list \<times> int" where
  "run_bn_doctor e c config_path colors =
     (let (out, has_red) =
        foldl (bn_emit colors) ([''Validating beacon config: '' @ config_path], False) (bn_doctor_results e c)
      in (out @ [[]], if has_red then 1 else 0))"

section \<open>What a clean report means\<close>

lemma bn_emit_results:
  "foldl (bn_emit colors) (out, has_red) rs =
     (out @ map (bn_format_result colors) rs, has_red \<or> (\<exists>r \<in> set rs. ck_status r = status_red))"
  by (induction rs arbitrary: out has_red) (auto simp: bn_emit_def)

lemma bn_exit_code:
  "snd (run_bn_doctor e c path colors) = (if \<exists>r \<in> set (bn_doctor_results e c). ck_status r = status_red then 1 else 0)"
  by (simp add: run_bn_doctor_def bn_emit_results)

lemma red_unless:
  "ck_status (check_watchtower e url) = status_red \<longleftrightarrow>
     \<not> is_placeholder url \<and> (bd_request_error e (url @ ''/health'') \<noteq> None \<or> bd_get e (url @ ''/health'') \<noteq> Inr status_ok)"
  "ck_status (check_keypair e c) = status_red \<longleftrightarrow>
     \<not> is_placeholder (bc_keys_dir c) \<and> isl (load_keypair (bd_dirs e (bc_keys_dir c)))"
  "ck_status (check_rpc e rpc) = status_red \<longleftrightarrow>
     rpc = [] \<or> bd_request_error e (rpc @ ''/status'') \<noteq> None \<or> bd_get e (rpc @ ''/status'') \<noteq> Inr status_ok"
  by (auto simp: check_watchtower_def check_keypair_def check_rpc_def doctor_statuses split: option.splits sum.splits)

text \<open>C38: with a configuration the loader accepts and no placeholder left in its URL and its key
  directory, an exit code of 0 means that the beacon can start: the key pair loads, the Noise
  configuration authorizes exactly the listed keys, the listener accepts it, and both the
  watchtower and the node's RPC answered 200.\<close>

theorem clean_report_means_ready:
  assumes loaded: "load_bn read_file toml path = Inr c"
    and configured: "\<not> is_placeholder (bc_server_url c)" "\<not> is_placeholder (bc_keys_dir c)"
    and clean: "snd (run_bn_doctor e c path colors) = 0"
  shows "\<exists>cfg l. bn_noise_config (bd_dirs e) c = Inr cfg \<and>
    map Some (nz_authorized_keys cfg) = map decode_public_key (bc_authorized_keys c) \<and>
    new_listener cfg = (Inr l :: hs_error + nat listener) \<and>
    bd_get e (bc_server_url c @ ''/health'') = Inr 200 \<and> bd_get e (bc_rpc_url c @ ''/status'') = Inr 200"
proof -
  have ok: "ck_status r \<noteq> status_red" if "r \<in> set (bn_doctor_results e c)" for r
    using clean that by (auto simp: bn_exit_code split: if_splits)
  have kp: "\<not> isl (load_keypair (bd_dirs e (bc_keys_dir c)))"
    using ok [of "check_keypair e c"] configured by (simp add: bn_doctor_results_def red_unless)
  then obtain kp where kp: "load_keypair (bd_dirs e (bc_keys_dir c)) = Inr kp"
    by (cases "load_keypair (bd_dirs e (bc_keys_dir c))") auto
  have "bd_get e (bc_server_url c @ ''/health'') = Inr 200" "bd_get e (bc_rpc_url c @ ''/status'') = Inr 200"
    using ok [of "check_watchtower e (bc_server_url c)"] ok [of "check_rpc e (bc_rpc_url c)"] configured
    by (simp_all add: bn_doctor_results_def red_unless status_ok_def)
  with loaded_config_listens [of read_file toml path c "bd_dirs e" kp, OF loaded kp] show ?thesis by blast
qed

definition demo_bn_doctor_env :: bn_doctor_env where
  "demo_bn_doctor_env =
     \<lparr>bd_dirs = demo_key_dirs, bd_key_error = \<lambda>_. [], bd_request_error = \<lambda>_. None, bd_get = \<lambda>_. Inr 200,
      bd_meta = demo_meta_env, bd_open_error = \<lambda>_. None, bd_cmd_error = \<lambda>_. []\<rparr>"

theorem clean_report_means_ready_witness:
  "snd (run_bn_doctor demo_bn_doctor_env demo_bn_config ''beacon.toml'' False) = 0 \<and>
   (\<exists>cfg l. bn_noise_config demo_key_dirs demo_bn_config = Inr cfg \<and>
      new_listener cfg = (Inr l :: hs_error + nat listener))"
proof -
  let ?c = demo_bn_config
  have l: "load_bn (\<lambda>_. Some ''toml'') (\<lambda>_. Some demo_bn_config) ''beacon.toml'' = Inr ?c"
    by (simp add: load_bn_def validate_bn_def demo_bn_config_def default_bn_config_def has_prefix_def)
  have p: "\<not> is_placeholder (bc_server_url ?c)" "\<not> is_placeholder (bc_keys_dir ?c)"
    by (simp_all add: demo_bn_config_def default_bn_config_def is_placeholder_def)
  have "ck_status (check_authorized_keys ?c) \<noteq> status_red"
    "ck_status (bn_check_metadata_config demo_bn_doctor_env (bc_metadata ?c)) \<noteq> status_red"
    by (simp_all add: check_authorized_keys_def bn_check_metadata_config_def doctor_statuses is_placeholder_def
        demo_bn_config_def default_bn_config_def)
  moreover have "ck_status (check_watchtower demo_bn_doctor_env (bc_server_url ?c)) \<noteq> status_red"
    "ck_status (check_rpc demo_bn_doctor_env (bc_rpc_url ?c)) \<noteq> status_red"
    by (simp_all add: red_unless) (simp_all add: demo_bn_doctor_env_def demo_bn_config_def default_bn_config_def status_ok_def)
  moreover have "ck_status (check_keypair demo_bn_doctor_env ?c) \<noteq> status_red"
    by (simp add: red_unless demo_bn_doctor_env_def demo_keys_load)
  ultimately have z: "snd (run_bn_doctor demo_bn_doctor_env ?c ''beacon.toml'' False) = 0"
    by (simp add: bn_exit_code bn_doctor_results_def)
  have "bd_dirs demo_bn_doctor_env = demo_key_dirs" by (simp add: demo_bn_doctor_env_def)
  with clean_report_means_ready [OF l p z] z show ?thesis by auto
qed

end
