(* ===== verification/Commands.thy ===== *)
theory Commands
  imports Go_Flag Build_Version Logger Beacon_Doctor Wt_Config
begin

text \<open>
  The three commands (\<open>cmd/sentinel/main.go\<close>, \<open>cmd/beacon/main.go\<close>, \<open>cmd/watchtower/main.go\<close>):
  the choice of the subcommand, its flags and positional arguments, and what it does before
  the program proper runs. The files and key directories are the state; the configuration
  decoder and encoder, the disk's failures, the Noise library's key generator and the
  doctors' probes are arguments. Usage and help texts, and the progress the sentinel's generator
  prints, are left out.
\<close>

section \<open>Outcomes\<close>

datatype 'e fatal =
    LoadConfigFails 'e | BadLogLevel string | InitLoggerFails logger_error
  | CreateFails string | GenerateFails | CloseFails string
  | KeysDirFails string | GenerateKeypairFails | WriteKeypairFails key_error

text \<open>How a command ends: the process exits at once, a message is logged and it exits with 1, the
  program runs with its configuration and logger, or something is printed.\<close>

datatype ('e, 'c) act =
    ExitWith int | Fatal "'e fatal" | StartApp 'c log_handler | Reported "string list" int | Printed string

fun exit_status :: "('e, 'c) act \<Rightarrow> int option" where
  "exit_status (ExitWith code) = Some code"
| "exit_status (Fatal err) = Some 1"
| "exit_status (StartApp c h) = None"
| "exit_status (Reported out code) = Some code"
| "exit_status (Printed out) = Some 0"

record world =
  w_files :: "string \<rightharpoonup> string"
  w_dirs :: "string \<Rightarrow> key_dir"

text \<open>\<open>ce_cut\<close>: after how many bytes a write fails, if it does.\<close>

record ('e, 'c) cmd_env =
  ce_load :: "world \<Rightarrow> string \<Rightarrow> 'e + 'c"
  ce_generate :: "string option"
  ce_journal_ok :: bool
  ce_create_ok :: "string \<Rightarrow> bool"
  ce_cut :: "string \<Rightarrow> nat option"
  ce_remove_ok :: bool
  ce_close_ok :: bool
  ce_mkdir_ok :: "string \<Rightarrow> bool"
  ce_keypair :: "keypair option"
  ce_writable :: "string \<Rightarrow> string \<Rightarrow> bool"
  ce_version :: version_info
  ce_colors :: bool

section \<open>Subcommands\<close>

definition run_flags :: "(string \<times> flag_kind) list" where
  "run_flags = [(''log-format'', StringFlag), (''log-level'', StringFlag)]"

definition run_defaults :: flag_values where
  "run_defaults = [(''log-format'', ''console''), (''log-level'', ''info'')]"

definition run_cmd_of :: "('e, 'c) cmd_env \<Rightarrow> string list \<Rightarrow> world \<Rightarrow> ('e, 'c) act \<times> world" where
  "run_cmd_of e args w =
     ((case parse_flags run_flags run_defaults args of
         Inl code \<Rightarrow> ExitWith code
       | Inr (vals, []) \<Rightarrow> ExitWith 1
       | Inr (vals, path # _) \<Rightarrow>
           (case ce_load e w path of
              Inl err \<Rightarrow> Fatal (LoadConfigFails err)
            | Inr c \<Rightarrow>
                (case parse_level (flag_value vals ''log-level'') of
                   Inl s \<Rightarrow> Fatal (BadLogLevel s)
                 | Inr level \<Rightarrow>
                     (case new_logger (ce_journal_ok e) (flag_value vals ''log-format'') level of
                        Inl err \<Rightarrow> Fatal (InitLoggerFails err)
                      | Inr h \<Rightarrow> StartApp c h)))), w)"

definition written :: "('e, 'c) cmd_env \<Rightarrow> string \<Rightarrow> string" where
  "written e txt = (case ce_cut e txt of None \<Rightarrow> txt | Some n \<Rightarrow> take n txt)"

definition put_file :: "string \<Rightarrow> string option \<Rightarrow> world \<Rightarrow> world" where
  "put_file path content w = w\<lparr>w_files := (w_files w)(path := content)\<rparr>"

text \<open>The sentinel and the watchtower create the file first and remove it when generating fails.\<close>

definition generated_notice :: "string \<Rightarrow> string \<Rightarrow> string \<Rightarrow> string" where
  "generated_notice lead program path =
     lead @ ''Config written to '' @ path @ '' '' @ [CHR 0xE2, CHR 0x80, CHR 0x94] @
     '' open it to finish configuring your '' @ program @ ''.'' @ nl"

definition generate_cmd_of ::
  "('e, 'c) cmd_env \<Rightarrow> string \<Rightarrow> string \<Rightarrow> string list \<Rightarrow> world \<Rightarrow> ('e, 'c) act \<times> world" where
  "generate_cmd_of e lead program args w =
     (case args of
        [] \<Rightarrow> (ExitWith 1, w)
      | path # _ \<Rightarrow>
          if \<not> ce_create_ok e path then (Fatal (CreateFails path), w)
          else
            (let txt = (case ce_generate e of None \<Rightarrow> [] | Some t \<Rightarrow> written e t);
                 failed = (case ce_generate e of None \<Rightarrow> True | Some t \<Rightarrow> ce_cut e t \<noteq> None)
             in if failed then
                  (Fatal GenerateFails,
                   if ce_remove_ok e then put_file path None w else put_file path (Some txt) w)
                else if \<not> ce_close_ok e then (Fatal (CloseFails path), put_file path (Some txt) w)
                else (Printed (generated_notice lead program path), put_file path (Some txt) w)))"

text \<open>The beacon writes the file in one go (\<open>os.WriteFile\<close>).\<close>

definition bn_generate_config_cmd :: "('e, 'c) cmd_env \<Rightarrow> string list \<Rightarrow> world \<Rightarrow> ('e, 'c) act \<times> world" where
  "bn_generate_config_cmd e args w =
     (case args of
        [] \<Rightarrow> (ExitWith 1, w)
      | path # _ \<Rightarrow>
          (case ce_generate e of
             None \<Rightarrow> (Fatal GenerateFails, w)
           | Some txt \<Rightarrow>
               if \<not> ce_create_ok e path then (Fatal GenerateFails, w)
               else if ce_cut e txt \<noteq> None \<or> \<not> ce_close_ok e then
                 (Fatal GenerateFails, put_file path (Some (written e txt)) w)
               else (Printed (generated_notice [] ''beacon'' path), put_file path (Some txt) w)))"

definition keygen_cmd_of :: "('e, 'c) cmd_env \<Rightarrow> string list \<Rightarrow> world \<Rightarrow> ('e, 'c) act \<times> world" where
  "keygen_cmd_of e args w =
     (case parse_flags [] [] args of
        Inl code \<Rightarrow> (ExitWith code, w)
      | Inr (_, []) \<Rightarrow> (ExitWith 1, w)
      | Inr (_, dir # _) \<Rightarrow>
          if \<not> ce_mkdir_ok e dir then (Fatal (KeysDirFails dir), w)
          else
            (case ce_keypair e of
               None \<Rightarrow> (Fatal GenerateKeypairFails, w)
             | Some kp \<Rightarrow>
                 (case write_keypair (ce_writable e dir) kp (w_dirs w dir) of
                    (Some err, d) \<Rightarrow> (Fatal (WriteKeypairFails err), w\<lparr>w_dirs := (w_dirs w)(dir := d)\<rparr>)
                  | (None, d) \<Rightarrow>
                      (Printed (hex_encode (kp_public kp) @ nl), w\<lparr>w_dirs := (w_dirs w)(dir := d)\<rparr>))))"

definition version_cmd_of :: "('e, 'c) cmd_env \<Rightarrow> string list \<Rightarrow> ('e, 'c) act" where
  "version_cmd_of e args =
     (case parse_flags [(''v'', BoolFlag)] [(''v'', ''false'')] args of
        Inl code \<Rightarrow> ExitWith code
      | Inr (vals, _) \<Rightarrow>
          if flag_value vals ''v'' = ''true'' then Printed (long_version (ce_version e))
          else Printed (short_version (ce_version e) @ nl))"

section \<open>The three programs' subcommands\<close>

text \<open>The sources repeat these functions in each program.\<close>

definition sn_run_cmd :: "('e, sn_config) cmd_env \<Rightarrow> string list \<Rightarrow> world \<Rightarrow> ('e, sn_config) act \<times> world" where
  "sn_run_cmd e args w = run_cmd_of e args w"

definition sn_version_cmd :: "('e, sn_config) cmd_env \<Rightarrow> string list \<Rightarrow> ('e, sn_config) act" where
  "sn_version_cmd e args = version_cmd_of e args"

definition sn_keygen_cmd :: "('e, sn_config) cmd_env \<Rightarrow> string list \<Rightarrow> world \<Rightarrow> ('e, sn_config) act \<times> world" where
  "sn_keygen_cmd e args w = keygen_cmd_of e args w"

definition bn_run_cmd :: "('e, bn_config) cmd_env \<Rightarrow> string list \<Rightarrow> world \<Rightarrow> ('e, bn_config) act \<times> world" where
  "bn_run_cmd e args w = run_cmd_of e args w"

definition bn_version_cmd :: "('e, bn_config) cmd_env \<Rightarrow> string list \<Rightarrow> ('e, bn_config) act" where
  "bn_version_cmd e args = version_cmd_of e args"

definition bn_keygen_cmd :: "('e, bn_config) cmd_env \<Rightarrow> string list \<Rightarrow> world \<Rightarrow> ('e, bn_config) act \<times> world" where
  "bn_keygen_cmd e args w = keygen_cmd_of e args w"

definition wt_run_cmd :: "('e, wt_config) cmd_env \<Rightarrow> string list \<Rightarrow> world \<Rightarrow> ('e, wt_config) act \<times> world" where
  "wt_run_cmd e args w = run_cmd_of e args w"

definition wt_version_cmd :: "('e, wt_config) cmd_env \<Rightarrow> string list \<Rightarrow> ('e, wt_config) act" where
  "wt_version_cmd e args = version_cmd_of e args"

definition sn_generate_config_cmd :: "('e, sn_config) cmd_env \<Rightarrow> string list \<Rightarrow> world \<Rightarrow> ('e, sn_config) act \<times> world" where
  "sn_generate_config_cmd e args w = generate_cmd_of e nl ''sentinel'' args w"

definition wt_generate_config_cmd :: "('e, wt_config) cmd_env \<Rightarrow> string list \<Rightarrow> world \<Rightarrow> ('e, wt_config) act \<times> world" where
  "wt_generate_config_cmd e args w = generate_cmd_of e [] ''watchtower'' args w"

lemmas program_cmds = sn_run_cmd_def bn_run_cmd_def wt_run_cmd_def sn_version_cmd_def bn_version_cmd_def
  wt_version_cmd_def sn_keygen_cmd_def bn_keygen_cmd_def sn_generate_config_cmd_def wt_generate_config_cmd_def

section \<open>The sentinel\<close>

definition sn_doctor_cmd ::
  "doctor_env \<Rightarrow> ('e, sn_config) cmd_env \<Rightarrow> string list \<Rightarrow> world \<Rightarrow> ('e, sn_config) act" where
  "sn_doctor_cmd de e args w =
     (case parse_flags [(''format'', StringFlag)] [(''format'', ''styled'')] args of
        Inl code \<Rightarrow> ExitWith code
      | Inr (vals, []) \<Rightarrow> ExitWith 1
      | Inr (vals, path # _) \<Rightarrow>
          if flag_value vals ''format'' \<notin> {''styled'', ''plain''} then ExitWith 1
          else
            (case ce_load e w path of
               Inl err \<Rightarrow> Fatal (LoadConfigFails err)
             | Inr c \<Rightarrow>
                 (let (out, code) =
                    run_doctor de c path (ce_colors e)
                      (if flag_value vals ''format'' = ''plain'' then FormatPlain else FormatStyled)
                  in Reported out code)))"

definition sn_main ::
  "doctor_env \<Rightarrow> ('e, sn_config) cmd_env \<Rightarrow> string list \<Rightarrow> world \<Rightarrow> ('e, sn_config) act \<times> world" where
  "sn_main de e args w =
     (case args of
        [] \<Rightarrow> (ExitWith 1, w)
      | cmd # rest \<Rightarrow>
          if cmd = ''run'' then sn_run_cmd e rest w
          else if cmd = ''generate-config'' then sn_generate_config_cmd e rest w
          else if cmd = ''doctor'' then (sn_doctor_cmd de e rest w, w)
          else if cmd = ''version'' then (sn_version_cmd e rest, w)
          else if cmd = ''keygen'' then sn_keygen_cmd e rest w
          else (ExitWith 1, w))"

section \<open>The beacon\<close>

definition bn_doctor_cmd ::
  "bn_doctor_env \<Rightarrow> ('e, bn_config) cmd_env \<Rightarrow> string list \<Rightarrow> world \<Rightarrow> ('e, bn_config) act" where
  "bn_doctor_cmd de e args w =
     (case parse_flags [] [] args of
        Inl code \<Rightarrow> ExitWith code
      | Inr (vals, []) \<Rightarrow> ExitWith 1
      | Inr (vals, path # _) \<Rightarrow>
          (case ce_load e w path of
             Inl err \<Rightarrow> Fatal (LoadConfigFails err)
           | Inr c \<Rightarrow> (let (out, code) = run_bn_doctor de c path (ce_colors e) in Reported out code)))"

definition bn_main ::
  "bn_doctor_env \<Rightarrow> ('e, bn_config) cmd_env \<Rightarrow> string list \<Rightarrow> world \<Rightarrow> ('e, bn_config) act \<times> world" where
  "bn_main de e args w =
     (case args of
        [] \<Rightarrow> (ExitWith 1, w)
      | cmd # rest \<Rightarrow>
          if cmd = ''run'' then bn_run_cmd e rest w
          else if cmd = ''generate-config'' then bn_generate_config_cmd e rest w
          else if cmd = ''doctor'' then (bn_doctor_cmd de e rest w, w)
          else if cmd = ''keygen'' then bn_keygen_cmd e rest w
          else if cmd = ''version'' then (bn_version_cmd e rest, w)
          else (ExitWith 1, w))"

section \<open>The watchtower\<close>

definition wt_main :: "('e, wt_config) cmd_env \<Rightarrow> string list \<Rightarrow> world \<Rightarrow> ('e, wt_config) act \<times> world" where
  "wt_main e args w =
     (case args of
        [] \<Rightarrow> (ExitWith 1, w)
      | cmd # rest \<Rightarrow>
          if cmd = ''run'' then wt_run_cmd e rest w
          else if cmd = ''generate-config'' then wt_generate_config_cmd e rest w
          else if cmd = ''version'' then (wt_version_cmd e rest, w)
          else (ExitWith 1, w))"

section \<open>Key pairs from the command line\<close>

lemma keygen_printed:
  assumes "keygen_cmd_of e [dir] w = (Printed out, w')" "\<not> flag_like dir"
  obtains kp d where "ce_keypair e = Some kp" "write_keypair (ce_writable e dir) kp (w_dirs w dir) = (None, d)"
    "out = hex_encode (kp_public kp) @ nl" "w' = w\<lparr>w_dirs := (w_dirs w)(dir := d)\<rparr>"
  using assms
  by (auto simp: keygen_cmd_of_def parse_flags_positional split: if_splits option.splits prod.splits)

lemma decode_keys_member:
  "decode_keys ks = Some pubs \<Longrightarrow> k \<in> set ks \<Longrightarrow> decode_public_key k = Some pub \<Longrightarrow> pub \<in> set pubs"
  by (induction ks arbitrary: pubs) (auto split: option.splits)

text \<open>C34: when the sentinel's \<open>keygen\<close> prints a key, the pair loads from the directory it was told
  to fill and no other directory has changed; the printed line decodes to the pair's public
  key, and a beacon that lists the line as authorized lets a peer with that key in.\<close>

theorem printed_key_is_authorized:
  assumes "sn_main de e [''keygen'', dir] w = (Printed out, w')" "\<not> flag_like dir"
  shows "\<exists>kp. ce_keypair e = Some kp \<and> load_keypair (w_dirs w' dir) = Inr kp \<and>
    (\<forall>other. other \<noteq> dir \<longrightarrow> w_dirs w' other = w_dirs w other) \<and> w_files w' = w_files w \<and>
    decode_public_key out = Some (kp_public kp) \<and>
    (\<forall>dirs c cfg. out \<in> set (bc_authorized_keys c) \<and> bn_noise_config dirs c = Inr cfg \<longrightarrow>
       authorize_peer cfg (kp_public kp) = None)"
proof -
  have "keygen_cmd_of e [dir] w = (Printed out, w')" using assms(1) by (simp add: sn_main_def program_cmds)
  then obtain kp d where k: "ce_keypair e = Some kp"
      "write_keypair (ce_writable e dir) kp (w_dirs w dir) = (None, d)"
      "out = hex_encode (kp_public kp) @ nl" "w' = w\<lparr>w_dirs := (w_dirs w)(dir := d)\<rparr>"
    using keygen_printed assms(2) by metis
  from k(2) have len: "length (kp_public kp) = 32" by (auto simp: write_keypair_def split: if_splits)
  then have dec: "decode_public_key out = Some (kp_public kp)"
    using key_line_decodes by (simp add: k(3) nl_def)
  have "authorize_peer cfg (kp_public kp) = None"
    if "out \<in> set (bc_authorized_keys c)" "bn_noise_config dirs c = Inr cfg" for dirs c cfg
    using that decode_keys_member [OF _ that(1) dec]
    by (auto simp: bn_noise_config_def authorize_peer_def split: sum.splits option.splits)
  with k dec keypair_files_roundtrip [OF k(2)] show ?thesis by auto
qed

definition demo_world :: world where
  "demo_world = \<lparr>w_files = Map.empty, w_dirs = \<lambda>_. Map.empty\<rparr>"

definition demo_sn_cmd_env :: "(sn_load_error, sn_config) cmd_env" where
  "demo_sn_cmd_env =
     \<lparr>ce_load = \<lambda>w. load_sn (w_files w) (\<lambda>_. Some default_sn_config),
      ce_generate = Some ''generated'', ce_journal_ok = False, ce_create_ok = \<lambda>_. True, ce_cut = \<lambda>_. None,
      ce_remove_ok = True, ce_close_ok = True, ce_mkdir_ok = \<lambda>_. True, ce_keypair = Some demo_keypair,
      ce_writable = \<lambda>_ _. True,
      ce_version = \<lparr>vi_version = ''dev'', vi_commit = [], vi_built = [], vi_go_ver = ''go1.25.0''\<rparr>,
      ce_colors = False\<rparr>"

theorem printed_key_is_authorized_witness:
  "\<forall>de. \<exists>out w'. sn_main de demo_sn_cmd_env [''keygen'', ''keys''] demo_world = (Printed out, w') \<and>
     decode_public_key out = Some (replicate 32 (CHR 0x0F)) \<and> load_keypair (w_dirs w' ''keys'') = Inr demo_keypair"
proof
  fix de :: doctor_env
  have f: "\<not> flag_like ''keys''" by (simp add: flag_like_def)
  obtain out w' where r: "sn_main de demo_sn_cmd_env [''keygen'', ''keys''] demo_world = (Printed out, w')"
    by (simp add: sn_main_def program_cmds keygen_cmd_of_def parse_flags_positional [OF f] demo_sn_cmd_env_def
        write_keypair_def write_file_def demo_keypair_def)
  from printed_key_is_authorized [OF r f] r show "\<exists>out w'. sn_main de demo_sn_cmd_env [''keygen'', ''keys''] demo_world = (Printed out, w') \<and>
     decode_public_key out = Some (replicate 32 (CHR 0x0F)) \<and> load_keypair (w_dirs w' ''keys'') = Inr demo_keypair"
    by (auto simp: demo_sn_cmd_env_def demo_keypair_def)
qed

section \<open>From a generated configuration to a running sentinel\<close>

text \<open>What the sentinel's generator writes: the defaults with what the probes found, encoded, with
  the commented alternatives.\<close>

definition generate_sn :: "environment \<Rightarrow> (sn_config \<Rightarrow> string option) \<Rightarrow> string option" where
  "generate_sn env toml_marshal =
     (let c = apply_detection env default_sn_config
      in map_option (\<lambda>data. inject_alternatives data (build_alternatives c env)) (toml_marshal c))"

text \<open>
  What the claim below needs of TOML: a line that starts with \<open>#\<close> and holds valid text without
  control characters is a comment and changes nothing, in a document without multi-line
  strings (whose delimiters are three quotes in a row). And of Docker: the characters of a
  container's name.
\<close>

definition comment_line :: "string \<Rightarrow> bool" where
  "comment_line l \<longleftrightarrow>
     has_prefix l ''#'' \<and> valid_utf8 l \<and> list_all (\<lambda>c. 32 \<le> (of_char c :: nat) \<and> (of_char c :: nat) \<noteq> 127) l"

definition no_triple_quotes :: "string \<Rightarrow> bool" where
  "no_triple_quotes l \<longleftrightarrow> \<not> contains l (replicate 3 (CHR 0x22)) \<and> \<not> contains l (replicate 3 (CHR 0x27))"

definition comments_ignored :: "(string \<Rightarrow> 'c option) \<Rightarrow> bool" where
  "comments_ignored toml_unmarshal \<longleftrightarrow>
     (\<forall>ls. list_all (\<lambda>l. CHR 0x0A \<notin> set l \<and> (comment_line l \<or> no_triple_quotes l)) ls \<longrightarrow>
        toml_unmarshal (join_with [CHR 0x0A] ls) =
          toml_unmarshal (join_with [CHR 0x0A] (filter (\<lambda>l. \<not> comment_line l) ls)))"

definition docker_name_char :: "char \<Rightarrow> bool" where
  "docker_name_char c \<longleftrightarrow> is_digit c \<or> c \<in> {CHR ''_'', CHR ''.'', CHR ''-''} \<or>
     (let n = of_char c :: nat in 65 \<le> n \<and> n \<le> 90 \<or> 97 \<le> n \<and> n \<le> 122)"

definition printable :: "char \<Rightarrow> bool" where
  "printable c \<longleftrightarrow> 32 \<le> (of_char c :: nat) \<and> (of_char c :: nat) < 127"

lemma docker_name_printable: "docker_name_char c \<Longrightarrow> printable c"
  by (auto simp: docker_name_char_def printable_def is_digit_def Let_def)

lemma printable_comment: "list_all printable l \<Longrightarrow> has_prefix l ''#'' \<Longrightarrow> comment_line l"
  by (fastforce simp: comment_line_def printable_def list_all_iff intro: ascii_valid_utf8)

text \<open>The alternatives are comments, so injecting them leaves every other line where it was.\<close>

definition alternative_texts :: "alternative \<Rightarrow> string list" where
  "alternative_texts alt =
     [''# '' @ al_comment alt, ''# '' @ al_key alt @ '' = '' @ [CHR 0x27] @ al_value alt @ [CHR 0x27]]"

lemma alternative_lines_texts: "set (alternative_lines sec trimmed alt) \<subseteq> set (alternative_texts alt)"
  by (auto simp: alternative_lines_def alternative_texts_def)

lemma inject_only_comments:
  assumes "list_all (\<lambda>alt. list_all comment_line (alternative_texts alt)) alts"
  shows "filter (\<lambda>l. \<not> comment_line l) (inject_lines alts sec ls) = filter (\<lambda>l. \<not> comment_line l) ls"
    and "set (inject_lines alts sec ls) \<subseteq> set ls \<union> {l. comment_line l}"
proof -
  have c: "\<forall>l \<in> set (concat (map (alternative_lines sec trimmed) alts)). comment_line l" for sec trimmed
    using assms alternative_lines_texts unfolding list_all_iff by fastforce
  then have "filter (\<lambda>l. \<not> comment_line l) (concat (map (alternative_lines sec trimmed) alts)) = []" for sec trimmed
    by (simp add: filter_empty_conv)
  then show "filter (\<lambda>l. \<not> comment_line l) (inject_lines alts sec ls) = filter (\<lambda>l. \<not> comment_line l) ls"
    by (induction ls arbitrary: sec) (simp_all add: Let_def)
  show "set (inject_lines alts sec ls) \<subseteq> set ls \<union> {l. comment_line l}"
    using c by (induction ls arbitrary: sec) (fastforce simp: Let_def)+
qed

lemma alternatives_are_comments:
  assumes "\<And>d. en_docker env = Some d \<Longrightarrow> list_all docker_name_char (dr_container_name d)"
  shows "list_all (\<lambda>alt. list_all comment_line (alternative_texts alt)) (build_alternatives c env)"
proof -
  have long: "comment_line (''# '' @ ''Alternative: run a shell command (requires the command to be reachable from the sentinel process '' @
         [CHR 0xE2, CHR 0x80, CHR 0x94] @ '' not the case for containerised sentinels without a bundled CLI)'')"
    by code_simp
  have short: "comment_line ''# Alternative: use journald as log source''" "comment_line ''# Alternative: use docker as log source''"
      "comment_line (''# journald_unit = '' @ [CHR 0x27] @ ''<gnoland-systemd-unit>'' @ [CHR 0x27])"
      "comment_line (''# container_name = '' @ [CHR 0x27] @ ''<gnoland-container-name>'' @ [CHR 0x27])"
      "comment_line (''# config_get_cmd = '' @ [CHR 0x27] @ ''docker exec <container> gnoland config get %s --raw'' @ [CHR 0x27])"
    by (code_simp, code_simp, code_simp, code_simp, code_simp)
  have named: "comment_line (''# config_get_cmd = '' @ [CHR 0x27] @ ''docker exec '' @ n @ '' gnoland config get %s --raw'' @ [CHR 0x27])"
    if "list_all docker_name_char n" for n
  proof (rule printable_comment)
    have "list_all printable n" using that docker_name_printable by (auto simp: list_all_iff)
    then show "list_all printable (''# config_get_cmd = '' @ [CHR 0x27] @ ''docker exec '' @ n @ '' gnoland config get %s --raw'' @ [CHR 0x27])"
      by (simp add: printable_def)
  qed (simp add: has_prefix_def)
  show ?thesis
    using long short named assms
    by (auto simp: build_alternatives_def alternative_texts_def split: option.split)
qed

lemma injected_decodes:
  assumes "comments_ignored unm" and "list_all (\<lambda>alt. list_all comment_line (alternative_texts alt)) alts"
    and "list_all no_triple_quotes (split_on (CHR 0x0A) data)"
  shows "unm (inject_alternatives data alts) = unm data"
proof -
  let ?ls = "split_on (CHR 0x0A) data"
  have nl: "CHR 0x0A \<notin> set l" if "comment_line l" for l
    using that by (auto simp: comment_line_def list_all_iff)
  have sp: "CHR 0x0A \<notin> set l" if "l \<in> set ?ls" for l using that by (rule split_on_parts)
  have "unm (join_with [CHR 0x0A] (inject_lines alts [] ?ls)) =
      unm (join_with [CHR 0x0A] (filter (\<lambda>l. \<not> comment_line l) (inject_lines alts [] ?ls)))"
    using assms(1,3) inject_only_comments(2) [OF assms(2), of "[]" ?ls] nl sp
    unfolding comments_ignored_def list_all_iff by blast
  also have "\<dots> = unm (join_with [CHR 0x0A] ?ls)"
    using assms(1,3) sp unfolding inject_only_comments(1) [OF assms(2)] comments_ignored_def list_all_iff by metis
  finally show ?thesis by (simp add: inject_alternatives_def join_split_on)
qed

text \<open>C39: a configuration file that the sentinel has just generated, its placeholders still in it,
  starts the sentinel (the README and the image's entrypoint say that validation rejects it):
  if the encoder's text decodes to the configuration encoded and holds no multi-line string,
  and the decoder ignores comment lines, then, whatever the probes found (a container's name
  being one Docker admits), \<open>run\<close> on the file \<open>generate-config\<close> wrote, with the commented
  alternatives injected, loads exactly that configuration, whose server URL is the
  placeholder, and logs to the console from level info on.\<close>

theorem generated_config_starts:
  assumes written: "sn_main de e [''generate-config'', path] w = (Printed notice, w')" and "\<not> flag_like path"
    and gen: "ce_generate e = generate_sn env toml_marshal"
    and loads: "ce_load e = (\<lambda>w. load_sn (w_files w) toml_unmarshal)"
    and toml: "\<And>data. toml_marshal (apply_detection env default_sn_config) = Some data \<Longrightarrow>
      toml_unmarshal data = Some (apply_detection env default_sn_config) \<and>
      list_all no_triple_quotes (split_on (CHR 0x0A) data)" "comments_ignored toml_unmarshal"
    and docker: "\<And>d. en_docker env = Some d \<Longrightarrow> list_all docker_name_char (dr_container_name d)"
  shows "sn_main de e [''run'', path] w' = (StartApp (apply_detection env default_sn_config) (TextHandler LevelInfo), w') \<and>
    sc_server_url (apply_detection env default_sn_config) = ''<watchtower-server-url>''"
proof -
  let ?c = "apply_detection env default_sn_config"
  obtain content where content: "ce_generate e = Some content" "w_files w' path = Some content"
    using written
    by (auto simp: sn_main_def program_cmds generate_cmd_of_def put_file_def written_def Let_def split: if_splits option.splits)
  then obtain data where "toml_marshal ?c = Some data" "content = inject_alternatives data (build_alternatives ?c env)"
    using gen by (auto simp: generate_sn_def Let_def)
  with toml injected_decodes [OF toml(2) alternatives_are_comments [OF docker], of env data ?c]
  have "toml_unmarshal content = Some ?c" by simp
  with content(2) have "ce_load e w' path = Inr ?c" by (simp add: loads load_sn_def generated_config_valid)
  moreover have "sc_server_url ?c = ''<watchtower-server-url>''"
    by (simp add: apply_detection_def default_sn_config_def Let_def split: option.split)
  ultimately show ?thesis using assms(2)
    by (simp add: sn_main_def program_cmds run_cmd_of_def parse_flags_positional run_defaults_def flag_value_def
        parse_level_def new_logger_def)
qed

definition bare_environment :: environment where
  "bare_environment = \<lparr>en_docker = None, en_journald = None, en_binary = None\<rparr>"

text \<open>A decoder of a language of one document and comment lines.\<close>

definition demo_toml :: string where "demo_toml = ''config_path = 1''"

lemma demo_line_plain: "no_triple_quotes ''config_path = 1''"
proof -
  have h: "has_prefix (drop i l) (replicate 3 c) \<Longrightarrow> c \<in> set l" for i and l :: string and c
    by (rule in_set_dropD [of _ i l], cases "drop i l") (auto simp: has_prefix_def numeral_3_eq_3)
  show ?thesis
    using h [of _ "''config_path = 1''" "CHR 0x22"] h [of _ "''config_path = 1''" "CHR 0x27"]
    by (auto simp: no_triple_quotes_def contains_def)
qed

definition demo_unmarshal :: "string \<Rightarrow> sn_config option" where
  "demo_unmarshal txt =
     (if join_with [CHR 0x0A] (filter (\<lambda>l. \<not> comment_line l) (split_on (CHR 0x0A) txt)) = demo_toml
      then Some default_sn_config else None)"

lemma demo_comments_ignored: "comments_ignored demo_unmarshal"
  unfolding comments_ignored_def
proof (intro allI impI)
  fix ls
  assume "list_all (\<lambda>l. CHR 0x0A \<notin> set l \<and> (comment_line l \<or> no_triple_quotes l)) ls"
  then have n: "\<forall>l \<in> set ls. CHR 0x0A \<notin> set l" by (simp add: list_all_iff)
  have e: "\<not> comment_line []" by (simp add: comment_line_def has_prefix_def)
  have j: "join_with [CHR 0x0A] (filter (\<lambda>l. \<not> comment_line l) (split_on (CHR 0x0A) (join_with [CHR 0x0A] ms))) =
      join_with [CHR 0x0A] (filter (\<lambda>l. \<not> comment_line l) ms)" if "\<forall>l \<in> set ms. CHR 0x0A \<notin> set l" for ms
    using that by (cases ms) (simp_all add: split_on_join e)
  show "demo_unmarshal (join_with [CHR 0x0A] ls) =
      demo_unmarshal (join_with [CHR 0x0A] (filter (\<lambda>l. \<not> comment_line l) ls))"
    unfolding demo_unmarshal_def using n by (subst (1 2) j) auto
qed

definition demo_generate_env :: "(sn_load_error, sn_config) cmd_env" where
  "demo_generate_env = demo_sn_cmd_env\<lparr>ce_generate := generate_sn bare_environment (\<lambda>_. Some demo_toml),
     ce_load := \<lambda>w. load_sn (w_files w) demo_unmarshal\<rparr>"

theorem generated_config_starts_witness:
  "\<forall>de. \<exists>w'. sn_main de demo_generate_env [''run'', ''sentinel.toml''] w' =
     (StartApp default_sn_config (TextHandler LevelInfo), w')"
proof
  fix de :: doctor_env
  have c: "apply_detection bare_environment default_sn_config = default_sn_config"
    by (simp add: apply_detection_def bare_environment_def Let_def)
  have g: "ce_generate demo_generate_env = generate_sn bare_environment (\<lambda>_. Some demo_toml)"
    and l: "ce_load demo_generate_env = (\<lambda>w. load_sn (w_files w) demo_unmarshal)"
    by (simp_all add: demo_generate_env_def)
  obtain content where t: "ce_generate demo_generate_env = Some content" by (simp add: g generate_sn_def Let_def)
  have ok: "ce_create_ok demo_generate_env p" "ce_cut demo_generate_env c = None" "ce_close_ok demo_generate_env" for p c
    by (simp_all add: demo_generate_env_def demo_sn_cmd_env_def)
  obtain notice w' where r: "sn_main de demo_generate_env [''generate-config'', ''sentinel.toml''] demo_world = (Printed notice, w')"
    using ok by (simp add: sn_main_def program_cmds generate_cmd_of_def t Let_def)
  have f: "\<not> flag_like ''sentinel.toml''" by (simp add: flag_like_def)
  have d: "demo_unmarshal demo_toml = Some default_sn_config" "list_all no_triple_quotes (split_on (CHR 0x0A) demo_toml)"
    subgoal by (simp add: demo_unmarshal_def demo_toml_def comment_line_def has_prefix_def)
    subgoal by (simp add: demo_toml_def demo_line_plain)
    done
  have n: "en_docker bare_environment = None" by (simp add: bare_environment_def)
  from generated_config_starts [OF r f g l _ demo_comments_ignored] d n
  show "\<exists>w'. sn_main de demo_generate_env [''run'', ''sentinel.toml''] w' =
     (StartApp default_sn_config (TextHandler LevelInfo), w')" by (simp add: c) blast
qed

text \<open>A failed generation leaves no file behind, where the file can be removed.\<close>

lemma failed_generation_cleans:
  "generate_cmd_of e lead program (path # rest) w = (Fatal GenerateFails, w') \<Longrightarrow> ce_remove_ok e \<Longrightarrow>
   w_files w' path = None"
  by (auto simp: generate_cmd_of_def put_file_def Let_def split: if_splits)

text \<open>An unknown subcommand, or none, exits with 1 and touches nothing.\<close>

lemma unknown_subcommand:
  "cmd \<notin> {''run'', ''generate-config'', ''doctor'', ''version'', ''keygen''} \<Longrightarrow>
     sn_main de e (cmd # rest) w = (ExitWith 1, w) \<and> bn_main bde be (cmd # rest) w = (ExitWith 1, w) \<and>
     wt_main we (cmd # rest) w = (ExitWith 1, w)"
  "sn_main de e [] w = (ExitWith 1, w)" "bn_main bde be [] w = (ExitWith 1, w)" "wt_main we [] w = (ExitWith 1, w)"
  by (simp_all add: sn_main_def bn_main_def wt_main_def)

section \<open>The other generated configurations\<close>

text \<open>The watchtower's and the beacon's generators encode the defaults.\<close>

definition generate_wt :: "(wt_config \<Rightarrow> string option) \<Rightarrow> string option" where
  "generate_wt toml_marshal = toml_marshal default_config"

definition generate_bn :: "(bn_config \<Rightarrow> string option) \<Rightarrow> string option" where
  "generate_bn toml_marshal = toml_marshal default_bn_config"

lemma default_bn_config_valid: "validate_bn default_bn_config = None"
  by (simp add: validate_bn_def default_bn_config_def is_placeholder_def)

lemma generated_wt_starts:
  assumes "wt_main e [''generate-config'', path] w = (Printed notice, w')" "\<not> flag_like path"
    and "ce_generate e = generate_wt toml_marshal" "ce_load e = (\<lambda>w path. load toml_unmarshal (w_files w path))"
    and "\<And>data. toml_marshal default_config = Some data \<Longrightarrow> toml_unmarshal data = Some default_config"
  shows "wt_main e [''run'', path] w' = (StartApp default_config (TextHandler LevelInfo), w')"
proof -
  have v: "validate default_config = None"
    by (simp add: default_config_def validate_def min_rate_limit_burst_def valid_permissions_def duration_units)
  obtain content where c: "ce_generate e = Some content" "w_files w' path = Some content"
    using assms(1)
    by (auto simp: wt_main_def program_cmds generate_cmd_of_def put_file_def written_def Let_def split: if_splits option.splits)
  have b: "rate_limit_burst (security default_config) \<noteq> 0" by (simp add: default_config_def)
  from c(1) assms(3,5) have "toml_unmarshal content = Some default_config" by (simp add: generate_wt_def)
  with c(2) have "ce_load e w' path = Inr default_config"
    by (simp add: assms(4) load_def Let_def v b)
  with assms(2) show ?thesis
    by (simp add: wt_main_def program_cmds run_cmd_of_def parse_flags_positional run_defaults_def flag_value_def
        parse_level_def new_logger_def)
qed

lemma generated_bn_starts:
  assumes "bn_main de e [''generate-config'', path] w = (Printed notice, w')" "\<not> flag_like path"
    and "ce_generate e = generate_bn toml_marshal" "ce_load e = (\<lambda>w. load_bn (w_files w) toml_unmarshal)"
    and "\<And>data. toml_marshal default_bn_config = Some data \<Longrightarrow> toml_unmarshal data = Some default_bn_config"
  shows "bn_main de e [''run'', path] w' = (StartApp default_bn_config (TextHandler LevelInfo), w')"
proof -
  obtain content where c: "ce_generate e = Some content" "w_files w' path = Some content"
    using assms(1)
    by (auto simp: bn_main_def bn_generate_config_cmd_def put_file_def written_def Let_def split: if_splits option.splits)
  with assms(3,5) have "toml_unmarshal content = Some default_bn_config" by (simp add: generate_bn_def)
  with c(2) have "ce_load e w' path = Inr default_bn_config"
    by (simp add: assms(4) load_bn_def default_bn_config_valid)
  with assms(2) show ?thesis
    by (simp add: bn_main_def program_cmds run_cmd_of_def parse_flags_positional run_defaults_def flag_value_def
        parse_level_def new_logger_def)
qed

end
