(* ===== verification/Ban_Table.thy ===== *)
theory Ban_Table
  imports Auth_Props
begin

text \<open>
  The authenticator's ban table under concurrency. Each mutex-protected operation is one step
  (\<open>auth_op\<close>), so the requests and reloads that run at the same time are some sequence of
  steps: what holds of the table after every sequence holds however they interleave. From
  the same invariant, a ban always comes to an end.
\<close>

section \<open>Runs of operations\<close>

definition auth_ops :: "auth_op list \<Rightarrow> authenticator \<Rightarrow> authenticator" where
  "auth_ops ops a = foldl (\<lambda>a op. auth_step op a) a ops"

lemma auth_ops_snoc [simp]: "auth_ops (ops @ [op]) a = auth_step op (auth_ops ops a)"
  by (simp add: auth_ops_def)

lemma auth_step_params [simp]:
  "a_ban_threshold (auth_step op a) = a_ban_threshold a" "a_ban_duration (auth_step op a) = a_ban_duration a"
  by (cases op; simp add: reload_def)+

lemma auth_ops_params [simp]:
  "a_ban_threshold (auth_ops ops a) = a_ban_threshold a" "a_ban_duration (auth_ops ops a) = a_ban_duration a"
  by (induction ops rule: rev_induct) (simp_all add: auth_ops_def)

text \<open>The time a failure is recorded at.\<close>

fun failure_time :: "auth_op \<Rightarrow> gtime option" where
  "failure_time (OpFailure now ip) = Some now"
| "failure_time _ = None"

definition failures_within :: "gtime \<Rightarrow> auth_op list \<Rightarrow> bool" where
  "failures_within limit ops \<longleftrightarrow>
     list_all (\<lambda>op. case failure_time op of None \<Rightarrow> True | Some t \<Rightarrow> time_zero < t \<and> t \<le> limit) ops"

section \<open>The invariant\<close>

text \<open>After \<open>n\<close> operations, none later than \<open>limit\<close>: a record counts at least one and at most \<open>n\<close>
  failures, and it carries a ban, which runs from the last failure, exactly when the count
  has reached the threshold.\<close>

definition ban_record_ok :: "nat \<Rightarrow> gtime \<Rightarrow> int \<Rightarrow> duration \<Rightarrow> ip_record \<Rightarrow> bool" where
  "ban_record_ok n limit threshold dur r \<longleftrightarrow>
     1 \<le> failures r \<and> failures r \<le> int n \<and> time_zero < last_seen r \<and> last_seen r \<le> limit \<and>
     ban_expiry r = (if threshold \<le> failures r then time_add (last_seen r) dur else time_zero)"

definition ban_table_ok :: "nat \<Rightarrow> gtime \<Rightarrow> authenticator \<Rightarrow> bool" where
  "ban_table_ok n limit a \<longleftrightarrow>
     distinct_keys (ips a) \<and>
     list_all (\<lambda>(ip, r). ban_record_ok n limit (a_ban_threshold a) (a_ban_duration a) r) (ips a)"

lemma ban_table_okD:
  "ban_table_ok n limit a \<Longrightarrow> map_of (ips a) ip = Some r \<Longrightarrow>
   ban_record_ok n limit (a_ban_threshold a) (a_ban_duration a) r"
  by (auto simp: ban_table_ok_def list_all_iff dest: map_of_SomeD)

lemma ban_record_ok_mono: "ban_record_ok n limit threshold dur r \<Longrightarrow> n \<le> m \<Longrightarrow> ban_record_ok m limit threshold dur r"
  by (simp add: ban_record_ok_def)

lemma ban_table_ok_mono: "ban_table_ok n limit a \<Longrightarrow> n \<le> m \<Longrightarrow> ban_table_ok m limit a"
  by (auto simp: ban_table_ok_def list_all_iff intro: ban_record_ok_mono)

text \<open>An operation that only removes records keeps it.\<close>

lemma ban_table_ok_subset:
  assumes "ban_table_ok n limit a" "set (ips b) \<subseteq> set (ips a)" "distinct_keys (ips b)"
    "a_ban_threshold b = a_ban_threshold a" "a_ban_duration b = a_ban_duration a"
  shows "ban_table_ok n limit b"
  using assms by (auto simp: ban_table_ok_def list_all_iff)

lemma set_delete_subset: "set (AList.delete k m) \<subseteq> set m"
  by (induction m) auto

lemma set_update_subset: "set (AList.update k v m) \<subseteq> insert (k, v) (set m)"
  by (induction m) auto

lemma maybe_sweep_subset: "set (ips (maybe_sweep s n a)) \<subseteq> set (ips a)"
  by (auto simp: maybe_sweep_def)

lemma is_banned_subset: "set (ips (snd (is_banned s n c ip a))) \<subseteq> set (ips a)"
  using maybe_sweep_subset [of s n a] set_delete_subset [of ip "ips (maybe_sweep s n a)"]
  by (auto simp: is_banned_def Let_def split: option.split)

lemma bump_record_ok:
  assumes r: "r = zero_record \<or> ban_record_ok n limit threshold dur r"
    and "int n < 2 ^ 63 - 1" "time_zero < now" "now \<le> limit"
  shows "ban_record_ok (Suc n) limit threshold dur (bump_record threshold dur now r)"
proof -
  have f: "0 \<le> failures r" "failures r \<le> int n" "threshold \<le> failures r \<or> ban_expiry r = time_zero"
    using r by (auto simp: zero_record_def ban_record_ok_def split: if_splits)
  then have "wrap64 (failures r + 1) = failures r + 1"
    using assms(2) by (intro wrap64_id) (simp add: int64_range_def)
  with f assms(3,4) show ?thesis by (auto simp: ban_record_ok_def bump_record_def Let_def)
qed

lemma record_failure_ok:
  assumes ok: "ban_table_ok n limit a" and "int n < 2 ^ 63 - 1" "time_zero < now" "now \<le> limit"
  shows "ban_table_ok (Suc n) limit (record_failure now ip a)"
proof -
  let ?r = "case map_of (ips a) ip of None \<Rightarrow> zero_record | Some r \<Rightarrow> r"
  have "ban_record_ok (Suc n) limit (a_ban_threshold a) (a_ban_duration a)
      (bump_record (a_ban_threshold a) (a_ban_duration a) now ?r)"
    using ban_table_okD [OF ok, of ip] assms(2-4) by (intro bump_record_ok) (auto split: option.split)
  moreover have "ban_table_ok (Suc n) limit a" using ok by (rule ban_table_ok_mono) simp
  ultimately show ?thesis
    using set_update_subset [of ip _ "ips a"]
    by (fastforce simp: ban_table_ok_def record_failure_def Let_def list_all_iff distinct_update)
qed

lemma auth_step_ok:
  assumes ok: "ban_table_ok n limit a" and "int n < 2 ^ 63 - 1" "failures_within limit [op]"
  shows "ban_table_ok (Suc n) limit (auth_step op a)"
proof (cases op)
  case (OpIsBanned s t c ip)
  have "distinct_keys (ips a)" using ok by (simp add: ban_table_ok_def)
  then have "ban_table_ok n limit (auth_step op a)"
    unfolding OpIsBanned auth_step.simps
    by (intro ban_table_ok_subset [OF ok is_banned_subset]) (simp_all add: distinct_is_banned)
  then show ?thesis by (rule ban_table_ok_mono) simp
next
  case (OpFailure t ip)
  with assms show ?thesis by (simp add: record_failure_ok failures_within_def)
next
  case (OpSuccess ip)
  have "distinct_keys (ips a)" using ok by (simp add: ban_table_ok_def)
  then have "ban_table_ok n limit (auth_step op a)"
    unfolding OpSuccess auth_step.simps
    by (intro ban_table_ok_subset [OF ok])
       (simp_all add: record_success_def set_delete_subset distinct_delete)
  then show ?thesis by (rule ban_table_ok_mono) simp
next
  case (OpReload vs)
  have "ban_table_ok n limit (auth_step op a)" using ok by (simp add: OpReload reload_def ban_table_ok_def)
  then show ?thesis by (rule ban_table_ok_mono) simp
qed

lemma auth_ops_ok:
  assumes "ips a = []" "failures_within limit ops" "int (length ops) < 2 ^ 63"
  shows "ban_table_ok (length ops) limit (auth_ops ops a)"
  using assms(2,3)
proof (induction ops rule: rev_induct)
  case Nil
  then show ?case using assms(1) by (simp add: auth_ops_def ban_table_ok_def)
next
  case (snoc op ops)
  then have "ban_table_ok (length ops) limit (auth_ops ops a)" by (simp add: failures_within_def)
  with snoc.prems show ?case by (simp add: auth_step_ok failures_within_def)
qed

text \<open>C7: after any sequence of fewer than 2^63 operations on a new authenticator, so whatever the
  interleaving of the requests and reloads, the ban table has one record per IP at most, no
  failure count has wrapped around, and a record carries a ban exactly when its count has
  reached the threshold, ending one ban duration after its last failure.\<close>

theorem ban_table_well_formed:
  assumes "failures_within limit ops" "int (length ops) < 2 ^ 63"
    and a: "a = auth_ops ops (new_authenticator vs threshold dur)"
  shows "distinct_keys (ips a) \<and>
    (\<forall>ip r. map_of (ips a) ip = Some r \<longrightarrow>
       1 \<le> failures r \<and> failures r \<le> int (length ops) \<and> last_seen r \<le> limit \<and>
       ban_expiry r = (if threshold \<le> failures r then time_add (last_seen r) dur else time_zero))"
proof -
  have "ban_table_ok (length ops) limit a"
    unfolding a by (rule auth_ops_ok [OF _ assms(1,2)]) (simp add: new_authenticator_def)
  moreover have "a_ban_threshold a = threshold" "a_ban_duration a = dur"
    by (simp_all add: a) (simp_all add: new_authenticator_def)
  ultimately show ?thesis
    using ban_table_okD [of "length ops" limit a] by (auto simp: ban_table_ok_def ban_record_ok_def)
qed

text \<open>Two clients race: both have passed the check before either failure is recorded.\<close>

definition racing_ops :: "auth_op list" where
  "racing_ops =
     [OpIsBanned 0 0 0 ''10.0.0.1'', OpIsBanned 0 0 0 ''10.0.0.1'', OpFailure 1 ''10.0.0.1'',
      OpReload [], OpFailure 2 ''10.0.0.1'', OpSuccess ''10.0.0.2'']"

theorem ban_table_well_formed_witness:
  "failures_within 2 racing_ops \<and>
   (\<exists>r. map_of (ips (auth_ops racing_ops (new_authenticator [] 1 minute))) ''10.0.0.1'' = Some r \<and>
      failures r \<le> 6 \<and> last_seen r \<le> 2)"
proof -
  have w: "failures_within 2 racing_ops"
    by (simp add: failures_within_def racing_ops_def time_zero_def)
  have l: "int (length racing_ops) < 2 ^ 63" "length racing_ops = 6" by (simp_all add: racing_ops_def)
  have "map_of (ips (auth_ops racing_ops (new_authenticator [] 1 minute))) ''10.0.0.1'' \<noteq> None" by code_simp
  then obtain r where "map_of (ips (auth_ops racing_ops (new_authenticator [] 1 minute))) ''10.0.0.1'' = Some r"
    by blast
  with ban_table_well_formed [OF w l(1) refl, of "[]" 1 minute] w l(2) show ?thesis by auto
qed

section \<open>Bans end\<close>

text \<open>C8: a ban always comes to an end: after any sequence of operations whose failures were
  recorded by time \<open>limit\<close>, a request that reads the clock more than one ban duration later
  and carries a registered token is let in, whatever its IP has done before, and its IP's
  record is gone.\<close>

theorem bans_end:
  assumes "failures_within limit ops" "int (length ops) < 2 ^ 63" "0 < dur"
    and a: "a = auth_ops ops (new_authenticator vs threshold dur)"
    and late: "time_add limit dur < c_check c"
    and known: "tokens a (bearer_token r) = Some \<lparr>te_validator_name = name, te_config = v\<rparr>"
  shows "ar_verdict (auth_middleware c r a) = Authenticated name v \<and>
    map_of (ips (ar_state (auth_middleware c r a))) (remote_ip r) = None"
proof -
  have ok: "ban_table_ok (length ops) limit a"
    unfolding a by (rule auth_ops_ok [OF _ assms(1,2)]) (simp add: new_authenticator_def)
  have d: "a_ban_duration a = dur" by (simp add: a) (simp add: new_authenticator_def)
  have swept: "ban_table_ok (length ops) limit (maybe_sweep (c_since c) (c_sweep c) a)"
    using ok by (intro ban_table_ok_subset [OF ok maybe_sweep_subset]) (simp_all add: distinct_maybe_sweep ban_table_ok_def)
  have "ban_expiry rec < c_check c"
    if "map_of (ips (maybe_sweep (c_since c) (c_sweep c) a)) ip = Some rec" "\<not> is_zero_time (ban_expiry rec)" for ip rec
    using ban_table_okD [OF swept that(1)] that(2) late d
    by (auto simp: ban_record_ok_def is_zero_time_def time_add_def split: if_splits)
  then have nb: "\<not> fst (is_banned (c_since c) (c_sweep c) (c_check c) (remote_ip r) a)"
    by (auto simp: is_banned_def Let_def split: option.split)
  have "distinct_keys (ips a)" using ok by (simp add: ban_table_ok_def)
  with auth_middleware_known [OF nb known] show ?thesis
    by (simp add: distinct_is_banned lookup_record_success)
qed

theorem bans_end_witness:
  "let a = auth_ops racing_ops (new_authenticator [(''v1'', \<lparr>vc_token = ''t'', vc_permissions = [], vc_logs_min_level = ''info''\<rparr>)] 1 minute);
       a' = auth_ops [OpReload [(''v1'', \<lparr>vc_token = ''t'', vc_permissions = [], vc_logs_min_level = ''info''\<rparr>)]] a;
       c = \<lparr>c_since = 3 * minute, c_sweep = 3 * minute, c_check = 3 * minute, c_fail = 3 * minute\<rparr>
   in ar_verdict (auth_middleware c (demo_request ''10.0.0.1'' ''t'') a') =
      Authenticated ''v1'' \<lparr>vc_token = ''t'', vc_permissions = [], vc_logs_min_level = ''info''\<rparr>"
proof -
  let ?v = "\<lparr>vc_token = ''t'', vc_permissions = [], vc_logs_min_level = ''info''\<rparr>"
  let ?ops = "racing_ops @ [OpReload [(''v1'', ?v)]]"
  let ?c = "\<lparr>c_since = 3 * minute, c_sweep = 3 * minute, c_check = 3 * minute, c_fail = 3 * minute\<rparr>"
  let ?a = "auth_ops ?ops (new_authenticator [(''v1'', ?v)] 1 minute)"
  have "failures_within 2 ?ops" "int (length ?ops) < 2 ^ 63" "0 < minute" "time_add 2 minute < c_check ?c"
    by (simp_all add: failures_within_def racing_ops_def time_zero_def duration_units time_add_def)
  moreover have "tokens ?a (bearer_token (demo_request ''10.0.0.1'' ''t'')) = Some \<lparr>te_validator_name = ''v1'', te_config = ?v\<rparr>"
    by (simp add: reload_def bearer_token_def demo_request_def header_get_def cut_prefix_def has_prefix_def)
  ultimately have "ar_verdict (auth_middleware ?c (demo_request ''10.0.0.1'' ''t'') ?a) = Authenticated ''v1'' ?v"
    using bans_end [of 2 ?ops minute ?a "[(''v1'', ?v)]" 1 ?c "demo_request ''10.0.0.1'' ''t''" "''v1''" ?v] by blast
  then show ?thesis by (simp add: auth_ops_def)
qed

end
