(* ===== verification/Watchtower_Run.thy ===== *)
theory Watchtower_Run
  imports Handlers_Props
begin

text \<open>
  The watchtower over its whole life: any sequence of requests, SIGHUP reloads and ticks of
  the statistics logger on the server that a loaded configuration sets up. A reload reads
  and decodes the file anew; one that fails leaves the configuration in force.
\<close>

datatype ('l, 'v, 'x, 'm, 'q) wt_event =
    Request "('l, 'v, 'x, 'm, 'q) env" http_request
  | Hangup "string \<Rightarrow> wt_config option" "string option"
  | StatsTick gtime

fun wt_step :: "('l, 'v, 'x, 'm, 'q) wt_event \<Rightarrow> 'l server \<Rightarrow> 'l server" where
  "wt_step (Request e r) s = sr_state (serve e r s)"
| "wt_step (Hangup toml file) s = reload_config (load toml file) s"
| "wt_step (StatsTick now) s = snd (stats_tick now s)"

definition wt_run :: "('l, 'v, 'x, 'm, 'q) wt_event list \<Rightarrow> 'l server \<Rightarrow> 'l server" where
  "wt_run evs s = foldl (\<lambda>s ev. wt_step ev s) s evs"

text \<open>The configuration in force after a run, of which the reload takes over the validators.\<close>

fun config_step :: "('l, 'v, 'x, 'm, 'q) wt_event \<Rightarrow> wt_config \<Rightarrow> wt_config" where
  "config_step (Hangup toml file) c = (case load toml file of Inl err \<Rightarrow> c | Inr c' \<Rightarrow> c')"
| "config_step _ c = c"

definition config_after :: "('l, 'v, 'x, 'm, 'q) wt_event list \<Rightarrow> wt_config \<Rightarrow> wt_config" where
  "config_after evs c = foldl (\<lambda>c ev. config_step ev c) c evs"

section \<open>The token index is the configuration's\<close>

definition follows :: "wt_config \<Rightarrow> 'l server \<Rightarrow> bool" where
  "follows c s \<longleftrightarrow> validate c = None \<and> tokens (sv_auth s) = index_tokens Map.empty (validators c)"

lemma load_valid: "load toml file = Inr c \<Longrightarrow> validate c = None"
  by (auto simp: load_def Let_def split: option.splits)

lemma serve_tokens [simp]: "tokens (sv_auth (sr_state (serve e r s))) = tokens (sv_auth s)"
proof -
  have h: "sv_auth (sr_state (handle_payload e perm name v r t)) = sv_auth t" for perm name v t
    by (simp add: handle_payload_def Let_def split: option.split)
  have "sv_auth (sr_state (inner_mux e name v r t)) = sv_auth t" for name v t
    by (simp add: inner_mux_def h handle_auth_check_def split: inner_route.split)
  then have "tokens (sv_auth (sr_state (protected_chain e r s))) = tokens (sv_auth s)"
    by (simp add: protected_chain_def Let_def split: auth_verdict.split option.split)
  then show ?thesis by (simp add: serve_def split: route.split)
qed

lemma wt_step_follows: "follows c s \<Longrightarrow> follows (config_step ev c) (wt_step ev s)"
  by (cases ev)
     (auto simp: follows_def reload_config_def reload_def load_valid stats_tick_def case_prod_unfold Let_def
       split: sum.split)

lemma wt_run_follows: "follows c s \<Longrightarrow> follows (config_after evs c) (wt_run evs s)"
  by (induction evs arbitrary: c s) (simp_all add: wt_run_def config_after_def wt_step_follows)

lemma new_server_follows: "validate c = None \<Longrightarrow> follows c (new_server c lr mr now)"
  by (simp add: follows_def new_server_def new_authenticator_def set_metrics_def)

text \<open>C1: at any point of the watchtower's life, whatever requests, reloads and ticks came before,
  if serving a request makes it send something to a backend, then the configuration in force
  has a validator whose (non-empty) token is the request's bearer token and who has the
  permission of the endpoint, the request was a POST to that endpoint whose body was read
  completely and is at most 50 MiB, and what is sent is what the forwarder builds from that
  body for that validator: a token that the last successful reload left out opens nothing.\<close>

theorem posts_follow_current_config:
  assumes start: "load toml file = Inr c"
    and now: "s = wt_run evs (new_server c lr mr t)" "current = config_after evs c"
    and posted: "sr_posted (serve e r s) = Some req"
  shows "\<exists>name v perm. (name, v) \<in> set (validators current) \<and> vc_token v \<noteq> [] \<and>
    header_get (rq_headers r) ''Authorization'' = ''Bearer '' @ vc_token v \<and>
    rq_method r = ''POST'' \<and> rq_path r = ''/'' @ perm \<and> perm \<in> set (vc_permissions v) \<and>
    length (rq_body r) \<le> 50 * 2 ^ 20 \<and> \<not> rq_body_fails r \<and>
    fr_posted (forward_payload e (sv_fwd s) perm name v (rq_body r)) = Some req"
proof -
  obtain name v perm where p: "rq_method r = ''POST''" "rq_path r = ''/'' @ perm"
      "tokens (sv_auth s) (bearer_token r) = Some \<lparr>te_validator_name = name, te_config = v\<rparr>"
      "perm \<in> set (vc_permissions v)" "length (rq_body r) \<le> 50 * 2 ^ 20" "\<not> rq_body_fails r"
      "fr_posted (forward_payload e (sv_fwd s) perm name v (rq_body r)) = Some req"
    using forwarded_only_if [OF posted] by blast
  have f: "follows current s"
    unfolding now by (intro wt_run_follows new_server_follows load_valid [OF start])
  then have ok: "validators_ok (validators current)"
    by (simp add: follows_def validate_None_iff config_ok_def)
  then have v: "(name, v) \<in> set (validators current)" "vc_token v = bearer_token r"
    using index_tokens_Some_iff [of "validators current"] p(3) f
    by (auto simp: follows_def validators_ok_def)
  moreover from ok v(1) have ne: "vc_token v \<noteq> []" by (auto simp: validators_ok_def validator_ok_def)
  moreover have "header_get (rq_headers r) ''Authorization'' = ''Bearer '' @ vc_token v"
    using bearer_token_eq [OF ne, of r] v(2) by simp
  ultimately show ?thesis using p by blast
qed

text \<open>A payload after a reload that failed.\<close>

definition demo_wt_config :: wt_config where
  "demo_wt_config = default_config\<lparr>validators := [(''v1'', demo_validator)]\<rparr>"

lemma demo_wt_config_loads: "load (\<lambda>_. Some demo_wt_config) (Some ''watchtower.toml'') = Inr demo_wt_config"
  by (simp add: load_Inr_iff demo_wt_config_def default_config_def demo_validator_def config_ok_def
      validate_None_iff validators_ok_def validator_ok_def valid_permissions_def min_rate_limit_burst_def duration_units)

theorem posts_follow_current_config_witness:
  "\<exists>name v. (name, v) \<in> set (validators demo_wt_config) \<and>
     header_get (rq_headers demo_post) ''Authorization'' = ''Bearer '' @ vc_token v \<and>
     ''rpc'' \<in> set (vc_permissions v)"
proof -
  let ?evs = "[Hangup (\<lambda>_. None) (Some [])] :: (unit, unit, unit, unit, unit) wt_event list"
  have d: "demo_server = new_server demo_wt_config [] [] 0" by (simp add: demo_server_def demo_wt_config_def)
  have s: "wt_run ?evs (new_server demo_wt_config [] [] 0) = demo_server"
    "config_after ?evs demo_wt_config = demo_wt_config"
    by (simp_all add: d wt_run_def config_after_def reload_config_def load_def)
  obtain req where "sr_posted (serve demo_env demo_post demo_server) = Some req" using demo_posted by blast
  from posts_follow_current_config [OF demo_wt_config_loads s(1) [symmetric] s(2) [symmetric] this]
  show ?thesis by (auto simp: demo_post_def demo_request_def)
qed

section \<open>Every accepted byte is counted once\<close>

text \<open>The bytes of validator and type \<open>k\<close> that a request answered 200 brought in.\<close>

definition accepted_bytes ::
  "string \<times> string \<Rightarrow> ('l, 'v, 'x, 'm, 'q) env \<Rightarrow> http_request \<Rightarrow> 'l server \<Rightarrow> int" where
  "accepted_bytes k e r s =
     (case inner_route r of
        Payload perm \<Rightarrow>
          (case ar_verdict (auth_middleware (ev_clock e) r (sv_auth s)) of
             Authenticated name v \<Rightarrow>
               if (name, perm) = k \<and> rs_status (sr_response (serve e r s)) = 200 then int (length (rq_body r)) else 0
           | Rejected _ \<Rightarrow> 0)
      | _ \<Rightarrow> 0)"

fun event_bytes :: "string \<times> string \<Rightarrow> ('l, 'v, 'x, 'm, 'q) wt_event \<Rightarrow> 'l server \<Rightarrow> int" where
  "event_bytes k (Request e r) s = accepted_bytes k e r s"
| "event_bytes k _ s = 0"

fun run_bytes :: "string \<times> string \<Rightarrow> ('l, 'v, 'x, 'm, 'q) wt_event list \<Rightarrow> 'l server \<Rightarrow> int" where
  "run_bytes k [] s = 0"
| "run_bytes k (ev # evs) s = event_bytes k ev s + run_bytes k evs (wt_step ev s)"

text \<open>The hourly figure that a tick logs.\<close>

fun event_logged :: "string \<times> string \<Rightarrow> ('l, 'v, 'x, 'm, 'q) wt_event \<Rightarrow> 'l server \<Rightarrow> int" where
  "event_logged k (StatsTick now) s = last_hour_bytes (snap_at (fst (stats_tick now s)) k)"
| "event_logged k _ s = 0"

fun run_logged :: "string \<times> string \<Rightarrow> ('l, 'v, 'x, 'm, 'q) wt_event list \<Rightarrow> 'l server \<Rightarrow> int" where
  "run_logged k [] s = 0"
| "run_logged k (ev # evs) s = event_logged k ev s + run_logged k evs (wt_step ev s)"

lemma stats_ok_wrap:
  assumes "stats_ok s"
  shows "wrap64 (e_total (entry_at s k)) = e_total (entry_at s k)"
    and "wrap64 (e_last_hour (entry_at s k)) = e_last_hour (entry_at s k)"
  using assms unfolding stats_ok_def by (blast intro: wrap64_id)+

lemma stats_okI:
  "(\<And>k. int64_range (e_total (entry_at s k)) \<and> int64_range (e_last_hour (entry_at s k))) \<Longrightarrow> stats_ok s"
  by (simp add: stats_ok_def)

lemma serve_entry:
  assumes ok: "stats_ok (sv_stats s)"
  shows "entry_at (sv_stats (sr_state (serve e r s))) k =
    \<lparr>e_last_hour = wrap64 (e_last_hour (entry_at (sv_stats s) k) + accepted_bytes k e r s),
     e_total = wrap64 (e_total (entry_at (sv_stats s) k) + accepted_bytes k e r s)\<rparr>"
proof (cases "(\<exists>perm. inner_route r = Payload perm) \<and> rs_status (sr_response (serve e r s)) = 200")
  case True
  with bytes_counted_iff_accepted [of r e s] obtain name v perm where
      "inner_route r = Payload perm" "ar_verdict (auth_middleware (ev_clock e) r (sv_auth s)) = Authenticated name v"
      "sv_stats (sr_state (serve e r s)) = record_bytes name perm (int (length (rq_body r))) (sv_stats s)"
    by auto
  with True stats_ok_wrap [OF ok, of k] show ?thesis by (auto simp: accepted_bytes_def entry_at_record)
next
  case False
  then have "accepted_bytes k e r s = 0"
    by (auto simp: accepted_bytes_def split: inner_route.split auth_verdict.split)
  moreover have "sv_stats (sr_state (serve e r s)) = sv_stats s"
    using bytes_counted_iff_accepted [of r e s] False by (simp split: if_splits)
  ultimately show ?thesis using stats_ok_wrap [OF ok, of k] by simp
qed

lemma wt_step_entry:
  assumes ok: "stats_ok (sv_stats s)"
  shows "e_total (entry_at (sv_stats (wt_step ev s)) k) = wrap64 (e_total (entry_at (sv_stats s) k) + event_bytes k ev s)"
    and "wrap64 (event_logged k ev s + e_last_hour (entry_at (sv_stats (wt_step ev s)) k)) =
         wrap64 (e_last_hour (entry_at (sv_stats s) k) + event_bytes k ev s)"
    and "stats_ok (sv_stats (wt_step ev s))"
proof -
  note wrap = stats_ok_wrap [OF ok]
  have reload: "sv_stats (reload_config res s) = sv_stats s" for res
    by (simp add: reload_config_def split: sum.split)
  show "e_total (entry_at (sv_stats (wt_step ev s)) k) = wrap64 (e_total (entry_at (sv_stats s) k) + event_bytes k ev s)"
    by (cases ev) (simp_all add: serve_entry [OF ok] reload wrap stats_tick_def case_prod_unfold Let_def stats_entries)
  show "wrap64 (event_logged k ev s + e_last_hour (entry_at (sv_stats (wt_step ev s)) k)) =
      wrap64 (e_last_hour (entry_at (sv_stats s) k) + event_bytes k ev s)"
    by (cases ev) (simp_all add: serve_entry [OF ok] reload wrap stats_tick_def case_prod_unfold Let_def stats_entries)
  have "int64_range (e_total (entry_at (sv_stats s) k)) \<and> int64_range (e_last_hour (entry_at (sv_stats s) k))" for k
    using ok by (cases k) (simp add: stats_ok_def)
  moreover have "int64_range 0" by (simp add: int64_range_def)
  ultimately show "stats_ok (sv_stats (wt_step ev s))"
    by (cases ev; intro stats_okI)
       (simp_all add: serve_entry [OF ok] reload wrap64_range stats_tick_def case_prod_unfold Let_def stats_entries)
qed

lemma wrap64_chain:
  assumes "wrap64 (l' + x) = wrap64 (h' + r)" "wrap64 (l + h') = wrap64 (h + b)"
  shows "wrap64 (l + l' + x) = wrap64 (h + (b + r))"
proof -
  have "wrap64 (l + l' + x) = wrap64 (l + wrap64 (l' + x))" by (simp add: add.assoc)
  also have "\<dots> = wrap64 (wrap64 (l + h') + r)" using assms(1) by (simp add: add.assoc)
  also have "\<dots> = wrap64 (h + (b + r))" using assms(2) by (simp add: add.assoc)
  finally show ?thesis .
qed

lemma run_accounts:
  assumes "stats_ok (sv_stats s)"
  shows "e_total (entry_at (sv_stats (wt_run evs s)) k) = wrap64 (e_total (entry_at (sv_stats s) k) + run_bytes k evs s) \<and>
    wrap64 (run_logged k evs s + e_last_hour (entry_at (sv_stats (wt_run evs s)) k)) =
      wrap64 (e_last_hour (entry_at (sv_stats s) k) + run_bytes k evs s)"
  using assms
proof (induction evs arbitrary: s)
  case Nil
  then show ?case by (simp add: wt_run_def stats_ok_wrap)
next
  case (Cons ev evs)
  note step = wt_step_entry(1) [OF Cons.prems, where ev = ev and k = k] wt_step_entry(2) [OF Cons.prems, where ev = ev and k = k]
  note IH = Cons.IH [OF wt_step_entry(3) [OF Cons.prems, where ev = ev]]
  have run: "wt_run (ev # evs) s = wt_run evs (wt_step ev s)" by (simp add: wt_run_def)
  show ?case
    unfolding run using IH step wrap64_chain [OF conjunct2 [OF IH] step(2)] by (simp add: add.assoc)
qed

lemma new_server_stats: "sv_stats (new_server c lr mr t) = new_stats t"
  by (simp add: new_server_def)

text \<open>C15: over any life of the watchtower and for every validator and type, the total is the sum of
  the bodies answered 200 for that validator on that endpoint, and so are the hourly figures
  logged so far together with the current hour's (modulo the 64-bit counters): no accepted
  byte is lost or counted twice by concurrent types, failed forwards, reloads or ticks.\<close>

theorem accepted_bytes_conserved:
  "e_total (entry_at (sv_stats (wt_run evs (new_server c lr mr t))) k) =
     wrap64 (run_bytes k evs (new_server c lr mr t)) \<and>
   wrap64 (run_logged k evs (new_server c lr mr t) +
           e_last_hour (entry_at (sv_stats (wt_run evs (new_server c lr mr t))) k)) =
     wrap64 (run_bytes k evs (new_server c lr mr t))"
proof -
  have "entry_at (new_stats t) k = \<lparr>e_last_hour = 0, e_total = 0\<rparr>"
    by (simp add: entry_at_def new_stats_def)
  then show ?thesis
    using run_accounts [of "new_server c lr mr t" evs k] by (simp add: new_server_stats)
qed

end
