(* ===== verification/Sn_Run.thy ===== *)
theory Sn_Run
  imports Sn_Config Sn_App_Props Log_Collector Otlp_Relay Self_Collector Handlers
begin

text \<open>
  The sentinel's start (\<open>Run\<close> in \<open>internal/sentinel/app/run.go\<close>) and what runs beside the main
  loop: the health endpoint (\<open>health.go\<close>), the OTLP listener's routes (\<open>otlp/relay.go\<close>), the
  log source's reconnect loop (\<open>logs/collector.go\<close>), the self collector's loop
  (\<open>self/collector.go\<close>) and the periodic statistics line. How the listeners end is in
  \<open>Server_Loops\<close>; the delays themselves are left out.
\<close>

section \<open>Starting\<close>

datatype sn_start_error = SnKeysError noise_config_error | SnSenderError

text \<open>What is running after the start: the sender, the pipeline's buffers, the log source and the
  relay. An invalid log source is only logged: the log collector stays off.\<close>

record ('r, 'l, 'm) running =
  rn_sender :: "noise_config sender"
  rn_app :: "('r, 'l, 'm) app"
  rn_source :: "log_source option"
  rn_relay :: "relay option"

text \<open>\<open>time.NewTicker\<close> panics on an interval that is not positive. \<open>Run\<close> itself makes a ticker of
  the RPC poll interval; the collectors make theirs at the start of their own goroutines, where
  a panic ends the process too. The names are those of the collectors whose tickers panic; the
  file watcher, which the metadata collector opens first, is taken to open.\<close>

datatype ('r, 'l, 'm) sn_start =
    StartFailed sn_start_error
  | NoCollectors
  | Panicking "string list"
  | Collecting "('r, 'l, 'm) running"

definition configured_source :: "sn_config \<Rightarrow> log_source option" where
  "configured_source c =
     (if lg_enabled (sc_logs c)
      then new_source (lg_source (sc_logs c)) (lg_container_name (sc_logs c)) (lg_journald_unit (sc_logs c))
             (lg_resume_lookback (sc_logs c))
      else None)"

definition panicking_tickers :: "sn_config \<Rightarrow> log_source option \<Rightarrow> string list" where
  "panicking_tickers c src =
     (if rp_enabled (sc_rpc c) \<and> rp_poll_interval (sc_rpc c) \<le> 0 then [''rpc'']
      else (if src \<noteq> None \<and> lg_batch_timeout (sc_logs c) \<le> 0 then [''log''] else []) @
        (if re_enabled (sc_resources c) \<and> re_poll_interval (sc_resources c) \<le> 0 then [''resources''] else []) @
        (if sc_metadata_enabled c \<and> mc_check_interval (sc_metadata c) \<le> 0 then [''metadata''] else []) @
        (if sc_self_enabled c \<and> sc_self_report_interval c \<le> 0 then [''self''] else []))"

definition start_sentinel ::
  "(string \<Rightarrow> key_dir) \<Rightarrow> gtime \<Rightarrow> sn_config \<Rightarrow> ('r, 'l, 'm) sn_start" where
  "start_sentinel dirs now c =
     (case sn_noise_config dirs c of
        Inl err \<Rightarrow> StartFailed (SnKeysError err)
      | Inr nz \<Rightarrow>
          (case new_sender (sc_server_url c) (sc_server_token c) nz of
             None \<Rightarrow> StartFailed SnSenderError
           | Some s \<Rightarrow>
               if \<not> any_collector_enabled c then NoCollectors
               else
                 (let src = configured_source c; ts = panicking_tickers c src
                  in if ts \<noteq> [] then Panicking ts
                     else Collecting
                      \<lparr>rn_sender = s,
                       rn_app = new_app now (rp_enabled (sc_rpc c)) (src \<noteq> None) (re_enabled (sc_resources c))
                         (sc_metadata_enabled c) (sc_self_enabled c),
                       rn_source = src,
                       rn_relay = (if sc_otlp_enabled c then Some new_relay else None)\<rparr>)))"

section \<open>The health endpoint and the OTLP routes\<close>

definition refuse_method :: "string \<Rightarrow> http_response" where
  "refuse_method allow_hdr =
     http_error_with [(''Allow'', [allow_hdr])] ''Method Not Allowed'' status_method_not_allowed"

definition no_page :: http_response where
  "no_page = http_error ''404 page not found'' status_not_found"

text \<open>\<open>None\<close>: the endpoint is disabled and nothing listens.\<close>

definition health_serve :: "bool \<Rightarrow> http_request \<Rightarrow> http_response option" where
  "health_serve enabled r =
     (if \<not> enabled then None
      else if must_redirect r then Some (redirect_response r)
      else if rq_path r \<noteq> ''/health'' then Some no_page
      else if is_get r then Some ok_response
      else Some (refuse_method ''GET, HEAD''))"

definition relay_serve ::
  "('m, 's, 'r, 'q) relay_env \<Rightarrow> http_request \<Rightarrow> relay \<Rightarrow> http_response \<times> relay" where
  "relay_serve e r rl =
     (if must_redirect r then (redirect_response r, rl)
      else if rq_path r \<notin> {''/v1/metrics'', ''/v1/traces''} then (no_page, rl)
      else if rq_method r \<noteq> ''POST'' then (refuse_method ''POST'', rl)
      else if rq_path r = ''/v1/metrics'' then relay_metrics e r rl
      else relay_traces r rl)"

section \<open>The log source's reconnect loop\<close>

text \<open>One call of \<open>Tail\<close>: the lines it delivers before it returns, and whether the context is done
  before the call or in the pause after it.\<close>

record tail_session =
  tn_lines :: "log_line list"
  tn_done_before :: bool
  tn_done_in_pause :: bool

fun tail_loop :: "tail_session list \<Rightarrow> log_line list" where
  "tail_loop [] = []"
| "tail_loop (t # ts) =
     (if tn_done_before t then []
      else tn_lines t @ (if tn_done_in_pause t then [] else tail_loop ts))"

section \<open>The self collector's loop\<close>

text \<open>The statistics change between the ticks; the first emission does not wait for one.\<close>

datatype self_event = Counted stat_event | SelfReport gtime gtime

fun self_loop :: "self_event list \<Rightarrow> sn_stats \<Rightarrow> payload list \<times> sn_stats" where
  "self_loop [] st = ([], st)"
| "self_loop (Counted ev # evs) st = self_loop evs (stat_apply ev st)"
| "self_loop (SelfReport snap_now now # evs) st =
     (let (p, st1) = self_emit snap_now now st; (ps, st2) = self_loop evs st1
      in (case p of None \<Rightarrow> ps | Some q \<Rightarrow> q # ps, st2))"

definition self_run :: "gtime \<Rightarrow> gtime \<Rightarrow> self_event list \<Rightarrow> sn_stats \<Rightarrow> payload list \<times> sn_stats" where
  "self_run snap_now now evs st = self_loop (SelfReport snap_now now # evs) st"

section \<open>The statistics line\<close>

text \<open>\<open>Duration.Round\<close> to a positive multiple.\<close>

definition round_duration :: "duration \<Rightarrow> duration \<Rightarrow> duration" where
  "round_duration m d =
     (let r = \<bar>d\<bar> mod m
      in if d < 0 then (if r + r < m then d + r else if wrap64 (d - m + r) < d then wrap64 (d - m + r) else - (2 ^ 63))
         else (if r + r < m then d - r else if d < wrap64 (d + m - r) then wrap64 (d + m - r) else 2 ^ 63 - 1))"

record stats_group =
  sg_last_bytes :: int
  sg_total_bytes :: int
  sg_total_wire_bytes :: int
  sg_last_drops :: int
  sg_drops_by_reason :: "(string \<times> int) list"

definition stats_group_of :: "sn_type_snapshot \<Rightarrow> stats_group" where
  "stats_group_of s =
     \<lparr>sg_last_bytes = ts_last_snapshot_bytes s, sg_total_bytes = ts_total_bytes s,
      sg_total_wire_bytes = ts_total_wire_bytes s,
      sg_last_drops = foldl (\<lambda>n (reason, k). wrap64 (n + k)) 0 (ts_last_snapshot_drops s),
      sg_drops_by_reason = ts_last_snapshot_drops s\<rparr>"

definition log_stats :: "gtime \<Rightarrow> sn_stats \<Rightarrow> (duration \<times> (string \<times> stats_group) list) \<times> sn_stats" where
  "log_stats now st =
     (let ((snap, uptime), st') = sn_snapshot now st
      in ((round_duration second uptime, map (\<lambda>(typ, s). (typ, stats_group_of s)) snap), st'))"

section \<open>What the start guarantees\<close>

lemma configured_source_validated:
  "validate_sn c = None \<Longrightarrow> configured_source c \<noteq> None \<longleftrightarrow> lg_enabled (sc_logs c)"
  by (auto simp: validate_sn_def configured_source_def new_source_def split: if_splits option.splits)

lemma validated_sender:
  "validate_sn c = None \<Longrightarrow> sn_noise_config dirs c = Inr nz \<Longrightarrow>
   new_sender (sc_server_url c) (sc_server_token c) nz \<noteq> None"
  by (auto simp: sn_noise_config_def new_sender_def is_noise_scheme_def split: if_splits option.splits sum.splits)

text \<open>The interval of an enabled collector that its ticker rejects.\<close>

definition bad_interval :: "sn_config \<Rightarrow> bool" where
  "bad_interval c \<longleftrightarrow>
     rp_enabled (sc_rpc c) \<and> rp_poll_interval (sc_rpc c) \<le> 0 \<or>
     lg_enabled (sc_logs c) \<and> lg_batch_timeout (sc_logs c) \<le> 0 \<or>
     re_enabled (sc_resources c) \<and> re_poll_interval (sc_resources c) \<le> 0 \<or>
     sc_metadata_enabled c \<and> mc_check_interval (sc_metadata c) \<le> 0 \<or>
     sc_self_enabled c \<and> sc_self_report_interval c \<le> 0"

lemma panicking_tickers_bad:
  "validate_sn c = None \<Longrightarrow> panicking_tickers c (configured_source c) \<noteq> [] \<longleftrightarrow> bad_interval c"
  using configured_source_validated [of c] by (auto simp: panicking_tickers_def bad_interval_def)

lemma bad_interval_enabled: "bad_interval c \<Longrightarrow> any_collector_enabled c"
  by (auto simp: bad_interval_def any_collector_enabled_def)

text \<open>C27: the start of a sentinel with a validated configuration has one of four outcomes: it fails
  exactly when the beacon keys do not load; otherwise, with no collector enabled it waits; it
  panics exactly when a collector is enabled whose ticker interval (RPC and resource polls, log
  batch timeout, metadata check, self report) is zero or negative, which the validation does not
  look at; and in every other case it collects, and every collector enabled is wired up: it
  gets its buffer, the log collector its source, the OTLP relay its channel, and no disabled
  one does.\<close>

theorem validated_config_collects:
  assumes valid: "validate_sn c = None" and start: "start_sentinel dirs now c = res"
  shows "case res of
       StartFailed err \<Rightarrow> \<exists>keys. err = SnKeysError keys \<and> sn_noise_config dirs c = Inl keys
     | NoCollectors \<Rightarrow> \<not> isl (sn_noise_config dirs c) \<and> \<not> any_collector_enabled c
     | Panicking ts \<Rightarrow> \<not> isl (sn_noise_config dirs c) \<and> bad_interval c
     | Collecting rn \<Rightarrow> \<not> isl (sn_noise_config dirs c) \<and> any_collector_enabled c \<and> \<not> bad_interval c \<and>
        (ap_rpc (rn_app rn) \<noteq> None \<longleftrightarrow> rp_enabled (sc_rpc c)) \<and>
        (ap_logs (rn_app rn) \<noteq> None \<longleftrightarrow> lg_enabled (sc_logs c)) \<and>
        (rn_source rn \<noteq> None \<longleftrightarrow> lg_enabled (sc_logs c)) \<and>
        (ap_resources (rn_app rn) \<noteq> None \<longleftrightarrow> re_enabled (sc_resources c)) \<and>
        (ap_metadata (rn_app rn) \<noteq> None \<longleftrightarrow> sc_metadata_enabled c) \<and>
        (ap_self (rn_app rn) \<noteq> None \<longleftrightarrow> sc_self_enabled c) \<and>
        (rn_relay rn \<noteq> None \<longleftrightarrow> sc_otlp_enabled c)"
proof (cases "sn_noise_config dirs c")
  case (Inl err)
  with start show ?thesis by (auto simp: start_sentinel_def)
next
  case (Inr nz)
  with validated_sender [OF valid] obtain s where
    "new_sender (sc_server_url c) (sc_server_token c) nz = Some s" by auto
  then have res: "res = (if \<not> any_collector_enabled c then NoCollectors
      else let src = configured_source c; ts = panicking_tickers c src
        in if ts \<noteq> [] then Panicking ts
           else Collecting
             \<lparr>rn_sender = s,
              rn_app = new_app now (rp_enabled (sc_rpc c)) (src \<noteq> None) (re_enabled (sc_resources c))
                (sc_metadata_enabled c) (sc_self_enabled c),
              rn_source = src, rn_relay = (if sc_otlp_enabled c then Some new_relay else None)\<rparr>)"
    using Inr start by (simp add: start_sentinel_def)
  show ?thesis
  proof (cases "any_collector_enabled c \<and> \<not> bad_interval c")
    case True
    then have "panicking_tickers c (configured_source c) = []" using panicking_tickers_bad [OF valid] by simp
    then show ?thesis using True Inr configured_source_validated [OF valid] unfolding res
      by (simp add: Let_def new_app_def new_buffer_def rpc_buffer_size_def logs_buffer_size_def
          resources_buffer_size_def metadata_buffer_size_def self_buffer_size_def)
  next
    case False
    then show ?thesis using Inr panicking_tickers_bad [OF valid] by (auto simp: res Let_def)
  qed
qed

lemma default_sn_config_valid: "validate_sn default_sn_config = None"
  using generated_config_valid [of "\<lparr>en_docker = None, en_journald = None, en_binary = None\<rparr>"]
  by (simp add: apply_detection_def Let_def)

definition zero_poll_config :: sn_config where
  "zero_poll_config = default_sn_config\<lparr>sc_rpc := (sc_rpc default_sn_config)\<lparr>rp_poll_interval := 0\<rparr>,
     sc_logs := (sc_logs default_sn_config)\<lparr>lg_batch_timeout := second\<rparr>,
     sc_resources := (sc_resources default_sn_config)\<lparr>re_poll_interval := second\<rparr>,
     sc_metadata := (sc_metadata default_sn_config)\<lparr>mc_check_interval := second\<rparr>,
     sc_self_report_interval := second\<rparr>"

lemma zero_poll_config_valid: "validate_sn zero_poll_config = None"
  unfolding zero_poll_config_def intervals_not_validated by (rule default_sn_config_valid)

theorem validated_config_collects_witness:
  "\<forall>dirs. (\<exists>rn. (start_sentinel dirs 0 default_sn_config :: (unit, unit, unit) sn_start) = Collecting rn \<and>
     ap_rpc (rn_app rn) \<noteq> None \<and> rn_source rn \<noteq> None \<and> ap_self (rn_app rn) \<noteq> None \<and> rn_relay rn \<noteq> None) \<and>
     (\<exists>ts. (start_sentinel dirs 0 zero_poll_config :: (unit, unit, unit) sn_start) = Panicking ts)"
proof
  fix dirs :: "string \<Rightarrow> key_dir"
  have n: "sn_noise_config dirs default_sn_config = Inr None" "sn_noise_config dirs zero_poll_config = Inr None"
    by (simp_all add: sn_noise_config_def is_noise_scheme_def default_sn_config_def has_prefix_def zero_poll_config_def)
  have a: "any_collector_enabled default_sn_config" "rp_enabled (sc_rpc default_sn_config)"
      "lg_enabled (sc_logs default_sn_config)" "sc_self_enabled default_sn_config" "sc_otlp_enabled default_sn_config"
    by (simp_all add: any_collector_enabled_def default_sn_config_def)
  have b: "\<not> bad_interval default_sn_config" "bad_interval zero_poll_config"
    by (simp_all add: bad_interval_def zero_poll_config_def default_sn_config_def duration_units)
  note t = validated_config_collects [OF default_sn_config_valid refl, where 'a = unit and 'b = unit and 'c = unit, of dirs 0]
    validated_config_collects [OF zero_poll_config_valid refl, where 'a = unit and 'b = unit and 'c = unit, of dirs 0]
  show "(\<exists>rn. (start_sentinel dirs 0 default_sn_config :: (unit, unit, unit) sn_start) = Collecting rn \<and>
     ap_rpc (rn_app rn) \<noteq> None \<and> rn_source rn \<noteq> None \<and> ap_self (rn_app rn) \<noteq> None \<and> rn_relay rn \<noteq> None) \<and>
     (\<exists>ts. (start_sentinel dirs 0 zero_poll_config :: (unit, unit, unit) sn_start) = Panicking ts)"
    using t n a b bad_interval_enabled [OF b(2)]
    by (cases "start_sentinel dirs 0 default_sn_config :: (unit, unit, unit) sn_start";
        cases "start_sentinel dirs 0 zero_poll_config :: (unit, unit, unit) sn_start") auto
qed

text \<open>Only a \<open>POST\<close> of metrics changes what the relay has handed on or dropped.\<close>

lemma relay_serve_state:
  "relay_serve e r rl = (resp, rl') \<Longrightarrow> rl' \<noteq> rl \<Longrightarrow>
   rq_method r = ''POST'' \<and> rq_path r = ''/v1/metrics'' \<and> (resp, rl') = relay_metrics e r rl"
  by (auto simp: relay_serve_def relay_traces_def split: if_splits)

lemma tail_loop_prefix: "prefix (tail_loop ts) (concat (map tn_lines ts))"
  by (induction ts) (auto simp: prefix_append)

lemma tail_loop_all:
  "list_all (\<lambda>t. \<not> tn_done_before t \<and> \<not> tn_done_in_pause t) ts \<Longrightarrow> tail_loop ts = concat (map tn_lines ts)"
  by (induction ts) auto

section \<open>Two readers of the same statistics\<close>

lemma round_duration_near:
  assumes "int64_range d" "0 < m" "\<bar>d\<bar> + m < 2 ^ 63"
  shows "m dvd round_duration m d \<and> 2 * \<bar>round_duration m d - d\<bar> \<le> m"
proof -
  have r: "0 \<le> \<bar>d\<bar> mod m" "\<bar>d\<bar> mod m < m" using assms(2) by simp_all
  have dv: "m dvd \<bar>d\<bar> - \<bar>d\<bar> mod m" by (simp add: minus_mod_eq_mult_div)
  have w: "wrap64 (d - m + \<bar>d\<bar> mod m) = d - m + \<bar>d\<bar> mod m" "wrap64 (d + m - \<bar>d\<bar> mod m) = d + m - \<bar>d\<bar> mod m"
    using assms r by (auto simp: int64_range_def intro!: wrap64_id)
  show ?thesis
  proof (cases "d < 0")
    case True
    have "m dvd d + \<bar>d\<bar> mod m" "m dvd d - m + \<bar>d\<bar> mod m"
      using dv True by (metis abs_of_neg dvd_minus_iff minus_diff_eq diff_minus_eq_add add.commute,
        metis (no_types, opaque_lifting) abs_of_neg add.commute diff_minus_eq_add dvd_minus_iff dvd_triv_left
          minus_diff_eq add_diff_eq diff_add_eq dvd_diff_right_iff dvd_refl)
    with True r w show ?thesis by (auto simp: round_duration_def Let_def)
  next
    case False
    then have "m dvd d - \<bar>d\<bar> mod m" "m dvd d + m - \<bar>d\<bar> mod m"
      using dv by (simp, metis abs_of_nonneg add.commute add_diff_eq dv dvd_add dvd_refl linorder_not_less)
    with False r w show ?thesis by (auto simp: round_duration_def Let_def)
  qed
qed

lemma fold_wrapped_sum:
  "int64_range x \<Longrightarrow> foldl (\<lambda>n (reason, k). wrap64 (n + k)) x m = wrap64 (x + sum_list (map snd m))"
  by (induction m arbitrary: x) (auto simp: wrap64_range add.assoc)

lemma incr_count_sum: "wrap64 (sum_list (map snd (incr_count r m))) = wrap64 (sum_list (map snd m) + 1)"
proof (induction m)
  case (Cons p m)
  obtain a b where p: "p = (a, b)" by (cases p)
  show ?case
  proof (cases "a = r")
    case True
    have "wrap64 (wrap64 (b + 1) + sum_list (map snd m)) = wrap64 (b + sum_list (map snd m) + 1)"
      by (simp add: ac_simps)
    with p True show ?thesis by (simp add: incr_count_def count_of_def)
  next
    case False
    then have "incr_count r (p # m) = p # incr_count r m" by (simp add: incr_count_def count_of_def p)
    then show ?thesis using Cons.IH by (metis add.assoc list.simps(9) sum_list.Cons wrap64_add_right)
  qed
qed (simp add: incr_count_def count_of_def)

definition drops_recorded :: "string \<Rightarrow> stat_event list \<Rightarrow> int" where
  "drops_recorded typ evs = int (length (filter (\<lambda>ev. \<exists>reason. ev = DropEvent typ reason) evs))"

abbreviation last_drop_sum :: "string \<Rightarrow> sn_stats \<Rightarrow> int" where
  "last_drop_sum typ st \<equiv> sum_list (map snd (en_last_drops (get_or_create typ st)))"

lemma last_drop_sum_run:
  "wrap64 (last_drop_sum typ (fold stat_apply evs st)) = wrap64 (last_drop_sum typ st + drops_recorded typ evs)"
proof (induction evs arbitrary: st)
  case (Cons ev evs)
  have step: "wrap64 (last_drop_sum typ (stat_apply ev st)) = wrap64 (last_drop_sum typ st + drops_recorded typ [ev])"
    by (cases ev) (auto simp: record_sent_def record_drop_def Let_def get_or_create_update incr_count_sum drops_recorded_def)
  have d: "drops_recorded typ (ev # evs) = drops_recorded typ [ev] + drops_recorded typ evs"
    by (simp add: drops_recorded_def)
  have "wrap64 (last_drop_sum typ (fold stat_apply (ev # evs) st)) =
      wrap64 (wrap64 (last_drop_sum typ (stat_apply ev st)) + drops_recorded typ evs)"
    using Cons.IH by simp
  then show ?case unfolding step d by (simp add: add.assoc)
qed (simp add: drops_recorded_def)

lemma log_stats_group:
  "map_of (snd (fst (log_stats now st))) typ =
     map_option (\<lambda>e. stats_group_of (snapshot_entry e)) (map_of (ss_data st) typ)"
  by (simp add: log_stats_def sn_snapshot_def map_of_map_values option.map_comp comp_def del: map_map)

text \<open>The statistics line reports, for each type, exactly the drops recorded since the
  statistics were last read, all reasons together, in a 64-bit count; and the reading before
  may have been the self collector's: a report sent between two lines takes the drops
  recorded before it out of the second line.\<close>

lemma stats_line_counts_drops:
  assumes "map_of (snd (fst (log_stats now (fold stat_apply evs (snd (self_emit t1 t2 st)))))) typ = Some g"
  shows "sg_last_drops g = wrap64 (drops_recorded typ evs)"
proof -
  let ?st = "fold stat_apply evs (snd (self_emit t1 t2 st))"
  obtain e where e: "map_of (ss_data ?st) typ = Some e" "g = stats_group_of (snapshot_entry e)"
    using assms by (auto simp: log_stats_group)
  have "snd (self_emit t1 t2 st) = snd (sn_snapshot t1 st)"
    by (simp add: self_emit_def Let_def case_prod_unfold)
  then have "last_drop_sum typ (snd (self_emit t1 t2 st)) = 0"
    by (simp add: get_or_create_snapshot reset_entry_def)
  then have "wrap64 (last_drop_sum typ ?st) = wrap64 (drops_recorded typ evs)"
    by (simp add: last_drop_sum_run)
  moreover have "get_or_create typ ?st = e" using e(1) by (simp add: get_or_create_def)
  ultimately show ?thesis
    by (simp add: e(2) stats_group_of_def snapshot_entry_def fold_wrapped_sum int64_range_def)
qed

lemma stats_line_counts_drops_witness:
  "\<exists>g. map_of (snd (fst (log_stats 60000000000 (fold stat_apply
         [DropEvent ''rpc'' ''buffer_full'', SentEvent ''rpc'' 10 10, DropEvent ''rpc'' ''retry_exhausted'']
         (snd (self_emit 0 0 (record_drop ''rpc'' ''buffer_full'' (new_sn_stats 0)))))))) ''rpc'' = Some g \<and>
     sg_last_drops g = 2"
proof -
  let ?evs = "[DropEvent ''rpc'' ''buffer_full'', SentEvent ''rpc'' 10 10, DropEvent ''rpc'' ''retry_exhausted'']"
  let ?st = "fold stat_apply ?evs (snd (self_emit 0 0 (record_drop ''rpc'' ''buffer_full'' (new_sn_stats 0))))"
  have "map_of (ss_data ?st) ''rpc'' \<noteq> None" by (simp add: record_sent_def record_drop_def Let_def update_conv')
  then obtain g where g: "map_of (snd (fst (log_stats 60000000000 ?st))) ''rpc'' = Some g"
    by (auto simp: log_stats_group)
  from stats_line_counts_drops [OF g] g show ?thesis by (simp add: drops_recorded_def int64_range_def)
qed

end
