(* ===== verification/Sn_Detect.thy ===== *)
theory Sn_Detect
  imports Commands Termstyle
begin

text \<open>
  The probes behind a generated sentinel configuration (\<open>internal/sentinel/config/detect.go\<close>):
  what each looks at, what it prints and what it reports. The docker client, \<open>systemctl\<close>,
  the search path, symbolic links and the files that exist are the record \<open>detect_env\<close>.
\<close>

section \<open>The probes\<close>

record detect_env =
  dt_colors :: bool
  dt_containers :: "(string list \<times> (nat \<times> nat) list) list option"
  dt_units :: "string option"
  dt_look_path :: "string option"
  dt_resolve :: "string \<Rightarrow> string option"
  dt_exists :: "string \<Rightarrow> bool"

definition detect_docker :: "detect_env \<Rightarrow> string list \<times> docker_result option" where
  "detect_docker e =
     (case dt_containers e of
        None \<Rightarrow> ([fail_line (dt_colors e) ''Docker container'' ''not available''], None)
      | Some cs \<Rightarrow>
          (case probe_docker cs of
             Some res \<Rightarrow> ([ok_line (dt_colors e) ''Docker container'' (dr_container_name res)], Some res)
           | None \<Rightarrow> ([fail_line (dt_colors e) ''Docker container'' ''not found''], None)))"

definition detect_journald :: "detect_env \<Rightarrow> string list \<times> string option" where
  "detect_journald e =
     (case dt_units e of
        None \<Rightarrow> ([fail_line (dt_colors e) ''Journald service'' ''not available''], None)
      | Some out \<Rightarrow>
          (case probe_journald (Some out) of
             Some unit \<Rightarrow> ([ok_line (dt_colors e) ''Journald service'' unit], Some unit)
           | None \<Rightarrow> ([fail_line (dt_colors e) ''Journald service'' ''not found''], None)))"

text \<open>\<open>filepath.Dir\<close> and \<open>filepath.Join\<close> on an absolute path without \<open>.\<close>, \<open>..\<close> or doubled
  separators, as \<open>LookPath\<close> and \<open>EvalSymlinks\<close> return it.\<close>

definition file_dir :: "string \<Rightarrow> string" where
  "file_dir path =
     (case last_index_of (CHR ''/'') path of
        None \<Rightarrow> ''.''
      | Some i \<Rightarrow> if i = 0 then ''/'' else take i path)"

definition join_path :: "string \<Rightarrow> string \<Rightarrow> string" where
  "join_path dir rel = (if dir = ''/'' then ''/'' @ rel else dir @ ''/'' @ rel)"

definition detect_binary :: "detect_env \<Rightarrow> string list \<times> binary_result option" where
  "detect_binary e =
     (case dt_look_path e of
        None \<Rightarrow> ([fail_line (dt_colors e) ''Gnoland binary'' ''not found''], None)
      | Some bin_path \<Rightarrow>
          (let resolved = (case dt_resolve e bin_path of None \<Rightarrow> bin_path | Some target \<Rightarrow> target);
               config_path = join_path (file_dir resolved) ''gnoland-data/config/config.toml'';
               found = ok_line (dt_colors e) ''Gnoland binary'' resolved
           in if dt_exists e config_path then
                ([found, sub_ok_line (dt_colors e) ''config.toml'' config_path],
                 Some \<lparr>br_path = resolved, br_config_path = config_path\<rparr>)
              else
                ([found, sub_fail_line (dt_colors e) ''config.toml'' ''not found''],
                 Some \<lparr>br_path = resolved, br_config_path = []\<rparr>)))"

definition detect :: "detect_env \<Rightarrow> string list \<times> environment" where
  "detect e =
     (let (l1, d) = detect_docker e; (l2, j) = detect_journald e; (l3, b) = detect_binary e
      in (''Detecting environment...'' # l1 @ l2 @ l3, \<lparr>en_docker = d, en_journald = j, en_binary = b\<rparr>))"

section \<open>What a generated configuration refers to\<close>

lemma find_name_sound:
  "find_name ns = Some n \<Longrightarrow> contains n ''gnoland'' \<and> (\<exists>m \<in> set ns. n = trim_prefix m ''/'')"
  by (induction ns) (auto simp: Let_def split: if_splits)

lemma probe_docker_sound:
  "probe_docker cs = Some res \<Longrightarrow>
     contains (dr_container_name res) ''gnoland'' \<and>
     (\<exists>(ns, ports) \<in> set cs. (\<exists>m \<in> set ns. dr_container_name res = trim_prefix m ''/'') \<and>
        (dr_rpc_port res = 0 \<or> (gnoland_rpc_port, dr_rpc_port res) \<in> set ports))"
proof (induction cs rule: probe_docker.induct)
  case (2 ns ports cs)
  show ?case
  proof (cases "find_name ns")
    case None
    with 2 show ?thesis by auto
  next
    case (Some n)
    have "find_rpc_port ports = 0 \<or> (gnoland_rpc_port, find_rpc_port ports) \<in> set ports"
      by (auto simp: find_rpc_port_def find_Some_iff split: option.split) (metis nth_mem)
    with Some 2(2) find_name_sound [OF Some] show ?thesis by auto
  qed
qed simp

lemma detect_docker_found:
  "snd (detect_docker e) = Some res \<longleftrightarrow> (\<exists>cs. dt_containers e = Some cs \<and> probe_docker cs = Some res)"
  by (auto simp: detect_docker_def split: option.splits)

lemma detect_binary_config:
  "snd (detect_binary e) = Some b \<Longrightarrow> br_config_path b \<noteq> [] \<Longrightarrow> dt_exists e (br_config_path b)"
  by (auto simp: detect_binary_def Let_def split: option.splits if_splits)

text \<open>A generated configuration names only what was there: its container is a running container
  whose name mentions gnoland, with the port that container publishes for the RPC, and its
  metadata path is the placeholder or a file that exists.\<close>

lemma generated_config_refers_to_found:
  assumes "c = apply_detection (snd (detect e)) default_sn_config"
  shows "(lg_source (sc_logs c) = ''docker'' \<longrightarrow>
        lg_container_name (sc_logs c) = lg_container_name (sc_logs default_sn_config) \<or>
        (\<exists>cs ns ports m. dt_containers e = Some cs \<and> (ns, ports) \<in> set cs \<and> m \<in> set ns \<and>
           lg_container_name (sc_logs c) = trim_prefix m ''/'' \<and>
           contains (lg_container_name (sc_logs c)) ''gnoland'')) \<and>
     (mc_config_path (sc_metadata c) = mc_config_path (sc_metadata default_sn_config) \<or>
        dt_exists e (mc_config_path (sc_metadata c)))"
proof -
  obtain d j b where p: "snd (detect_docker e) = d" "snd (detect_journald e) = j" "snd (detect_binary e) = b"
    by simp
  have s: "snd (detect e) = \<lparr>en_docker = d, en_journald = j, en_binary = b\<rparr>"
    using p by (simp add: detect_def case_prod_unfold Let_def)
  have bin: "mc_config_path (sc_metadata c) = mc_config_path (sc_metadata default_sn_config) \<or>
      dt_exists e (mc_config_path (sc_metadata c))"
    using detect_binary_config [of e] p(3)
    by (auto simp: assms s apply_detection_def Let_def split: option.split)
  show ?thesis
  proof (cases d)
    case None
    then show ?thesis using bin by (auto simp: assms s apply_detection_def Let_def split: option.splits)
  next
    case (Some res)
    with p(1) obtain cs where cs: "dt_containers e = Some cs" "probe_docker cs = Some res"
      by (auto simp: detect_docker_found)
    have "lg_container_name (sc_logs c) = dr_container_name res"
      by (simp add: assms s Some apply_detection_def Let_def split: option.split)
    with bin cs(1) probe_docker_sound [OF cs(2)] show ?thesis by fastforce
  qed
qed

end
