(* ===== verification/End_To_End.thy ===== *)
theory End_To_End
  imports Watchtower_Run Sn_App
begin

text \<open>
  The sentinel's sender against the watchtower's server: the attempts of one send, each served
  in turn, with every answer delivered. What the sender takes for sent is what the watchtower
  has counted.
\<close>

section \<open>The exchange\<close>

text \<open>The sender's request as the watchtower's HTTP server hands it over.\<close>

definition arrived :: "string \<Rightarrow> string \<Rightarrow> send_request \<Rightarrow> http_request" where
  "arrived addr path q =
     \<lparr>rq_method = ''POST'', rq_path = path, rq_query = [], rq_headers = sq_headers q, rq_remote_addr = addr,
      rq_body = sq_body q, rq_body_fails = False\<rparr>"

text \<open>The server before the \<open>i\<close>-th attempt, and its answer to it.\<close>

fun before_attempt ::
  "(nat \<Rightarrow> ('l, 'v, 'x, 'm, 'q) env) \<Rightarrow> http_request \<Rightarrow> 'l server \<Rightarrow> nat \<Rightarrow> 'l server" where
  "before_attempt e r s 0 = s"
| "before_attempt e r s (Suc i) = sr_state (serve (e i) r (before_attempt e r s i))"

definition answer ::
  "(nat \<Rightarrow> ('l, 'v, 'x, 'm, 'q) env) \<Rightarrow> http_request \<Rightarrow> 'l server \<Rightarrow> nat \<Rightarrow> send_outcome" where
  "answer e r s i =
     (let resp = sr_response (serve (e i) r (before_attempt e r s i))
      in ServerResponse (rs_status resp) (rs_headers resp))"

section \<open>What an attempt counts\<close>

lemma before_attempt_tokens [simp]: "tokens (sv_auth (before_attempt e r s i)) = tokens (sv_auth s)"
  by (induction i) simp_all

lemma before_attempt_ok: "stats_ok (sv_stats s) \<Longrightarrow> stats_ok (sv_stats (before_attempt e r s i))"
  using wt_step_entry(3) [where ev = "Request (e j) r" for j] by (induction i) simp_all

lemma before_attempt_total:
  assumes "stats_ok (sv_stats s)"
  shows "e_total (entry_at (sv_stats (before_attempt e r s n)) k) =
    wrap64 (e_total (entry_at (sv_stats s) k) + (\<Sum>i<n. accepted_bytes k (e i) r (before_attempt e r s i)))"
proof (induction n)
  case 0
  then show ?case using assms by (simp add: stats_ok_wrap)
next
  case (Suc n)
  then show ?case by (simp add: serve_entry [OF before_attempt_ok [OF assms]] add.assoc)
qed

text \<open>A payload request is answered 200 or not with a 2xx status at all.\<close>

lemma payload_status:
  assumes "\<not> must_redirect r" "inner_route r = Payload perm"
  shows "rs_status (sr_response (serve e r s)) \<in> {200, 400, 401, 403, 429, 502}"
proof -
  have h: "rs_status (sr_response (handle_payload e perm name v r t)) \<in> {200, 400, 403, 502}" for name v t
    by (simp add: handle_payload_def Let_def http_status ok_response_def split: option.split)
  have "rs_status (sr_response (protected_chain e r s)) \<in> {200, 400, 401, 403, 429, 502}"
  proof (cases "ar_verdict (auth_middleware (ev_clock e) r (sv_auth s))")
    case (Rejected resp)
    with protected_chain_rejected [OF Rejected] auth_rejected_status [OF Rejected] show ?thesis by auto
  next
    case a: (Authenticated name v)
    show ?thesis
    proof (cases "fst (allow (ev_new_bucket e) (ev_allow_bucket e) (ev_limit_now e) name (sv_rl s))")
      case False
      with protected_chain_limited [OF a] show ?thesis by simp
    next
      case True
      obtain s2 where "protected_chain e r s = inner_mux e name v r s2"
        using protected_chain_admitted [OF a True] by metis
      then show ?thesis using h [of name v s2] assms(2) by (auto simp: inner_mux_def)
    qed
  qed
  then show ?thesis using assms by (simp add: serve_def Payload_protected)
qed

lemma payload_request:
  assumes "perm \<in> {''rpc'', ''metrics'', ''logs'', ''otlp''}"
  shows "\<not> must_redirect (arrived addr (''/'' @ perm) q) \<and> inner_route (arrived addr (''/'' @ perm) q) = Payload perm"
  using assms
  by (auto simp: arrived_def must_redirect_def clean_path_def step_segment_def inner_route_def)

lemma accepted_iff_200:
  assumes "inner_route r = Payload perm" "tokens (sv_auth s) (bearer_token r) = Some \<lparr>te_validator_name = name, te_config = v\<rparr>"
  shows "accepted_bytes (name, perm) e r s =
    (if rs_status (sr_response (serve e r s)) = 200 then int (length (rq_body r)) else 0)"
proof (cases "rs_status (sr_response (serve e r s)) = 200")
  case True
  with bytes_counted_iff_accepted [of r e s] assms(1) obtain name' v' where
      a: "ar_verdict (auth_middleware (ev_clock e) r (sv_auth s)) = Authenticated name' v'"
    by auto
  then have "name' = name" using assms(2) by (simp add: auth_middleware_authenticated_iff)
  with a True assms(1) show ?thesis by (simp add: accepted_bytes_def)
next
  case False
  then show ?thesis using assms by (simp add: accepted_bytes_def split: auth_verdict.split)
qed

lemma send_post_answer:
  "send_post (\<lambda>q. answer e (arrived addr path q) s i) sd path body ct ce = None \<longleftrightarrow>
     (let status = rs_status (sr_response (serve (e i) (arrived addr path (build_request sd path body ct ce))
                      (before_attempt e (arrived addr path (build_request sd path body ct ce)) s i)))
      in 200 \<le> status \<and> status < 300)"
  by (simp add: send_post_def answer_def Let_def http_status split: option.split)

lemma bearer_of_sender: "bearer_token (arrived addr path (build_request sd path body ct ce)) = sd_token sd"
  by (simp add: bearer_token_def arrived_def build_request_def header_get_def cut_prefix_def has_prefix_def)

text \<open>What an admitted payload makes the watchtower post.\<close>

lemma admitted_payload_posted:
  assumes perm: "perm \<in> {''rpc'', ''metrics'', ''logs'', ''otlp''}"
    and r: "r = arrived addr (''/'' @ perm) (build_request sd (''/'' @ perm) body ct ce)"
    and admitted: "ar_verdict (auth_middleware (ev_clock e) r (sv_auth s)) = Authenticated name v"
      "fst (allow (ev_new_bucket e) (ev_allow_bucket e) (ev_limit_now e) name (sv_rl s))"
    and allowed: "perm \<in> set (vc_permissions v)" "length body \<le> 50 * 2 ^ 20"
  shows "sr_posted (serve e r s) = fr_posted (forward_payload e (sv_fwd s) perm name v body)"
proof -
  have p: "\<not> must_redirect r" "inner_route r = Payload perm" using payload_request [OF perm] by (simp_all add: r)
  obtain s2 where s2: "protected_chain e r s = inner_mux e name v r s2" "sv_fwd s2 = sv_fwd s"
    by (rule protected_chain_admitted [OF admitted])
  have body: "rq_body r = body" "\<not> rq_body_fails r" by (simp_all add: r arrived_def build_request_def)
  from p s2 body allowed show ?thesis
    by (simp add: serve_def Payload_protected inner_mux_def handle_payload_def max_body_bytes_def Let_def split: option.split)
qed

section \<open>Sent means counted, once\<close>

text \<open>If an attempt counts something only when it succeeds, the whole retry counts it at most once.\<close>

lemma retry_sum:
  fixes acc :: "nat \<Rightarrow> int"
  assumes "retry_ok fn n 0 res made" and acc: "\<And>i. acc i = (if fn i = None then c else 0)"
  shows "(\<Sum>i<made. acc i) = (if res = Sent then c else 0)"
proof (cases "res = Sent")
  case True
  then obtain k where k: "made = Suc k" "fn k = None" "\<forall>j<k. fn j \<noteq> None"
    using assms(1) by (cases made) (auto simp: retry_ok_def list_all_iff)
  have "(\<Sum>i<k. acc i) = 0" using k(3) acc by (intro sum.neutral) auto
  with True k acc show ?thesis by simp
next
  case False
  then have "\<forall>j<made. fn j \<noteq> None"
    using assms(1) by (cases res) (auto simp: retry_ok_def list_all_iff)
  with acc have "(\<Sum>i<made. acc i) = 0" by (intro sum.neutral) auto
  with False show ?thesis by simp
qed

text \<open>Let the sender post a payload to the watchtower with the token of one of its validators,
  retrying as it does, with every answer delivered: if the send succeeds, the watchtower has
  counted the body exactly once for that validator and type, and if it gives up or is
  cancelled, not at all, however many attempts were made.\<close>

lemma sent_iff_counted_once:
  assumes perm: "perm \<in> {''rpc'', ''metrics'', ''logs'', ''otlp''}" and ok: "stats_ok (sv_stats s)"
    and token: "tokens (sv_auth s) (sd_token sd) = Some \<lparr>te_validator_name = name, te_config = v\<rparr>"
    and r: "r = arrived addr (''/'' @ perm) (build_request sd (''/'' @ perm) body ct ce)"
    and send: "retry (\<lambda>i. send_post (\<lambda>q. answer e (arrived addr (''/'' @ perm) q) s i) sd (''/'' @ perm) body ct ce)
      cancel m b = (res, evs)"
  shows "e_total (entry_at (sv_stats (before_attempt e r s (attempts evs))) (name, perm)) =
    wrap64 (e_total (entry_at (sv_stats s) (name, perm)) + (if res = Sent then int (length body) else 0))"
proof -
  let ?fn = "\<lambda>i. send_post (\<lambda>q. answer e (arrived addr (''/'' @ perm) q) s i) sd (''/'' @ perm) body ct ce"
  let ?acc = "\<lambda>i. accepted_bytes (name, perm) (e i) r (before_attempt e r s i)"
  have p: "\<not> must_redirect r" "inner_route r = Payload perm" using payload_request [OF perm] by (simp_all add: r)
  have body: "rq_body r = body" by (simp add: r arrived_def build_request_def)
  have acc: "?acc i = (if ?fn i = None then int (length body) else 0)" for i
    using accepted_iff_200 [OF p(2), of "before_attempt e r s i" name v "e i"] token
      payload_status [OF p, of "e i" "before_attempt e r s i"]
    by (auto simp: send_post_answer Let_def body bearer_of_sender simp flip: r) (simp_all add: r bearer_of_sender)
  have "retry_ok ?fn (nat m) 0 res (attempts evs)"
    using retry_loop_ok [of ?fn "nat m" 0 cancel m 0 b False None] send by (simp add: retry_def)
  then have "(\<Sum>i<attempts evs. ?acc i) = (if res = Sent then int (length body) else 0)"
    using retry_sum [of ?fn "nat m" res "attempts evs" ?acc "int (length body)"] acc by blast
  then show ?thesis using before_attempt_total [OF ok, of e r "attempts evs" "(name, perm)"] by simp
qed

definition demo_sender :: "unit sender" where
  "demo_sender = \<lparr>sd_server_url = ''http://wt:8080'', sd_token = ''tok'', sd_transport = Plain\<rparr>"

abbreviation demo_attempt :: "nat \<Rightarrow> send_error option" where
  "demo_attempt \<equiv> \<lambda>i. send_post (\<lambda>q. answer (\<lambda>_. demo_env) (arrived ''10.0.0.7:40000'' ''/rpc'' q) demo_server i)
     demo_sender ''/rpc'' sample_rpc_body ''application/json'' []"

abbreviation demo_arrived :: http_request where
  "demo_arrived \<equiv> arrived ''10.0.0.7:40000'' ''/rpc''
     (build_request demo_sender ''/rpc'' sample_rpc_body ''application/json'' [])"

lemma demo_admitted:
  "ar_verdict (auth_middleware (ev_clock demo_env) (arrived addr path (build_request demo_sender path body ct ce))
     (sv_auth demo_server)) = Authenticated ''v1'' demo_validator"
proof -
  have "bearer_token (arrived addr path (build_request demo_sender path body ct ce)) = ''tok''"
    by (simp add: bearer_of_sender demo_sender_def)
  then show ?thesis
    by (simp add: auth_middleware_authenticated_iff demo_server_def new_server_def new_authenticator_def
        set_metrics_def is_banned_def maybe_sweep_def demo_validator_def Let_def)
qed

lemma demo_within_limit:
  "fst (allow (ev_new_bucket demo_env) (ev_allow_bucket demo_env) (ev_limit_now demo_env) ''v1'' (sv_rl demo_server))"
  by (simp add: demo_env_def allow_def)

lemma demo_arrived_accepted: "rs_status (sr_response (serve demo_env demo_arrived demo_server)) = 200"
proof -
  have r: "\<not> must_redirect demo_arrived" "inner_route demo_arrived = Payload ''rpc''"
    using payload_request [of "''rpc''"] by simp_all
  obtain s2 where s2: "protected_chain demo_env demo_arrived demo_server =
      inner_mux demo_env ''v1'' demo_validator demo_arrived s2"
    by (rule protected_chain_admitted [OF demo_admitted demo_within_limit])
  have "fr_error (forward_rpc (ev_client demo_env) (sv_fwd s2) ''v1'' sample_rpc_body) = None"
    using sample_lines by (auto simp: forward_rpc_def post_vm_lines_def post_def post_error_def demo_env_def)
  moreover have "length sample_rpc_body \<le> max_body_bytes"
    by (simp add: sample_rpc_body_def max_body_bytes_def)
  ultimately show ?thesis
    using r s2 by (simp add: serve_def Payload_protected inner_mux_def handle_payload_def forward_payload_def
        demo_validator_def arrived_def build_request_def ok_response_def http_status Let_def)
qed

end
