(* ===== verification/Json_Compact.thy ===== *)
theory Json_Compact
  imports Json_Roundtrip
begin

text \<open>
  Compaction, as \<open>json.Marshal\<close> applies it to a \<open>RawMessage\<close>: what a parser reads from a text
  it reads from the compacted text too. Every lemma follows one scanner and gives, for the
  part \<open>q\<close> of the input it consumed, the compacted form \<open>p\<close> it reads the same from.
\<close>

section \<open>Plain characters and white space\<close>

definition plain_char :: "char \<Rightarrow> bool" where
  "plain_char c \<longleftrightarrow> \<not> json_space c \<and> c \<notin> {CHR ''<'', CHR ''>'', CHR ''&'', CHR 0x22, CHR 0xE2}"

declare compact_html.simps [simp del]

lemma compact_plain: "plain_char c \<Longrightarrow> compact (c # s) = c # compact s"
  by (simp add: compact_def compact_html.simps plain_char_def Let_def)

lemma compact_plain_list: "list_all plain_char q \<Longrightarrow> compact (q @ u) = q @ compact u"
  by (induction q) (simp_all add: compact_plain)

lemma compact_space: "json_space c \<Longrightarrow> compact (c # s) = compact s"
  by (simp add: compact_def compact_html.simps)

lemma compact_spaces: "list_all json_space w \<Longrightarrow> compact (w @ u) = compact u"
  by (induction w) (simp_all add: compact_space)

lemma compact_Nil [simp]: "compact [] = []"
  by (simp add: compact_def compact_html.simps)

lemma skip_ws_split: "\<exists>w. s = w @ skip_ws s \<and> list_all json_space w"
  unfolding skip_ws_def
  by (metis list_all_iff set_takeWhileD takeWhile_dropWhile_id)

lemma structural_plain [simp]:
  "plain_char (CHR ''{'')" "plain_char (CHR ''}'')" "plain_char (CHR ''['')" "plain_char (CHR '']'')"
  "plain_char (CHR '','')" "plain_char (CHR '':'')"
  by (simp_all add: plain_char_def)

section \<open>String literals\<close>

definition cont :: "char \<Rightarrow> bool" where
  "cont c \<longleftrightarrow> 128 \<le> (of_char c :: nat) \<and> (of_char c :: nat) \<le> 191"

text \<open>The body of a literal up to and with its closing quote. The last two conditions say what
  scanning the character before needs to know of the bytes that follow it.\<close>

definition literal_compacts :: "string \<Rightarrow> string \<Rightarrow> string \<Rightarrow> bool" where
  "literal_compacts q p v \<longleftrightarrow>
     CHR 0x22 \<in> set q \<and>
     (\<forall>u. compact_html True False (q @ u) = p @ compact u) \<and>
     (\<forall>u m. length p \<le> m \<longrightarrow> scan_string m (p @ u) = Some (v, u)) \<and>
     (\<forall>u u'. takeWhile cont (p @ u) = takeWhile cont (q @ u')) \<and>
     (\<forall>u u' n y. unicode_escape (p @ u) = Some (n, y) \<and> 56320 \<le> n \<longrightarrow>
        (\<exists>y'. unicode_escape (q @ u') = Some (n, y')))"

lemma literal_quote: "literal_compacts [CHR 0x22] [CHR 0x22] []"
proof -
  have "scan_string m (CHR 0x22 # u) = Some ([], u)" if "1 \<le> m" for m u
    using that by (cases m) auto
  then show ?thesis
    by (auto simp: literal_compacts_def compact_def compact_html.simps cont_def unicode_escape_def
        json_space_def split: list.splits)
qed

text \<open>What is put in front of a literal: its compacted form, and the value it adds.\<close>

lemma literal_extend:
  assumes lit: "literal_compacts q p v"
    and comp: "\<And>u. compact_html True False (a @ q @ u) = b @ compact_html True False (q @ u)"
    and scan: "\<And>u m. length (b @ p) \<le> Suc m \<Longrightarrow>
      scan_string (Suc m) (b @ p @ u) = map_option (\<lambda>(w, r). (x @ w, r)) (scan_string m (p @ u))"
    and b: "b \<noteq> []"
    and conts: "\<And>u u'. takeWhile cont (b @ p @ u) = takeWhile cont (a @ q @ u')"
    and esc: "\<And>u u' n y. unicode_escape (b @ p @ u) = Some (n, y) \<Longrightarrow> 56320 \<le> n \<Longrightarrow>
        \<exists>y'. unicode_escape (a @ q @ u') = Some (n, y')"
  shows "literal_compacts (a @ q) (b @ p) (x @ v)"
proof -
  have "scan_string m ((b @ p) @ u) = Some (x @ v, u)" if le: "length (b @ p) \<le> m" for m u
  proof -
    obtain m' where m: "m = Suc m'" using le b by (cases m; cases b) auto
    then have "length p \<le> m'" using le b by (cases b) auto
    with lit scan [of m' u] le m show ?thesis by (simp add: literal_compacts_def del: scan_string.simps)
  qed
  then show ?thesis
    using lit comp conts esc by (simp add: literal_compacts_def del: scan_string.simps) blast
qed

lemma literal_tails:
  assumes "literal_compacts q p v"
  shows "takeWhile cont (q @ u) = takeWhile cont q" "takeWhile cont (p @ u) = takeWhile cont q"
proof -
  have "\<not> cont (CHR 0x22)" by (simp add: cont_def)
  then show q: "takeWhile cont (q @ u) = takeWhile cont q" for u
    using assms by (auto simp: literal_compacts_def intro: takeWhile_append1)
  show "takeWhile cont (p @ u) = takeWhile cont q"
    using assms q by (auto simp: literal_compacts_def)
qed

lemma compact_in_string:
  "c \<notin> {CHR ''<'', CHR ''>'', CHR ''&'', CHR 0x22, CHR 0x5C, CHR 0xE2} \<Longrightarrow>
   compact_html True False (c # s) = c # compact_html True False s"
  by (simp add: compact_html.simps)

lemma not_escape: "c \<noteq> CHR 0x5C \<Longrightarrow> unicode_escape (c # s) = None"
  by (auto simp: unicode_escape_def split: list.split)

text \<open>One ordinary ASCII character.\<close>

lemma literal_ascii:
  assumes lit: "literal_compacts q p v" and c: "(of_char c :: nat) < 128" "32 \<le> (of_char c :: nat)"
    "c \<noteq> CHR 0x22" "c \<noteq> CHR 0x5C"
  shows "\<exists>b. literal_compacts (c # q) b (c # v)"
proof -
  have nc: "\<not> cont c" using c(1) by (simp add: cont_def)
  have e2: "c \<noteq> CHR 0xE2" using c(1) by auto
  show ?thesis
  proof (cases "c = CHR ''<'' \<or> c = CHR ''>'' \<or> c = CHR ''&''")
    case True
    let ?b = "[CHR 0x5C, CHR ''u'', CHR ''0'', CHR ''0'', hex_digit (of_char c div 16), hex_digit (of_char c mod 16)]"
    have e: "unicode_escape (?b @ t) = Some (int (of_char c), t)" for t
      using ascii_hex_escape [OF c(1), of t] by simp
    have s: "\<not> is_surrogate (int (of_char c))" using c(1) by (simp add: is_surrogate_def)
    have "literal_compacts ([c] @ q) (?b @ p) ([c] @ v)"
    proof (rule literal_extend [OF lit])
      show "scan_string (Suc m) (?b @ p @ u) = map_option (\<lambda>(w, r). ([c] @ w, r)) (scan_string m (p @ u))" for u m
        using scan_unicode [OF e s, of m "p @ u"] utf8_encode_ascii [OF c(1)] by (simp del: scan_string.simps)
      show "compact_html True False ([c] @ q @ u) = ?b @ compact_html True False (q @ u)" for u
        using True by (auto simp: compact_html.simps(2) [of True False c] Let_def)
      show "\<exists>y'. unicode_escape ([c] @ q @ u') = Some (n, y')"
        if "unicode_escape (?b @ p @ u) = Some (n, y)" "56320 \<le> n" for u u' n y
        using that e c(1) by simp
    qed (use nc in \<open>simp_all add: cont_def\<close>)
    then show ?thesis by auto
  next
    case False
    have "literal_compacts ([c] @ q) ([c] @ p) ([c] @ v)"
    proof (rule literal_extend [OF lit])
      show "compact_html True False ([c] @ q @ u) = [c] @ compact_html True False (q @ u)" for u
        using False c e2 by (simp add: compact_in_string)
      show "scan_string (Suc m) ([c] @ p @ u) = map_option (\<lambda>(w, r). ([c] @ w, r)) (scan_string m (p @ u))" for u m
        using scan_plain [OF c, of m "p @ u"] by (simp del: scan_string.simps)
    qed (use nc c not_escape in simp_all)
    then show ?thesis by auto
  qed
qed

text \<open>An escape of two characters.\<close>

lemma literal_simple_escape:
  assumes lit: "literal_compacts q p v" and e: "simple_escape e = Some x"
  shows "literal_compacts (CHR 0x5C # e # q) (CHR 0x5C # e # p) (x # v)"
proof -
  have e': "e \<in> {CHR 0x22, CHR 0x5C, CHR ''/'', CHR ''b'', CHR ''f'', CHR ''n'', CHR ''r'', CHR ''t''}"
    using e by (auto simp: simple_escape_def split: if_splits)
  have "literal_compacts ([CHR 0x5C, e] @ q) ([CHR 0x5C, e] @ p) ([x] @ v)"
  proof (rule literal_extend [OF lit])
    show "compact_html True False ([CHR 0x5C, e] @ q @ u) = [CHR 0x5C, e] @ compact_html True False (q @ u)" for u
      using e' by (auto simp: compact_html.simps)
    show "scan_string (Suc m) ([CHR 0x5C, e] @ p @ u) = map_option (\<lambda>(w, r). ([x] @ w, r)) (scan_string m (p @ u))" for u m
      using e by simp
    show "\<exists>y'. unicode_escape ([CHR 0x5C, e] @ q @ u') = Some (n, y')"
      if "unicode_escape ([CHR 0x5C, e] @ p @ u) = Some (n, y)" for u u' n y
      using that e' by (auto simp: unicode_escape_def split: list.splits)
  qed (simp_all add: cont_def)
  then show ?thesis by simp
qed

text \<open>A \<open>\u\<close> escape: the next one is looked at when the first is half of a surrogate pair.\<close>

definition u_escape :: "string \<Rightarrow> int \<Rightarrow> bool" where
  "u_escape a n \<longleftrightarrow> length a = 6 \<and> (\<forall>s. unicode_escape (a @ s) = Some (n, s))"

lemma u_escapeI: "unicode_escape s = Some (n, t) \<Longrightarrow> \<exists>a. s = a @ t \<and> u_escape a n"
proof -
  assume *: "unicode_escape s = Some (n, t)"
  then obtain a b c d where s: "s = CHR 0x5C # CHR ''u'' # a # b # c # d # t" and h: "hex4 a b c d = Some n"
    by (auto simp: unicode_escape_def split: list.splits if_splits)
  then have "s = [CHR 0x5C, CHR ''u'', a, b, c, d] @ t \<and> u_escape [CHR 0x5C, CHR ''u'', a, b, c, d] n"
    by (simp add: u_escape_def unicode_escape_def)
  then show ?thesis by blast
qed

lemma u_escape_shape:
  assumes "u_escape a n"
  obtains w x y z where "a = [CHR 0x5C, CHR ''u'', w, x, y, z]" "hex4 w x y z = Some n"
proof -
  have "unicode_escape (a @ []) = Some (n, [])" using assms by (simp only: u_escape_def)
  then show ?thesis using that
    by (auto simp: unicode_escape_def split: list.splits if_splits)
qed

lemma u_escape_head: "u_escape a n \<Longrightarrow> a \<noteq> [] \<and> takeWhile cont (a @ s) = []"
  by (erule u_escape_shape) (simp add: cont_def)

lemma hex_val_chars: "hex_val c = Some n \<Longrightarrow>
    c \<notin> {CHR ''<'', CHR ''>'', CHR ''&'', CHR 0x22, CHR 0x5C, CHR 0xE2}"
  by (auto simp: hex_val_def Let_def split: if_splits)

lemma compact_u_escape:
  assumes "u_escape a n" shows "compact_html True False (a @ s) = a @ compact_html True False s"
proof -
  from u_escape_shape [OF assms] obtain w x y z where a: "a = [CHR 0x5C, CHR ''u'', w, x, y, z]"
    and h: "hex4 w x y z = Some n" .
  from h obtain i j k l where "hex_val w = Some i" "hex_val x = Some j" "hex_val y = Some k" "hex_val z = Some l"
    by (auto simp: hex4_def split: option.splits)
  then have "compact_html True False (w # x # y # z # s) = w # x # y # z # compact_html True False s"
    using hex_val_chars by (simp add: compact_in_string)
  then show ?thesis by (simp add: a compact_html.simps)
qed

lemma scan_escaped_rune:
  assumes "escaped_rune s = Some (x, t)"
  shows "scan_string (Suc m) s = map_option (\<lambda>(v, r). (x @ v, r)) (scan_string m t)"
proof -
  from assms obtain n t' where "unicode_escape s = Some (n, t')" by (auto simp: escaped_rune_def split: option.splits)
  then obtain w where "s = CHR 0x5C # CHR ''u'' # w" by (auto simp: unicode_escape_def split: list.splits if_splits)
  with assms show ?thesis by (simp add: simple_escape_def)
qed

text \<open>If the escape reads as \<open>x\<close> before the literal and before its compacted form.\<close>

lemma literal_u_escape:
  assumes lit: "literal_compacts q p v" and a: "u_escape a n"
    and x: "\<And>u. escaped_rune (a @ p @ u) = Some (x, p @ u)"
  shows "literal_compacts (a @ q) (a @ p) (x @ v)"
proof (rule literal_extend [OF lit])
  show "compact_html True False (a @ q @ u) = a @ compact_html True False (q @ u)" for u
    by (rule compact_u_escape [OF a])
  show "scan_string (Suc m) (a @ p @ u) = map_option (\<lambda>(w, r). (x @ w, r)) (scan_string m (p @ u))" for u m
    by (rule scan_escaped_rune [OF x])
  show "a \<noteq> []" using u_escape_head [OF a] by blast
  show "takeWhile cont (a @ p @ u) = takeWhile cont (a @ q @ u')" for u u'
    using u_escape_head [OF a] by metis
  show "\<exists>y'. unicode_escape (a @ q @ u') = Some (n', y')"
    if "unicode_escape (a @ p @ u) = Some (n', y)" for u u' n' y
    using that a by (simp add: u_escape_def)
qed

text \<open>Two escapes that are one surrogate pair.\<close>

lemma literal_pair:
  assumes lit: "literal_compacts q p v" and a: "u_escape a n" "u_escape b n2"
    and x: "\<And>u. escaped_rune (a @ b @ p @ u) = Some (x, p @ u)"
  shows "literal_compacts (a @ b @ q) (a @ b @ p) (x @ v)"
proof -
  have "literal_compacts ((a @ b) @ q) ((a @ b) @ p) (x @ v)"
  proof (rule literal_extend [OF lit])
    show "compact_html True False ((a @ b) @ q @ u) = (a @ b) @ compact_html True False (q @ u)" for u
      using compact_u_escape [OF a(1)] compact_u_escape [OF a(2)] by simp
    show "scan_string (Suc m) ((a @ b) @ p @ u) = map_option (\<lambda>(w, r). (x @ w, r)) (scan_string m (p @ u))" for u m
      using scan_escaped_rune [OF x, of m u] by (simp del: scan_string.simps)
    show "a @ b \<noteq> []" using u_escape_head [OF a(1)] by blast
    show "takeWhile cont ((a @ b) @ p @ u) = takeWhile cont ((a @ b) @ q @ u')" for u u'
      using u_escape_head [OF a(1)] by (metis append_assoc)
    show "\<exists>y'. unicode_escape ((a @ b) @ q @ u') = Some (n', y')"
      if "unicode_escape ((a @ b) @ p @ u) = Some (n', y)" for u u' n' y
      using that a(1) by (simp add: u_escape_def)
  qed
  then show ?thesis by simp
qed

text \<open>Bytes outside ASCII: a sequence is recognised from its continuation bytes alone.\<close>

lemma cont_byte_cont: "\<not> cont c \<Longrightarrow> 128 \<le> lo \<Longrightarrow> hi \<le> 191 \<Longrightarrow> \<not> cont_byte lo hi c"
  by (auto simp: cont_byte_def cont_def)

lemma utf8_len_conts: "utf8_len (c # s) = utf8_len (c # takeWhile cont s)"
proof -
  consider "s = []" | x where "s = [x]" | x y where "s = [x, y]" | x y z w where "s = x # y # z # w"
    by (metis list.exhaust)
  then show ?thesis
  proof cases
    case (2 x)
    then show ?thesis by (cases "cont x") (simp_all add: utf8_len_def Let_def cont_byte_cont)
  next
    case (3 x y)
    then show ?thesis by (cases "cont x"; cases "cont y") (simp_all add: utf8_len_def Let_def cont_byte_cont)
  next
    case (4 x y z w)
    then show ?thesis
      by (cases "cont x"; cases "cont y"; cases "cont z") (simp_all add: utf8_len_def Let_def cont_byte_cont)
  qed simp
qed

lemma utf8_len_same_conts: "takeWhile cont s = takeWhile cont t \<Longrightarrow> utf8_len (c # s) = utf8_len (c # t)"
  by (metis utf8_len_conts)

lemma sequence_shape:
  assumes "utf8_len (c # s) = Some k" "128 \<le> (of_char c :: nat)"
  shows "\<not> cont c \<and> list_all cont (take (k - 1) s) \<and> 2 \<le> k"
proof (intro conjI)
  have "utf8_len (c # s) = None" if "cont c"
    using that assms(2) by (simp add: utf8_len_def cont_def)
  then show "\<not> cont c" using assms(1) by auto
  have "utf8_len (c # s) \<noteq> Some 1" using assms(2) by (simp add: utf8_len_def Let_def split: list.split)
  then show "2 \<le> k" using assms(1) utf8_len_bounds [OF assms(1)] by (cases "k = 1") auto
  have "k \<le> length (c # takeWhile cont s)"
    using utf8_len_bounds [of "c # takeWhile cont s" k] assms(1) utf8_len_conts [of c s] by simp
  then have "take (k - 1) (takeWhile cont s @ dropWhile cont s) = take (k - 1) (takeWhile cont s)"
    by (simp del: takeWhile_dropWhile_id)
  then have "take (k - 1) s = take (k - 1) (takeWhile cont s)" by simp
  then show "list_all cont (take (k - 1) s)"
    by (metis in_set_takeD list_all_iff set_takeWhileD)
qed

lemma compact_conts: "list_all cont w \<Longrightarrow> compact_html True False (w @ s) = w @ compact_html True False s"
proof (induction w)
  case (Cons c w)
  then have "c \<notin> {CHR ''<'', CHR ''>'', CHR ''&'', CHR 0x22, CHR 0x5C, CHR 0xE2}" by (auto simp: cont_def)
  with Cons show ?case by (simp add: compact_in_string)
qed simp

lemma separator_recognised:
  assumes "take 2 z = [CHR 0x80, x]" "x \<in> {CHR 0xA8, CHR 0xA9}"
  shows "utf8_len (CHR 0xE2 # z) \<noteq> None"
proof -
  obtain z' where "z = CHR 0x80 # x # z'" using assms(1) by (metis append_Cons append_take_drop_id)
  with assms(2) show ?thesis by (auto simp: utf8_len_def cont_byte_def)
qed

text \<open>A byte that starts no sequence is kept, and read as U+FFFD both times.\<close>

lemma literal_invalid:
  assumes lit: "literal_compacts q p v" and c: "128 \<le> (of_char c :: nat)" "utf8_len (c # q @ r) = None"
  shows "literal_compacts (c # q) (c # p) (utf8_encode 65533 @ v)"
proof -
  have tq: "takeWhile cont (q @ u) = takeWhile cont q" for u by (rule literal_tails(1) [OF lit])
  have tp: "takeWhile cont (p @ u) = takeWhile cont q" for u by (rule literal_tails(2) [OF lit])
  have nq: "utf8_len (c # q @ u) = None" for u
    using c(2) utf8_len_same_conts [of "q @ u" "q @ r" c] tq by simp
  have np: "utf8_len (c # p @ u) = None" for u
    using c(2) utf8_len_same_conts [of "p @ u" "q @ r" c] tq tp by simp
  have sp: "CHR 0x22 \<noteq> c" "c \<noteq> CHR 0x5C" "\<not> (of_char c :: nat) < 32" "c \<notin> {CHR ''<'', CHR ''>'', CHR ''&''}"
    using c(1) by auto
  have sep: "\<not> (c = CHR 0xE2 \<and> take 2 (q @ u) = [CHR 0x80, x])" if "x \<in> {CHR 0xA8, CHR 0xA9}" for u x
    using nq [of u] that separator_recognised by metis
  have "literal_compacts ([c] @ q) ([c] @ p) (utf8_encode 65533 @ v)"
  proof (rule literal_extend [OF lit])
    show "compact_html True False ([c] @ q @ u) = [c] @ compact_html True False (q @ u)" for u
      using sp sep [of _ u] by (simp add: compact_html.simps(2) [of True False c])
    show "scan_string (Suc m) ([c] @ p @ u) = map_option (\<lambda>(w, r). (utf8_encode 65533 @ w, r)) (scan_string m (p @ u))" for u m
      using np [of u] sp by simp
    show "takeWhile cont ([c] @ p @ u) = takeWhile cont ([c] @ q @ u')" for u u'
      by (simp add: tq tp)
  qed (use sp not_escape in auto)
  then show ?thesis by simp
qed

lemma utf8_len_E2: "utf8_len (CHR 0xE2 # w) = Some k \<Longrightarrow> k = 3"
  by (simp add: utf8_len_def split: list.splits if_splits)

lemma literal_escaped:
  assumes lit: "literal_compacts q p v" and b: "\<And>s. unicode_escape (b @ s) = Some (n, s)" "n < 55296"
    and comp: "\<And>u. compact_html True False (a @ u) = b @ compact_html True False u"
    and a: "utf8_encode n = a" "\<And>u. takeWhile cont (a @ u) = takeWhile cont (b @ u')"
  shows "literal_compacts (a @ q) (b @ p) (a @ v)"
proof (rule literal_extend [OF lit])
  have ns: "\<not> is_surrogate n" using b(2) by (simp add: is_surrogate_def)
  show "scan_string (Suc m) (b @ p @ u) = map_option (\<lambda>(w, r). (a @ w, r)) (scan_string m (p @ u))" for u m
    using scan_unicode [OF b(1) ns, of m "p @ u"] a(1) by (simp del: scan_string.simps)
  show "\<exists>y'. unicode_escape (a @ q @ u') = Some (n', y')"
    if "unicode_escape (b @ p @ u) = Some (n', y)" "56320 \<le> n'" for u u' n' y
    using that b by simp
  have h: "takeWhile cont (b @ s) = []" for s
  proof -
    obtain b' where "b = CHR 0x5C # b'" using b(1) [of "[]"]
      by (cases b) (auto simp: unicode_escape_def split: list.splits if_splits)
    then show ?thesis by (simp add: cont_def)
  qed
  with a(2) show "takeWhile cont (b @ p @ u) = takeWhile cont (a @ q @ u')" for u u' by simp
  show "b \<noteq> []" using b(1) [of "[]"] by (auto simp: unicode_escape_def)
qed (rule comp)

lemma literal_separators:
  assumes "literal_compacts q p v"
  shows "\<exists>b. literal_compacts ([CHR 0xE2, CHR 0x80, CHR 0xA8] @ q) b ([CHR 0xE2, CHR 0x80, CHR 0xA8] @ v)"
    and "\<exists>b. literal_compacts ([CHR 0xE2, CHR 0x80, CHR 0xA9] @ q) b ([CHR 0xE2, CHR 0x80, CHR 0xA9] @ v)"
proof -
  have e: "unicode_escape (([CHR 0x5C] @ ''u2028'') @ s) = Some (8232, s)"
    "unicode_escape (([CHR 0x5C] @ ''u2029'') @ s) = Some (8233, s)" for s
    using line_separator_escapes by simp_all
  have "literal_compacts ([CHR 0xE2, CHR 0x80, CHR 0xA8] @ q) (([CHR 0x5C] @ ''u2028'') @ p) ([CHR 0xE2, CHR 0x80, CHR 0xA8] @ v)"
    by (rule literal_escaped [OF assms e(1), where u' = "[]"])
       (simp_all add: line_separator_encodings cont_def compact_html.simps)
  then show "\<exists>b. literal_compacts ([CHR 0xE2, CHR 0x80, CHR 0xA8] @ q) b ([CHR 0xE2, CHR 0x80, CHR 0xA8] @ v)" by blast
  have "literal_compacts ([CHR 0xE2, CHR 0x80, CHR 0xA9] @ q) (([CHR 0x5C] @ ''u2029'') @ p) ([CHR 0xE2, CHR 0x80, CHR 0xA9] @ v)"
    by (rule literal_escaped [OF assms e(2), where u' = "[]"])
       (simp_all add: line_separator_encodings cont_def compact_html.simps)
  then show "\<exists>b. literal_compacts ([CHR 0xE2, CHR 0x80, CHR 0xA9] @ q) b ([CHR 0xE2, CHR 0x80, CHR 0xA9] @ v)" by blast
qed

text \<open>A sequence is kept, except the two line separators, which are escaped.\<close>

lemma compact_kept:
  "c \<notin> {CHR ''<'', CHR ''>'', CHR ''&'', CHR 0x22, CHR 0x5C} \<Longrightarrow>
   \<not> (c = CHR 0xE2 \<and> take 2 s = [CHR 0x80, CHR 0xA8]) \<Longrightarrow>
   \<not> (c = CHR 0xE2 \<and> take 2 s = [CHR 0x80, CHR 0xA9]) \<Longrightarrow>
   compact_html True False (c # s) = c # compact_html True False s"
  by (simp add: compact_html.simps(2))

lemma literal_kept:
  assumes lit: "literal_compacts q p v" and len: "utf8_len (c # w) = Some (Suc (length w))"
    and c: "128 \<le> (of_char c :: nat)" and w: "list_all cont w" "\<not> cont c"
    and sep: "c # w \<noteq> [CHR 0xE2, CHR 0x80, CHR 0xA8]" "c # w \<noteq> [CHR 0xE2, CHR 0x80, CHR 0xA9]"
  shows "literal_compacts ((c # w) @ q) ((c # w) @ p) ((c # w) @ v)"
proof (rule literal_extend [OF lit])
  have "CHR ''<'' \<noteq> c" "CHR ''>'' \<noteq> c" "CHR ''&'' \<noteq> c" "CHR 0x22 \<noteq> c" "CHR 0x5C \<noteq> c" using c by auto
  then have sp: "c \<notin> {CHR ''<'', CHR ''>'', CHR ''&'', CHR 0x22, CHR 0x5C}" by blast
  have two: "w = [CHR 0x80, x]" if "take 2 (w @ u) = [CHR 0x80, x]" "c = CHR 0xE2" for u x
  proof -
    have "length w = 2" using utf8_len_E2 [of w] len that(2) by simp
    with that(1) show ?thesis by simp
  qed
  show "compact_html True False ((c # w) @ q @ u) = (c # w) @ compact_html True False (q @ u)" for u
  proof -
    have "compact_html True False (c # w @ q @ u) = c # compact_html True False (w @ q @ u)"
      by (rule compact_kept [OF sp]) (use two [of "q @ u"] sep in blast)+
    with compact_conts [OF w(1), of "q @ u"] show ?thesis by simp
  qed
  show "scan_string (Suc m) ((c # w) @ p @ u) = map_option (\<lambda>(x, r). ((c # w) @ x, r)) (scan_string m (p @ u))" for u m
    using scan_sequence [OF len, of m "p @ u"] c by (simp del: scan_string.simps)
  show "takeWhile cont ((c # w) @ p @ u) = takeWhile cont ((c # w) @ q @ u')" for u u'
    using w(2) by simp
  show "\<exists>y'. unicode_escape ((c # w) @ q @ u') = Some (n, y')"
    if "unicode_escape ((c # w) @ p @ u) = Some (n, y)" for u u' n y
    using that sp not_escape [of c "w @ p @ u"] by simp
qed simp

lemma literal_sequence:
  assumes lit: "literal_compacts q p v" and k: "utf8_len (c # t) = Some k" "128 \<le> (of_char c :: nat)"
  shows "\<exists>b. literal_compacts (take k (c # t) @ q) b (take k (c # t) @ v)"
proof -
  define w where "w = take (k - 1) t"
  have a: "take k (c # t) = c # w" using sequence_shape [OF k] by (cases k) (simp_all add: w_def)
  have w: "list_all cont w" "\<not> cont c" using sequence_shape [OF k] by (simp_all add: w_def)
  have "utf8_len (c # w) = Some k" using utf8_len_take [OF k(1)] by (simp only: a)
  moreover have "length (take k (c # t)) = k" using utf8_len_bounds [OF k(1)] by (simp add: min_def)
  ultimately have "utf8_len (c # w) = Some (Suc (length w))" by (simp only: a) simp
  from literal_kept [OF lit this k(2) w] literal_separators [OF lit] show ?thesis
    unfolding a by metis
qed

text \<open>An escape as the scanner reads it.\<close>

lemma literal_escaped_rune:
  assumes rune: "escaped_rune s = Some (x, q @ r)" and lit: "literal_compacts q p v"
  shows "\<exists>a b. s = a @ q @ r \<and> literal_compacts (a @ q) b (x @ v)"
proof -
  obtain n t where n: "unicode_escape s = Some (n, t)" using rune by (auto simp: escaped_rune_def split: option.splits)
  from u_escapeI [OF n] obtain a where a: "s = a @ t" "u_escape a n" by blast
  have ua: "unicode_escape (a @ z) = Some (n, z)" for z using a(2) by (simp add: u_escape_def)
  show ?thesis
  proof (cases "is_surrogate n \<and> (\<exists>n2 t2. unicode_escape t = Some (n2, t2) \<and> n < 56320 \<and> 56320 \<le> n2 \<and> n2 < 57344)")
    case True
    then obtain n2 t2 where n2: "unicode_escape t = Some (n2, t2)" "n < 56320" "56320 \<le> n2" "n2 < 57344" by blast
    from u_escapeI [OF n2(1)] obtain b where b: "t = b @ t2" "u_escape b n2" by blast
    have ub: "unicode_escape (b @ z) = Some (n2, z)" for z using b(2) by (simp add: u_escape_def)
    have x: "x = utf8_encode ((n - 55296) * 1024 + (n2 - 56320) + 65536)" "t2 = q @ r"
      using rune n n2 True by (auto simp: escaped_rune_def)
    have "escaped_rune (a @ b @ p @ u) = Some (x, p @ u)" for u
      using True n2 by (simp add: escaped_rune_def ua ub x(1))
    from literal_pair [OF lit a(2) b(2) this] a(1) b(1) x(2) show ?thesis by (metis append_assoc)
  next
    case False
    then have x: "t = q @ r" "x = (if is_surrogate n then utf8_encode 65533 else utf8_encode n)"
      using rune n by (auto simp: escaped_rune_def split: option.splits if_splits)
    have "escaped_rune (a @ p @ u) = Some (x, p @ u)" for u
    proof (cases "is_surrogate n")
      case sur: True
      have "\<not> (n < 56320 \<and> 56320 \<le> n2 \<and> n2 < 57344)" if "unicode_escape (p @ u) = Some (n2, y)" for n2 y
      proof
        assume r: "n < 56320 \<and> 56320 \<le> n2 \<and> n2 < 57344"
        with lit that obtain y' where "unicode_escape (q @ r) = Some (n2, y')"
          unfolding literal_compacts_def by blast
        with False sur r x(1) show False by blast
      qed
      then show ?thesis using sur by (auto simp: escaped_rune_def ua x(2) split: option.split)
    qed (simp add: escaped_rune_def ua x(2))
    from literal_u_escape [OF lit a(2) this] a(1) x(1) show ?thesis by blast
  qed
qed

lemma scan_string_ascii:
  assumes "c \<noteq> CHR 0x22" "c \<noteq> CHR 0x5C" "(of_char c :: nat) < 128" "scan_string (Suc n) (c # s) = Some (v, r)"
  shows "32 \<le> (of_char c :: nat) \<and> (\<exists>v'. v = c # v' \<and> scan_string n s = Some (v', r))"
  using assms utf8_len_ascii [OF assms(3), of s] by (auto split: if_splits)

lemma scan_string_high:
  assumes "128 \<le> (of_char c :: nat)" "scan_string (Suc n) (c # s) = Some (v, r)"
  shows "(case utf8_len (c # s) of
       None \<Rightarrow> \<exists>v'. v = utf8_encode 65533 @ v' \<and> scan_string n s = Some (v', r)
     | Some k \<Rightarrow> \<exists>v'. v = take k (c # s) @ v' \<and> scan_string n (drop k (c # s)) = Some (v', r))"
proof -
  have "c \<noteq> CHR 0x22" "c \<noteq> CHR 0x5C" "\<not> (of_char c :: nat) < 32" using assms(1) by auto
  with assms(2) show ?thesis by (auto split: option.split)
qed

lemma scan_string_escape:
  assumes "scan_string (Suc n) (CHR 0x5C # s) = Some (v, r)"
  shows "(\<exists>e x s' v'. s = e # s' \<and> simple_escape e = Some x \<and> v = x # v' \<and> scan_string n s' = Some (v', r)) \<or>
     (\<exists>x s' v'. escaped_rune (CHR 0x5C # s) = Some (x, s') \<and> v = x @ v' \<and> scan_string n s' = Some (v', r))"
  using assms by (auto split: list.splits option.splits)

lemma scan_string_compacts:
  "scan_string n t = Some (v, r) \<Longrightarrow> \<exists>q p. t = q @ r \<and> literal_compacts q p v"
proof (induction n arbitrary: t v)
  case (Suc n)
  obtain c s where t: "t = c # s" using Suc.prems by (cases t) auto
  show ?case
  proof (cases "c = CHR 0x22")
    case True
    with Suc.prems literal_quote show ?thesis by (auto simp: t intro!: exI [of _ "[CHR 0x22]"])
  next
    case nq: False
    show ?thesis
    proof (cases "c = CHR 0x5C")
      case True
      from scan_string_escape [OF Suc.prems [unfolded t True]] show ?thesis
      proof (elim disjE exE conjE)
        fix e x s' v' assume e: "s = e # s'" "simple_escape e = Some x" "v = x # v'" "scan_string n s' = Some (v', r)"
        from Suc.IH [OF e(4)] obtain q p where q: "s' = q @ r" "literal_compacts q p v'" by blast
        have "t = (CHR 0x5C # e # q) @ r" by (simp add: t True e(1) q(1))
        with literal_simple_escape [OF q(2) e(2)] e(3) show ?thesis by blast
      next
        fix x s' v' assume e: "escaped_rune (CHR 0x5C # s) = Some (x, s')" "v = x @ v'" "scan_string n s' = Some (v', r)"
        from Suc.IH [OF e(3)] obtain q p where q: "s' = q @ r" "literal_compacts q p v'" by blast
        from literal_escaped_rune [OF e(1) [unfolded q(1)] q(2)] obtain a b where
          "CHR 0x5C # s = a @ q @ r" "literal_compacts (a @ q) b (x @ v')" by blast
        with e(2) show ?thesis unfolding t True by (metis append_assoc)
      qed
    next
      case nb: False
      show ?thesis
      proof (cases "(of_char c :: nat) < 128")
        case True
        from scan_string_ascii [OF nq nb True Suc.prems [unfolded t]] obtain v' where
          v: "32 \<le> (of_char c :: nat)" "v = c # v'" "scan_string n s = Some (v', r)" by blast
        from Suc.IH [OF v(3)] obtain q p where q: "s = q @ r" "literal_compacts q p v'" by blast
        from literal_ascii [OF q(2) True v(1) nq nb] show ?thesis
          unfolding t v(2) q(1) by (metis append_Cons)
      next
        case False
        then have hi: "128 \<le> (of_char c :: nat)" by simp
        note h = scan_string_high [OF hi Suc.prems [unfolded t]]
        show ?thesis
        proof (cases "utf8_len (c # s)")
          case None
          with h obtain v' where v: "v = utf8_encode 65533 @ v'" "scan_string n s = Some (v', r)" by auto
          from Suc.IH [OF v(2)] obtain q p where q: "s = q @ r" "literal_compacts q p v'" by blast
          from literal_invalid [OF q(2) hi None [unfolded q(1)]] show ?thesis
            unfolding t v(1) q(1) by (metis append_Cons)
        next
          case (Some k)
          with h obtain v' where v: "v = take k (c # s) @ v'" "scan_string n (drop k (c # s)) = Some (v', r)" by auto
          from Suc.IH [OF v(2)] obtain q p where q: "drop k (c # s) = q @ r" "literal_compacts q p v'" by blast
          have "t = (take k (c # s) @ q) @ r" unfolding t append_assoc q(1) [symmetric] by simp
          with literal_sequence [OF q(2) Some hi] show ?thesis unfolding v(1) by blast
        qed
      qed
    qed
  qed
qed simp

section \<open>Numbers\<close>

definition stops_digits :: "string \<Rightarrow> bool" where
  "stops_digits u \<longleftrightarrow> u = [] \<or> \<not> is_digit (hd u)"

definition number_char :: "char \<Rightarrow> bool" where
  "number_char c \<longleftrightarrow> is_digit c \<or> c \<in> {CHR ''-'', CHR ''+'', CHR ''.'', CHR ''e'', CHR ''E''}"

lemma number_char_plain: "number_char c \<Longrightarrow> plain_char c"
  by (auto simp: number_char_def plain_char_def json_space_def is_digit_def)

lemma digits_number_chars: "list_all is_digit ds \<Longrightarrow> list_all number_char ds"
  by (auto simp: list_all_iff number_char_def)

lemma take_digits_split:
  "take_digits s = (ds, r) \<Longrightarrow> s = ds @ r \<and> list_all is_digit ds"
  by (auto simp: take_digits_def list_all_iff dest: set_takeWhileD)

lemma take_digits_again: "list_all is_digit ds \<Longrightarrow> stops_digits u \<Longrightarrow> take_digits (ds @ u) = (ds, u)"
  by (cases u) (auto simp: take_digits_def stops_digits_def list_all_iff)

lemma scan_int_split:
  assumes "scan_int s = Some (i, r)"
  shows "s = i @ r \<and> i \<noteq> [] \<and> list_all is_digit i \<and> (\<forall>u. stops_digits u \<longrightarrow> scan_int (i @ u) = Some (i, u))"
proof -
  obtain c t where s: "s = c # t" using assms by (cases s) (auto simp: scan_int_def)
  show ?thesis
  proof (cases "c = CHR ''0''")
    case True
    with assms s show ?thesis by (auto simp: scan_int_def is_digit_def)
  next
    case False
    with assms s have d: "is_digit c" "take_digits s = (i, r)" by (auto simp: scan_int_def split: if_splits)
    from take_digits_split [OF d(2)] have i: "s = i @ r" "list_all is_digit i" by simp_all
    have "i \<noteq> []" using d s by (auto simp: take_digits_def)
    then obtain i' where i': "i = c # i'" using i(1) s by (cases i) auto
    have "scan_int (i @ u) = Some (i, u)" if "stops_digits u" for u
      using take_digits_again [OF i(2) that] d(1) False by (simp add: i' scan_int_def)
    with i \<open>i \<noteq> []\<close> show ?thesis by blast
  qed
qed

lemma scan_frac_split:
  assumes "scan_frac s = Some (f, r)"
  shows "s = f @ r \<and> list_all number_char f \<and> (f = [] \<or> hd f = CHR ''.'') \<and>
    (\<forall>u. stops_digits u \<and> (u = [] \<or> hd u \<noteq> CHR ''.'') \<longrightarrow> scan_frac (f @ u) = Some (f, u))"
proof (cases "s = [] \<or> hd s \<noteq> CHR ''.''")
  case True
  have "scan_frac u = Some ([], u)" if "u = [] \<or> hd u \<noteq> CHR ''.''" for u
    using that by (cases u) (auto simp: scan_frac_def)
  moreover have "f = [] \<and> r = s" using assms True by (cases s) (auto simp: scan_frac_def)
  ultimately show ?thesis by simp
next
  case False
  then obtain t where s: "s = CHR ''.'' # t" by (cases s) auto
  obtain ds r' where d: "take_digits t = (ds, r')" by fastforce
  with assms s have f: "ds \<noteq> []" "f = CHR ''.'' # ds" "r = r'" by (auto simp: scan_frac_def split: if_splits)
  note sp = take_digits_split [OF d]
  have "scan_frac (f @ u) = Some (f, u)" if "stops_digits u" for u
    using take_digits_again [of ds u] sp that f by (simp add: scan_frac_def)
  with sp f s digits_number_chars [of ds] show ?thesis by (auto simp: number_char_def)
qed

lemma scan_exp_split:
  assumes "scan_exp s = Some (x, r)"
  shows "s = x @ r \<and> list_all number_char x \<and> (x = [] \<or> hd x \<in> {CHR ''e'', CHR ''E''}) \<and>
    (\<forall>u. stops_digits u \<and> (u = [] \<or> hd u \<notin> {CHR ''e'', CHR ''E''}) \<longrightarrow> scan_exp (x @ u) = Some (x, u))"
proof (cases "s = [] \<or> hd s \<notin> {CHR ''e'', CHR ''E''}")
  case True
  have "scan_exp u = Some ([], u)" if "u = [] \<or> hd u \<notin> {CHR ''e'', CHR ''E''}" for u
    using that by (cases u) (auto simp: scan_exp_def)
  moreover have "x = [] \<and> r = s" using assms True by (cases s) (auto simp: scan_exp_def)
  ultimately show ?thesis by simp
next
  case False
  then obtain c t where s: "s = c # t" "c \<in> {CHR ''e'', CHR ''E''}" by (cases s) auto
  define sign where "sign = (\<lambda>t. case t of [] \<Rightarrow> ([], []) | d # v \<Rightarrow> if d = CHR ''+'' \<or> d = CHR ''-'' then ([d], v) else ([], t))"
  obtain sg w where sg: "sign t = (sg, w)" by fastforce
  obtain ds r' where d: "take_digits w = (ds, r')" by fastforce
  have exp: "scan_exp (c # t) = (case sign t of (sg, u) \<Rightarrow> case take_digits u of (ds, r) \<Rightarrow>
      if ds = [] then None else Some (c # sg @ ds, r))" for t
    using s(2) by (auto simp: scan_exp_def sign_def split: list.split prod.split)
  with assms s(1) sg d have x: "ds \<noteq> []" "x = c # sg @ ds" "r = r'" by (auto split: if_splits)
  note sp = take_digits_split [OF d]
  have t: "t = sg @ w" "sg = [] \<or> sg = [CHR ''+''] \<or> sg = [CHR ''-'']"
    using sg by (auto simp: sign_def split: list.splits if_splits)
  have sign_again: "sign (sg @ ds @ u) = (sg, ds @ u)" for u
    using t(2) sp x(1) by (cases ds) (auto simp: sign_def is_digit_def)
  have "scan_exp (x @ u) = Some (x, u)" if "stops_digits u" for u
    using take_digits_again [of ds u] sp that x sign_again [of u] by (simp add: exp)
  with sp x s t digits_number_chars [of ds] show ?thesis by (auto simp: number_char_def)
qed

lemma scan_number_split:
  assumes "scan_number s = Some (n, r)"
  shows "s = n @ r \<and> n \<noteq> [] \<and> list_all number_char n \<and> (\<forall>u. delimited u \<longrightarrow> scan_number (n @ u) = Some (n, u))"
proof -
  define sign where "sign = (\<lambda>s. case s of [] \<Rightarrow> ([], []) | c # u \<Rightarrow> if c = CHR ''-'' then ([c], u) else ([], s))"
  obtain sg t where sg: "sign s = (sg, t)" by fastforce
  have num: "scan_number z = (case sign z of (sg, t) \<Rightarrow>
      case scan_int t of None \<Rightarrow> None
      | Some (i, u) \<Rightarrow> (case scan_frac u of None \<Rightarrow> None
         | Some (f, v) \<Rightarrow> (case scan_exp v of None \<Rightarrow> None | Some (e, r) \<Rightarrow> Some (sg @ i @ f @ e, r))))" for z
    by (simp add: scan_number_def sign_def Let_def)
  from assms obtain i t1 f t2 e where i: "scan_int t = Some (i, t1)" and f: "scan_frac t1 = Some (f, t2)"
    and e: "scan_exp t2 = Some (e, r)" and n: "n = sg @ i @ f @ e"
    by (auto simp: num sg split: option.splits)
  note si = scan_int_split [OF i] and sf = scan_frac_split [OF f] and se = scan_exp_split [OF e]
  have s: "s = sg @ t" "sg = [] \<or> sg = [CHR ''-'']"
    using sg by (auto simp: sign_def split: list.splits if_splits)
  have parts: "t = i @ t1" "t1 = f @ t2" "t2 = e @ r" "i \<noteq> []" "list_all is_digit i" "list_all number_char f"
    "list_all number_char e" "f = [] \<or> hd f = CHR ''.''" "e = [] \<or> hd e \<in> {CHR ''e'', CHR ''E''}"
    using si sf se by simp_all
  have again: "stops_digits u \<Longrightarrow> scan_int (i @ u) = Some (i, u)"
    "stops_digits u \<Longrightarrow> u = [] \<or> hd u \<noteq> CHR ''.'' \<Longrightarrow> scan_frac (f @ u) = Some (f, u)"
    "stops_digits u \<Longrightarrow> u = [] \<or> hd u \<notin> {CHR ''e'', CHR ''E''} \<Longrightarrow> scan_exp (e @ u) = Some (e, u)" for u
    using si sf se by blast+
  have sign': "sign (sg @ i @ z) = (sg, i @ z)" for z
    using s(2) parts(4,5) by (cases i) (auto simp: sign_def is_digit_def)
  have "scan_number (n @ u) = Some (n, u)" if "delimited u" for u
  proof -
    have u: "stops_digits u" "u = [] \<or> hd u \<noteq> CHR ''.''" "u = [] \<or> hd u \<notin> {CHR ''e'', CHR ''E''}"
      using that by (auto simp: delimited_def stops_digits_def is_digit_def)
    have eu: "stops_digits (e @ u)" "e @ u = [] \<or> hd (e @ u) \<noteq> CHR ''.''"
      using parts(9) u by (cases e; auto simp: stops_digits_def is_digit_def)+
    have fu: "stops_digits (f @ e @ u)"
      using parts(8) eu by (cases f) (auto simp: stops_digits_def is_digit_def)
    show ?thesis
      by (simp add: num n sign' again(1) [OF fu] again(2) [OF eu] again(3) [OF u(1,3)])
  qed
  moreover have "list_all number_char n"
    using parts(5-7) s(2) digits_number_chars [of i] by (auto simp: n number_char_def)
  moreover have "s = n @ r \<and> n \<noteq> []" using parts(1-4) s(1) n by simp
  ultimately show ?thesis by blast
qed

section \<open>Values\<close>

text \<open>The tree of a compacted text: the same, with the texts of its parts compacted.\<close>

primrec compact_json :: "json \<Rightarrow> json" where
  "compact_json JNull = JNull"
| "compact_json (JBool b) = JBool b"
| "compact_json (JNum n) = JNum n"
| "compact_json (JStr s) = JStr s"
| "compact_json (JArr es) = JArr (map (map_prod compact compact_json) es)"
| "compact_json (JObj ms) = JObj (map (map_prod id (map_prod compact compact_json)) ms)"

definition compacts_to :: "string \<Rightarrow> string \<Rightarrow> bool" where
  "compacts_to q p \<longleftrightarrow> (\<forall>u. compact (q @ u) = p @ compact u)"

lemma compacts_to_self: "compacts_to q p \<Longrightarrow> compact q = p"
  unfolding compacts_to_def by (metis append_Nil2 compact_Nil)

lemma compacts_to_append: "compacts_to a b \<Longrightarrow> compacts_to q p \<Longrightarrow> compacts_to (a @ q) (b @ p)"
  by (simp add: compacts_to_def)

lemma compacts_to_spaces: "list_all json_space w \<Longrightarrow> compacts_to w []"
  by (simp add: compacts_to_def compact_spaces)

lemma compacts_to_plain: "list_all plain_char q \<Longrightarrow> compacts_to q q"
  by (simp add: compacts_to_def compact_plain_list)

definition value_compacts :: "nat \<Rightarrow> string \<Rightarrow> json \<Rightarrow> bool" where
  "value_compacts d q v \<longleftrightarrow> compacts_to q (compact q) \<and> encodes d (compact q) (compact_json v)"

lemma value_compactsI: "compacts_to q p \<Longrightarrow> encodes d p (compact_json v) \<Longrightarrow> value_compacts d q v"
  using compacts_to_self [of q p] by (simp add: value_compacts_def)

lemma compacts_to_skip: "list_all json_space w \<Longrightarrow> compacts_to q p \<Longrightarrow> compacts_to (w @ q) p"
  by (simp add: compacts_to_def compact_spaces)

lemma compacts_to_Cons: "plain_char c \<Longrightarrow> compacts_to q p \<Longrightarrow> compacts_to (c # q) (c # p)"
  by (simp add: compacts_to_def compact_plain)

text \<open>A quoted literal: its body is scanned after the quote.\<close>

lemma compacts_to_literal:
  assumes "literal_compacts q p v"
  shows "compacts_to (CHR 0x22 # q) (CHR 0x22 # p)"
  using assms
  by (simp add: compacts_to_def literal_compacts_def compact_def compact_html.simps(2) [of False])

lemma encodes_literal:
  assumes "literal_compacts q p v" shows "encodes d (CHR 0x22 # p) (JStr v)"
proof -
  have "scan_string (length (p @ u)) (p @ u) = Some (v, u)" for u
    using assms by (simp add: literal_compacts_def del: scan_string.simps)
  then show ?thesis by (simp add: encodes_def scan_value.simps del: scan_string.simps)
qed

lemma scan_value_bracket: "scan_value d (CHR '']'' # s) = None"
  by (simp add: scan_value.simps has_prefix_def scan_number_def scan_int_def is_digit_def)

lemma encodes_head: "encodes d p v \<Longrightarrow> hd p \<noteq> CHR '']''"
proof
  assume e: "encodes d p v" "hd p = CHR '']''"
  then obtain p' where "p = CHR '']'' # p'" by (cases p) (auto simp: encodes_def)
  with encodesD [OF e(1), of "[]"] scan_value_bracket show False by simp
qed

section \<open>Arrays and objects\<close>

lemma scan_elems_compacts:
  assumes pv: "\<And>s v r. scan_value d s = Some (v, r) \<Longrightarrow> \<exists>q. s = q @ r \<and> value_compacts d q v"
  shows "scan_elems (\<lambda>u. scan_value d u) n s = Some (es, r) \<Longrightarrow>
    \<exists>q p. s = q @ r \<and> compacts_to q p \<and> p \<noteq> [] \<and> \<not> json_space (hd p) \<and> hd p \<noteq> CHR '']'' \<and>
      length es \<le> length p \<and>
      (\<forall>m u. length es \<le> m \<longrightarrow>
         scan_elems (\<lambda>u. scan_value d u) m (p @ u) = Some (map (map_prod compact compact_json) es, u))"
proof (induction n arbitrary: s es)
  case (Suc n)
  obtain v t where v: "scan_value d (skip_ws s) = Some (v, t)"
    using Suc.prems by (auto simp: Let_def split: option.splits)
  from pv [OF v] obtain q where q: "skip_ws s = q @ t" "value_compacts d q v" by blast
  from skip_ws_split [of s] q(1) obtain w where w: "s = w @ q @ t" "list_all json_space w" by metis
  have e: "encodes d (compact q) (compact_json v)" and cq: "compacts_to q (compact q)"
    using q(2) by (simp_all add: value_compacts_def)
  obtain c t' where c: "skip_ws t = c # t'"
    using Suc.prems v by (auto simp: Let_def split: list.splits)
  from skip_ws_split [of t] c obtain w2 where w2: "t = w2 @ c # t'" "list_all json_space w2" by metis
  have raw: "raw_of (skip_ws s) t = q" by (simp add: q(1))
  have front: "p \<noteq> [] \<Longrightarrow> compact q @ p \<noteq> [] \<and> \<not> json_space (hd (compact q @ p)) \<and> hd (compact q @ p) \<noteq> CHR '']''" for p
    using e encodes_head [OF e] by (auto simp: encodes_def)
  show ?case
  proof (cases "c = CHR '']''")
    case True
    then have es: "es = [(q, v)]" "r = t'" using Suc.prems v c raw by (auto simp: Let_def)
    have "compacts_to (w @ q @ w2 @ [CHR '']'']) (compact q @ [CHR '']''])"
      using w(2) w2(2) cq by (intro compacts_to_skip compacts_to_append compacts_to_plain) simp_all
    moreover have "scan_elems (\<lambda>u. scan_value d u) m ((compact q @ [CHR '']'']) @ u) =
        Some (map (map_prod compact compact_json) es, u)" if "length es \<le> m" for m u
      using that by (cases m) (simp_all add: es encodes_skip_ws [OF e] encodesD [OF e] Let_def)
    ultimately show ?thesis
      using front [of "[CHR '']'']"] w(1) w2(1) True es
      by (intro exI [of _ "w @ q @ w2 @ [CHR '']'']"] exI [of _ "compact q @ [CHR '']'']"]) simp
  next
    case False
    then obtain es' where es: "c = CHR '',''" "es = (q, v) # es'"
        "scan_elems (\<lambda>u. scan_value d u) n t' = Some (es', r)"
      using Suc.prems v c raw by (auto simp: Let_def split: if_splits)
    from Suc.IH [OF es(3)] obtain q2 p2 where q2: "t' = q2 @ r" "compacts_to q2 p2" "length es' \<le> length p2"
        "\<And>m u. length es' \<le> m \<Longrightarrow>
         scan_elems (\<lambda>u. scan_value d u) m (p2 @ u) = Some (map (map_prod compact compact_json) es', u)"
      by blast
    have "compacts_to (w @ q @ w2 @ CHR '','' # q2) (compact q @ CHR '','' # p2)"
      using w(2) w2(2) cq q2(2) by (intro compacts_to_skip compacts_to_append compacts_to_Cons) simp_all
    moreover have "scan_elems (\<lambda>u. scan_value d u) m ((compact q @ CHR '','' # p2) @ u) =
        Some (map (map_prod compact compact_json) es, u)" if "length es \<le> m" for m u
      using that q2(4) by (cases m) (simp_all add: es encodes_skip_ws [OF e] encodesD [OF e] Let_def)
    ultimately show ?thesis
      using front [of "CHR '','' # p2"] w(1) w2(1) q2(1,3) es
      by (intro exI [of _ "w @ q @ w2 @ CHR '','' # q2"] exI [of _ "compact q @ CHR '','' # p2"]) simp
  qed
qed simp

text \<open>One member up to the character after its value.\<close>

lemma scan_member_parts:
  assumes "scan_members pv (Suc n) s = Some (ms, r)"
  shows "\<exists>s0 k s1 s2 v t c t'. skip_ws s = CHR 0x22 # s0 \<and> scan_string (length s0) s0 = Some (k, s1) \<and>
     skip_ws s1 = CHR '':'' # s2 \<and> pv (skip_ws s2) = Some (v, t) \<and> skip_ws t = c # t' \<and>
     (c = CHR ''}'' \<and> ms = [(k, raw_of (skip_ws s2) t, v)] \<and> r = t' \<or>
      c = CHR '','' \<and> (\<exists>ms'. ms = (k, raw_of (skip_ws s2) t, v) # ms' \<and> scan_members pv n t' = Some (ms', r)))"
  using assms
  by (auto simp: Let_def simp del: scan_string.simps split: list.splits option.splits prod.splits if_splits)

lemma scan_member_again:
  assumes lit: "literal_compacts ql pl k" and e: "encodes d p v" and x: "delimited x"
  shows "scan_members (\<lambda>u. scan_value d u) (Suc m) (CHR 0x22 # pl @ CHR '':'' # p @ x) =
     (case skip_ws x of
        [] \<Rightarrow> None
      | c # t \<Rightarrow>
          if c = CHR ''}'' then Some ([(k, p, v)], t)
          else if c = CHR '','' then
            map_option (\<lambda>(ms, z). ((k, p, v) # ms, z)) (scan_members (\<lambda>u. scan_value d u) m t)
          else None)"
proof -
  have l: "scan_string (length (pl @ u)) (pl @ u) = Some (k, u)" for u
    using lit by (simp add: literal_compacts_def del: scan_string.simps)
  show ?thesis
    using l [of "CHR '':'' # p @ x"] by (simp add: encodes_skip_ws [OF e] encodesD [OF e x] Let_def del: scan_string.simps split: list.split)
qed

abbreviation compact_member :: "string \<times> string \<times> json \<Rightarrow> string \<times> string \<times> json" where
  "compact_member \<equiv> map_prod id (map_prod compact compact_json)"

lemma scan_members_compacts:
  assumes pv: "\<And>s v r. scan_value d s = Some (v, r) \<Longrightarrow> \<exists>q. s = q @ r \<and> value_compacts d q v"
  shows "scan_members (\<lambda>u. scan_value d u) n s = Some (ms, r) \<Longrightarrow>
    \<exists>q p. s = q @ r \<and> compacts_to q (CHR 0x22 # p) \<and> length ms \<le> length p \<and>
      (\<forall>m u. length ms \<le> m \<longrightarrow>
         scan_members (\<lambda>u. scan_value d u) m (CHR 0x22 # p @ u) = Some (map compact_member ms, u))"
proof (induction n arbitrary: s ms)
  case (Suc n)
  from scan_member_parts [OF Suc.prems] obtain s0 k s1 s2 v t c t' where
    m: "skip_ws s = CHR 0x22 # s0" "scan_string (length s0) s0 = Some (k, s1)" "skip_ws s1 = CHR '':'' # s2"
      "scan_value d (skip_ws s2) = Some (v, t)" "skip_ws t = c # t'"
    and c: "c = CHR ''}'' \<and> ms = [(k, raw_of (skip_ws s2) t, v)] \<and> r = t' \<or>
      c = CHR '','' \<and> (\<exists>ms'. ms = (k, raw_of (skip_ws s2) t, v) # ms' \<and>
        scan_members (\<lambda>u. scan_value d u) n t' = Some (ms', r))"
    by blast
  from scan_string_compacts [OF m(2)] obtain ql pl where ql: "s0 = ql @ s1" "literal_compacts ql pl k" by blast
  from pv [OF m(4)] obtain q where q: "skip_ws s2 = q @ t" "value_compacts d q v" by blast
  have e: "encodes d (compact q) (compact_json v)" and cq: "compacts_to q (compact q)"
    using q(2) by (simp_all add: value_compacts_def)
  have raw: "raw_of (skip_ws s2) t = q" by (simp add: q(1))
  from skip_ws_split [of s] m(1) obtain w0 where w0: "s = w0 @ CHR 0x22 # s0" "list_all json_space w0" by metis
  from skip_ws_split [of s1] m(3) obtain w1 where w1: "s1 = w1 @ CHR '':'' # s2" "list_all json_space w1" by metis
  from skip_ws_split [of s2] q(1) obtain w2 where w2: "s2 = w2 @ q @ t" "list_all json_space w2" by metis
  from skip_ws_split [of t] m(5) obtain w3 where w3: "t = w3 @ c # t'" "list_all json_space w3" by metis
  have chain: "compacts_to (w0 @ (CHR 0x22 # ql) @ w1 @ CHR '':'' # w2 @ q @ w3 @ z)
      (CHR 0x22 # pl @ CHR '':'' # compact q @ y)" if "compacts_to z y" for z y
    using compacts_to_skip [OF w0(2), OF compacts_to_append [OF compacts_to_literal [OF ql(2)]
        compacts_to_skip [OF w1(2), OF compacts_to_Cons [OF _
        compacts_to_skip [OF w2(2), OF compacts_to_append [OF cq compacts_to_skip [OF w3(2) that]]]]]]]
    by simp
  have s: "s = w0 @ (CHR 0x22 # ql) @ w1 @ CHR '':'' # w2 @ q @ w3 @ c # t'"
    by (simp add: w0(1) ql(1)) (simp add: w1(1) w2(1) w3(1))
  from c show ?case
  proof (elim disjE conjE exE)
    assume h: "c = CHR ''}''" "ms = [(k, raw_of (skip_ws s2) t, v)]" "r = t'"
    let ?p = "pl @ CHR '':'' # compact q @ [CHR ''}'']"
    have "scan_members (\<lambda>u. scan_value d u) m (CHR 0x22 # ?p @ u) = Some (map compact_member ms, u)"
      if "length ms \<le> m" for m u
      using that by (cases m) (simp_all add: h(2) raw scan_member_again [OF ql(2) e] del: scan_members.simps)
    moreover have "compacts_to (w0 @ (CHR 0x22 # ql) @ w1 @ CHR '':'' # w2 @ q @ w3 @ [CHR ''}'']) (CHR 0x22 # ?p)"
      using chain [OF compacts_to_plain [of "[CHR ''}'']"]] by simp
    moreover have "s = (w0 @ (CHR 0x22 # ql) @ w1 @ CHR '':'' # w2 @ q @ w3 @ [CHR ''}'']) @ r" "length ms \<le> length ?p"
      using h s by simp_all
    ultimately show ?thesis by blast
  next
    fix ms' assume h: "c = CHR '',''" "ms = (k, raw_of (skip_ws s2) t, v) # ms'"
      "scan_members (\<lambda>u. scan_value d u) n t' = Some (ms', r)"
    from Suc.IH [OF h(3)] obtain q2 p2 where q2: "t' = q2 @ r" "compacts_to q2 (CHR 0x22 # p2)" "length ms' \<le> length p2"
        "\<And>m u. length ms' \<le> m \<Longrightarrow>
         scan_members (\<lambda>u. scan_value d u) m (CHR 0x22 # p2 @ u) = Some (map compact_member ms', u)"
      by blast
    let ?p = "pl @ CHR '':'' # compact q @ CHR '','' # CHR 0x22 # p2"
    have "scan_members (\<lambda>u. scan_value d u) m (CHR 0x22 # ?p @ u) = Some (map compact_member ms, u)"
      if "length ms \<le> m" for m u
      using that q2(4) by (cases m) (simp_all add: h(2) raw scan_member_again [OF ql(2) e] del: scan_members.simps)
    moreover have "compacts_to (w0 @ (CHR 0x22 # ql) @ w1 @ CHR '':'' # w2 @ q @ w3 @ CHR '','' # q2) (CHR 0x22 # ?p)"
      using chain [OF compacts_to_Cons [OF _ q2(2), of "CHR '',''"]] by simp
    moreover have "s = (w0 @ (CHR 0x22 # ql) @ w1 @ CHR '':'' # w2 @ q @ w3 @ CHR '','' # q2) @ r" "length ms \<le> length ?p"
      using h s q2(1,3) by simp_all
    ultimately show ?thesis by blast
  qed
qed simp

lemma value_compacts_array:
  assumes pv: "\<And>s v r. scan_value d s = Some (v, r) \<Longrightarrow> \<exists>q. s = q @ r \<and> value_compacts d q v"
    and v: "scan_value (Suc d) (CHR ''['' # t) = Some (v, r)"
  shows "\<exists>q. CHR ''['' # t = q @ r \<and> value_compacts (Suc d) q v"
proof -
  obtain c1 t1 where c1: "skip_ws t = c1 # t1" using v by (auto simp: scan_value.simps [of "Suc d"] split: list.splits)
  show ?thesis
  proof (cases "c1 = CHR '']''")
    case True
    from skip_ws_split [of t] c1 obtain w where w: "t = w @ CHR '']'' # t1" "list_all json_space w" using True by metis
    have e: "v = JArr []" "r = t1" using v c1 True by (simp_all add: scan_value.simps [of "Suc d"])
    have "compacts_to (CHR ''['' # w @ [CHR '']'']) (CHR ''['' # [CHR '']''])"
      using w(2) by (intro compacts_to_Cons compacts_to_skip compacts_to_plain) simp_all
    moreover have "encodes (Suc d) (CHR ''['' # [CHR '']'']) (compact_json v)"
      by (simp add: encodes_def e scan_value.simps [of "Suc d"])
    ultimately have "value_compacts (Suc d) (CHR ''['' # w @ [CHR '']'']) v" by (rule value_compactsI)
    moreover have "CHR ''['' # t = (CHR ''['' # w @ [CHR '']'']) @ r" by (simp add: w(1) e)
    ultimately show ?thesis by blast
  next
    case False
    then obtain es where es: "scan_elems (\<lambda>u. scan_value d u) (length t) t = Some (es, r)" "v = JArr es"
      using v c1 by (auto simp: scan_value.simps [of "Suc d"])
    from scan_elems_compacts [OF pv es(1)] obtain q p where q: "t = q @ r" "compacts_to q p" "p \<noteq> []"
        "\<not> json_space (hd p)" "hd p \<noteq> CHR '']''" "length es \<le> length p"
        "\<And>m u. length es \<le> m \<Longrightarrow>
         scan_elems (\<lambda>u. scan_value d u) m (p @ u) = Some (map (map_prod compact compact_json) es, u)"
      by blast
    obtain h p' where p: "p = h # p'" using q(3) by (cases p) auto
    have "scan_value (Suc d) ((CHR ''['' # p) @ u) = Some (compact_json v, u)" for u
      using q(7) [of "length (p @ u)" u] q(4,5,6) by (simp add: scan_value.simps [of "Suc d"] p es(2))
    then have "encodes (Suc d) (CHR ''['' # p) (compact_json v)" by (simp add: encodes_def)
    with value_compactsI [OF compacts_to_Cons [OF _ q(2)]] have "value_compacts (Suc d) (CHR ''['' # q) v" by simp
    then show ?thesis using q(1) by (intro exI [of _ "CHR ''['' # q"]) simp
  qed
qed

lemma value_compacts_object:
  assumes pv: "\<And>s v r. scan_value d s = Some (v, r) \<Longrightarrow> \<exists>q. s = q @ r \<and> value_compacts d q v"
    and v: "scan_value (Suc d) (CHR ''{'' # t) = Some (v, r)"
  shows "\<exists>q. CHR ''{'' # t = q @ r \<and> value_compacts (Suc d) q v"
proof -
  obtain c1 t1 where c1: "skip_ws t = c1 # t1" using v by (auto simp: scan_value.simps [of "Suc d"] split: list.splits)
  show ?thesis
  proof (cases "c1 = CHR ''}''")
    case True
    from skip_ws_split [of t] c1 obtain w where w: "t = w @ CHR ''}'' # t1" "list_all json_space w" using True by metis
    have e: "v = JObj []" "r = t1" using v c1 True by (simp_all add: scan_value.simps [of "Suc d"])
    have "compacts_to (CHR ''{'' # w @ [CHR ''}'']) (CHR ''{'' # [CHR ''}''])"
      using w(2) by (intro compacts_to_Cons compacts_to_skip compacts_to_plain) simp_all
    moreover have "encodes (Suc d) (CHR ''{'' # [CHR ''}'']) (compact_json v)"
      by (simp add: encodes_def e scan_value.simps [of "Suc d"])
    ultimately have "value_compacts (Suc d) (CHR ''{'' # w @ [CHR ''}'']) v" by (rule value_compactsI)
    moreover have "CHR ''{'' # t = (CHR ''{'' # w @ [CHR ''}'']) @ r" by (simp add: w(1) e)
    ultimately show ?thesis by blast
  next
    case False
    then obtain ms where ms: "scan_members (\<lambda>u. scan_value d u) (length t) t = Some (ms, r)" "v = JObj ms"
      using v c1 by (auto simp: scan_value.simps [of "Suc d"])
    from scan_members_compacts [OF pv ms(1)] obtain q p where q: "t = q @ r" "compacts_to q (CHR 0x22 # p)"
        "length ms \<le> length p"
        "\<And>m u. length ms \<le> m \<Longrightarrow>
         scan_members (\<lambda>u. scan_value d u) m (CHR 0x22 # p @ u) = Some (map compact_member ms, u)"
      by blast
    have "scan_value (Suc d) ((CHR ''{'' # CHR 0x22 # p) @ u) = Some (compact_json v, u)" for u
      using q(4) [of "Suc (length (p @ u))" u] q(3) by (simp add: scan_value.simps [of "Suc d"] ms(2) del: scan_members.simps)
    then have "encodes (Suc d) (CHR ''{'' # CHR 0x22 # p) (compact_json v)" by (simp add: encodes_def)
    with value_compactsI [OF compacts_to_Cons [OF _ q(2)]] have "value_compacts (Suc d) (CHR ''{'' # q) v" by simp
    then show ?thesis using q(1) by (intro exI [of _ "CHR ''{'' # q"]) simp
  qed
qed

lemma value_compacts_word:
  assumes "list_all plain_char q" "q \<noteq> []" "\<And>u. delimited u \<Longrightarrow> scan_value d (q @ u) = Some (compact_json v, u)"
  shows "value_compacts d q v"
proof -
  have "\<not> json_space (hd q)" using assms(1,2) by (cases q) (simp_all add: plain_char_def)
  with assms show ?thesis by (intro value_compactsI [OF compacts_to_plain]) (simp_all add: encodes_def)
qed

lemma scan_value_number:
  assumes "c \<notin> {CHR 0x22, CHR ''['', CHR ''{''}" "\<not> has_prefix (c # t) ''true''" "\<not> has_prefix (c # t) ''false''"
    "\<not> has_prefix (c # t) ''null''"
  shows "scan_value d (c # t) = map_option (\<lambda>(n, r). (JNum n, r)) (scan_number (c # t))"
  using assms by (simp add: scan_value.simps)

lemma literal_values:
  "scan_value d (''true'' @ u) = Some (JBool True, u)" "scan_value d (''false'' @ u) = Some (JBool False, u)"
  "scan_value d (''null'' @ u) = Some (JNull, u)"
  by (simp_all add: scan_value.simps has_prefix_def)

lemma has_prefix_split: "has_prefix s p \<Longrightarrow> s = p @ drop (length p) s"
  by (metis append_take_drop_id has_prefix_def)

lemma value_compacts_leaf:
  assumes c: "c \<noteq> CHR ''[''" "c \<noteq> CHR ''{''" and v: "scan_value d (c # t) = Some (v, r)"
  shows "\<exists>q. c # t = q @ r \<and> value_compacts d q v"
proof (cases "c = CHR 0x22")
  case True
  then obtain x where x: "scan_string (length t) t = Some (x, r)" "v = JStr x"
    using v by (auto simp: scan_value.simps simp del: scan_string.simps)
  from scan_string_compacts [OF x(1)] obtain q p where q: "t = q @ r" "literal_compacts q p x" by blast
  from value_compactsI [OF compacts_to_literal [OF q(2)], of d v] encodes_literal [OF q(2)]
  have "value_compacts d (CHR 0x22 # q) v" by (simp add: x(2))
  then show ?thesis using True q(1) by (intro exI [of _ "CHR 0x22 # q"]) simp
next
  case False
  have word: ?thesis if w: "has_prefix (c # t) w" "w \<in> {''true'', ''false'', ''null''}" for w
  proof -
    from has_prefix_split [OF w(1)] have s: "c # t = w @ drop (length w) (c # t)" .
    from w(2) obtain x where x: "\<And>u. scan_value d (w @ u) = Some (x, u)" "compact_json x = x"
      using literal_values by (auto; metis compact_json.simps(1,2))
    have e: "v = x" "r = drop (length w) (c # t)" using v x(1) [of "drop (length w) (c # t)"] s by simp_all
    have "value_compacts d w v"
      using w(2) x by (intro value_compacts_word) (auto simp: e(1) plain_char_def json_space_def)
    then show ?thesis using s e(2) by blast
  qed
  show ?thesis
  proof (cases "has_prefix (c # t) ''true'' \<or> has_prefix (c # t) ''false'' \<or> has_prefix (c # t) ''null''")
    case True
    then show ?thesis using word by blast
  next
    case no_word: False
    note num = scan_value_number [of c t d]
    from num c False no_word v obtain n where n: "scan_number (c # t) = Some (n, r)" "v = JNum n"
      by (cases "scan_number (c # t)") auto
    note sn = scan_number_split [OF n(1)]
    have "list_all plain_char n" using sn by (auto simp: list_all_iff number_char_plain)
    moreover have "scan_value d (n @ u) = Some (compact_json v, u)" if u: "delimited u" for u
    proof -
      have again: "scan_number (n @ u) = Some (n, u)" using sn u by blast
      obtain n' where n': "n = c # n'" using sn by (cases n) auto
      have "list_all number_char n" using sn by blast
      then have "number_char c" "\<And>w. w \<in> {''true'', ''false'', ''null''} \<Longrightarrow> \<not> has_prefix (c # n' @ u) w"
        by (auto simp: n' number_char_def has_prefix_def is_digit_def)
      then show ?thesis using scan_value_number [of c "n' @ u" d] c False again n(2) by (simp add: n')
    qed
    ultimately have "value_compacts d n v" using sn by (intro value_compacts_word) auto
    then show ?thesis using sn by blast
  qed
qed

lemma scan_value_compacts:
  "scan_value d s = Some (v, r) \<Longrightarrow> \<exists>q. s = q @ r \<and> value_compacts d q v"
proof (induction d arbitrary: s v r)
  case 0
  then obtain c t where s: "s = c # t" by (cases s) (auto simp: scan_value.simps)
  with 0 have "c \<noteq> CHR ''[''" "c \<noteq> CHR ''{''" by (auto simp: scan_value.simps)
  from value_compacts_leaf [OF this] 0 show ?case by (simp add: s)
next
  case (Suc d)
  then obtain c t where s: "s = c # t" by (cases s) (auto simp: scan_value.simps)
  show ?case
  proof (cases "c = CHR ''['' \<or> c = CHR ''{''")
    case True
    with value_compacts_array [OF Suc.IH] value_compacts_object [OF Suc.IH] Suc.prems show ?thesis
      by (auto simp: s)
  next
    case False
    with value_compacts_leaf [of c "Suc d" t v r] Suc.prems show ?thesis by (simp add: s)
  qed
qed

section \<open>Whole texts\<close>

text \<open>A text that holds one value nested at most \<open>d\<close> deep.\<close>

definition json_within :: "nat \<Rightarrow> string \<Rightarrow> json \<Rightarrow> bool" where
  "json_within d raw v \<longleftrightarrow> (\<exists>r. scan_value d (skip_ws raw) = Some (v, r) \<and> skip_ws r = [])"

lemma json_parse_within: "json_parse raw = Some (q, v) \<Longrightarrow> json_within max_nesting_depth raw v"
  by (auto simp: json_parse_def json_first_def json_within_def Let_def split: option.splits if_splits)

lemma compact_encodes:
  assumes "json_within d raw v" shows "encodes d (compact raw) (compact_json v)"
proof -
  obtain r where r: "scan_value d (skip_ws raw) = Some (v, r)" "skip_ws r = []"
    using assms by (auto simp: json_within_def)
  from scan_value_compacts [OF r(1)] obtain q where q: "skip_ws raw = q @ r" "value_compacts d q v" by blast
  from skip_ws_split [of raw] q(1) obtain w where w: "raw = w @ q @ r" "list_all json_space w" by metis
  have sr: "list_all json_space r" using skip_ws_split [of r] r(2) by simp
  have "compact raw = compact q @ compact r"
    using q(2) compact_spaces [OF w(2), of "q @ r"] by (simp add: w(1) value_compacts_def compacts_to_def)
  moreover have "compact r = []" using compact_spaces [OF sr, of "[]"] by simp
  ultimately show ?thesis using q(2) by (simp add: value_compacts_def)
qed

lemma json_valid_compact: "json_valid raw \<Longrightarrow> json_valid (compact raw)"
proof -
  assume "json_valid raw"
  then obtain q v where "json_parse raw = Some (q, v)" by (auto simp: json_valid_def)
  then have e: "encodes max_nesting_depth (compact raw) (compact_json v)" by (intro compact_encodes json_parse_within)
  from encodesD [OF e, of "[]"] encodes_skip_ws [OF e, of "[]"] show ?thesis
    by (simp add: json_valid_def json_parse_def json_first_def)
qed

section \<open>Raw messages\<close>

text \<open>\<open>json.Marshal\<close> of a \<open>RawMessage\<close>: a nil one is \<open>null\<close>, any other is compacted and an error unless
  it is valid. An empty list is a nil message; the program builds no other empty one.\<close>

definition raw_marshals :: "string \<Rightarrow> bool" where
  "raw_marshals raw \<longleftrightarrow> raw = [] \<or> json_valid raw"

definition marshal_raw :: "string \<Rightarrow> string" where
  "marshal_raw raw = (if raw = [] then ''null'' else compact raw)"

text \<open>A message that a parser still reads inside a value of two levels, as those the program sends are.\<close>

definition tree_of :: "string \<Rightarrow> json option" where
  "tree_of raw =
     (case scan_value (max_nesting_depth - 2) (skip_ws raw) of
        Some (v, r) \<Rightarrow> if skip_ws r = [] then Some v else None
      | None \<Rightarrow> None)"

definition raw_fits :: "string \<Rightarrow> bool" where
  "raw_fits raw \<longleftrightarrow> tree_of raw \<noteq> None"

lemma raw_fits_nonempty: "raw_fits raw \<Longrightarrow> raw \<noteq> []"
  by (auto simp: raw_fits_def tree_of_def scan_value.simps)

lemma raw_fits_valid: "raw_fits raw \<Longrightarrow> raw_marshals raw \<Longrightarrow> json_valid raw"
  using raw_fits_nonempty by (auto simp: raw_marshals_def)

lemma raw_fits_encodes:
  "raw_fits raw \<Longrightarrow> encodes (max_nesting_depth - 2) (marshal_raw raw) (compact_json (the (tree_of raw)))"
  using raw_fits_nonempty [of raw]
  by (auto simp: raw_fits_def tree_of_def marshal_raw_def json_within_def intro!: compact_encodes
      split: option.splits if_splits)

end
