(* ===== verification/Json_Parts.thy ===== *)
theory Json_Parts
  imports Json_Compact
begin

text \<open>
  Reading a text in pieces, as code that decodes into \<open>RawMessage\<close>s does. A string, a number or a
  word has on its own the value it has inside the larger text, before and after compaction;
  and a decoder reads from a compacted text what it reads from the text itself, up to the
  compaction of the pieces it keeps raw (\<open>decodes_along\<close>).
\<close>

section \<open>String literals on their own\<close>

lemma unicode_escape_short:
  assumes "unicode_escape s = Some (n, t)" shows "CHR 0x22 \<notin> set (take 6 s)"
proof -
  from u_escapeI [OF assms] obtain a where a: "s = a @ t" "u_escape a n" by blast
  from u_escape_shape [OF a(2)] obtain w x y z where s: "a = [CHR 0x5C, CHR ''u'', w, x, y, z]" "hex4 w x y z = Some n" .
  then obtain i j k l where "hex_val w = Some i" "hex_val x = Some j" "hex_val y = Some k" "hex_val z = Some l"
    by (auto simp: hex4_def split: option.splits)
  from this [THEN hex_val_chars] show ?thesis by (auto simp: a(1) s(1))
qed

lemma unicode_escape_append:
  assumes "unicode_escape (q @ u) = Some (n, t)" "CHR 0x22 \<in> set q"
  shows "\<exists>r. unicode_escape (q @ u') = Some (n, r)"
proof -
  from u_escapeI [OF assms(1)] obtain a where a: "q @ u = a @ t" "u_escape a n" by blast
  then have len: "length a = 6" by (simp add: u_escape_def)
  have "6 \<le> length q"
  proof (rule ccontr)
    assume "\<not> 6 \<le> length q"
    then have "set q \<subseteq> set (take 6 (q @ u))" by simp
    with unicode_escape_short [OF assms(1)] assms(2) show False by blast
  qed
  then have "take 6 (q @ u) = take 6 q" by simp
  moreover have "take 6 (q @ u) = a" using a(1) len by simp
  ultimately have "q = a @ drop 6 q" by (metis append_take_drop_id)
  then have "unicode_escape (q @ u') = Some (n, drop 6 q @ u')" using a(2)
    by (metis append_assoc u_escape_def)
  then show ?thesis by blast
qed

text \<open>\<open>q\<close> is the body of a literal of value \<open>v\<close>, with its closing quote, whatever follows.\<close>

definition literal_of :: "string \<Rightarrow> string \<Rightarrow> bool" where
  "literal_of q v \<longleftrightarrow>
     CHR 0x22 \<in> set q \<and> (\<forall>u m. length q \<le> m \<longrightarrow> scan_string m (q @ u) = Some (v, u))"

lemma literal_of_extend:
  assumes lit: "literal_of q v" and a: "a \<noteq> []"
    and step: "\<And>u m. scan_string (Suc m) (a @ q @ u) = map_option (\<lambda>(w, r). (x @ w, r)) (scan_string m (q @ u))"
  shows "literal_of (a @ q) (x @ v)"
proof -
  have "scan_string m ((a @ q) @ u) = Some (x @ v, u)" if len: "length (a @ q) \<le> m" for u m
  proof -
    have "1 \<le> length a" using a by (simp add: Suc_le_eq)
    moreover have "length a + length q \<le> m" using len by simp
    ultimately have "m = Suc (m - 1)" "length q \<le> m - 1" by linarith+
    then obtain m' where m': "m = Suc m'" "length q \<le> m'" by blast
    with lit have "scan_string m' (q @ u) = Some (v, u)" by (simp add: literal_of_def)
    then show ?thesis by (simp add: m'(1) step del: scan_string.simps)
  qed
  with lit show ?thesis by (simp add: literal_of_def del: scan_string.simps)
qed

lemma literal_of_tail: "literal_of q v \<Longrightarrow> takeWhile cont (q @ u) = takeWhile cont q"
  by (auto simp: literal_of_def cont_def intro: takeWhile_append1)

lemma literal_of_escape:
  assumes rune: "escaped_rune s = Some (x, q @ r)" and lit: "literal_of q v"
  shows "\<exists>a. s = a @ q @ r \<and> literal_of (a @ q) (x @ v)"
proof -
  obtain n t where n: "unicode_escape s = Some (n, t)" using rune by (auto simp: escaped_rune_def split: option.splits)
  from u_escapeI [OF n] obtain a where a: "s = a @ t" "u_escape a n" by blast
  have ua: "unicode_escape (a @ z) = Some (n, z)" for z using a(2) by (simp add: u_escape_def)
  show ?thesis
  proof (cases "is_surrogate n \<and> (\<exists>n2 t2. unicode_escape t = Some (n2, t2) \<and> n < 56320 \<and> 56320 \<le> n2 \<and> n2 < 57344)")
    case True
    then obtain n2 t2 where n2: "unicode_escape t = Some (n2, t2)" "n < 56320" "56320 \<le> n2" "n2 < 57344" by blast
    from u_escapeI [OF n2(1)] obtain b where b: "t = b @ t2" "u_escape b n2" by blast
    have ub: "unicode_escape (b @ z) = Some (n2, z)" for z using b(2) by (simp add: u_escape_def)
    have x: "x = utf8_encode ((n - 55296) * 1024 + (n2 - 56320) + 65536)" "t2 = q @ r"
      using rune n n2 True by (auto simp: escaped_rune_def)
    have "escaped_rune ((a @ b) @ q @ u) = Some (x, q @ u)" for u
      using True n2 by (simp add: escaped_rune_def ua ub x(1))
    from literal_of_extend [OF lit _ scan_escaped_rune [OF this]] u_escape_head [OF a(2)] a(1) b(1) x(2)
    show ?thesis by (metis append_assoc append_is_Nil_conv)
  next
    case False
    then have x: "t = q @ r" "x = (if is_surrogate n then utf8_encode 65533 else utf8_encode n)"
      using rune n by (auto simp: escaped_rune_def split: option.splits if_splits)
    have "escaped_rune (a @ q @ u) = Some (x, q @ u)" for u
    proof (cases "is_surrogate n")
      case sur: True
      have "CHR 0x22 \<in> set q" using lit by (simp add: literal_of_def)
      from unicode_escape_append [OF _ this, where u' = r] False sur x(1)
      have "\<not> (n < 56320 \<and> 56320 \<le> n2 \<and> n2 < 57344)" if "unicode_escape (q @ u) = Some (n2, y)" for n2 y
        using that by blast
      then show ?thesis using sur by (auto simp: escaped_rune_def ua x(2) split: option.split)
    qed (simp add: escaped_rune_def ua x(2))
    from literal_of_extend [OF lit _ scan_escaped_rune [OF this]] u_escape_head [OF a(2)] a(1) x(1) show ?thesis
      by blast
  qed
qed

lemma scan_string_literal:
  "scan_string n t = Some (v, r) \<Longrightarrow> \<exists>q. t = q @ r \<and> literal_of q v"
proof (induction n arbitrary: t v)
  case (Suc n)
  obtain c s where t: "t = c # s" using Suc.prems by (cases t) auto
  have lift: ?case if "s' = q @ r" "t = a @ s'" "v = x @ w" "literal_of (a @ q) (x @ w)" for a s' q x w
    using that by auto
  consider "c = CHR 0x22" | "c = CHR 0x5C" | "c \<noteq> CHR 0x22" "c \<noteq> CHR 0x5C" "(of_char c :: nat) < 128"
    | "128 \<le> (of_char c :: nat)" by linarith
  then show ?case
  proof cases
    case 1
    then have "v = []" "s = r" using Suc.prems by (simp_all add: t)
    moreover have "literal_of [CHR 0x22] []"
      by (auto simp: literal_of_def dest!: Suc_le_D)
    ultimately show ?thesis using 1 by (intro exI [of _ "[CHR 0x22]"]) (simp add: t)
  next
    case 2
    from scan_string_escape [OF Suc.prems [unfolded t 2]] show ?thesis
    proof (elim disjE exE conjE)
      fix e x s' w assume h: "s = e # s'" "simple_escape e = Some x" "v = x # w" "scan_string n s' = Some (w, r)"
      from Suc.IH [OF h(4)] obtain q where q: "s' = q @ r" "literal_of q w" by blast
      have "literal_of ([CHR 0x5C, e] @ q) ([x] @ w)"
        using h(2) by (intro literal_of_extend [OF q(2)]) simp_all
      with q(1) h show ?thesis by (intro lift [of s' q "[CHR 0x5C, e]" "[x]" w]) (simp_all add: t 2)
    next
      fix x s' w assume h: "escaped_rune (CHR 0x5C # s) = Some (x, s')" "v = x @ w" "scan_string n s' = Some (w, r)"
      from Suc.IH [OF h(3)] obtain q where q: "s' = q @ r" "literal_of q w" by blast
      from literal_of_escape [OF h(1) [unfolded q(1)] q(2)] obtain a where
        "CHR 0x5C # s = a @ q @ r" "literal_of (a @ q) (x @ w)" by blast
      with q(1) h(2) show ?thesis by (intro lift [of s' q a x w]) (simp_all add: t 2)
    qed
  next
    case 3
    from scan_string_ascii [OF this Suc.prems [unfolded t]] obtain w where
      h: "32 \<le> (of_char c :: nat)" "v = c # w" "scan_string n s = Some (w, r)" by blast
    from Suc.IH [OF h(3)] obtain q where q: "s = q @ r" "literal_of q w" by blast
    have "literal_of ([c] @ q) ([c] @ w)"
      using scan_plain [OF 3(3) h(1) 3(1,2)] by (intro literal_of_extend [OF q(2)]) simp_all
    with q(1) h(2) show ?thesis by (intro lift [of s q "[c]" "[c]" w]) (simp_all add: t)
  next
    case 4
    note high = scan_string_high [OF 4 Suc.prems [unfolded t]]
    have sp: "c \<noteq> CHR 0x22" "c \<noteq> CHR 0x5C" "\<not> (of_char c :: nat) < 32" "\<not> (of_char c :: nat) < 128"
      using 4 by auto
    show ?thesis
    proof (cases "utf8_len (c # s)")
      case None
      with high obtain w where h: "v = utf8_encode 65533 @ w" "scan_string n s = Some (w, r)" by auto
      from Suc.IH [OF h(2)] obtain q where q: "s = q @ r" "literal_of q w" by blast
      have "utf8_len (c # q @ u) = None" for u
        using None utf8_len_same_conts [of "q @ u" "q @ r" c] literal_of_tail [OF q(2)] by (simp add: q(1))
      then have "literal_of ([c] @ q) (utf8_encode 65533 @ w)"
        using sp by (intro literal_of_extend [OF q(2)]) simp_all
      with q(1) h show ?thesis by (intro lift [of s q "[c]" "utf8_encode 65533" w]) (simp_all add: t)
    next
      case (Some k)
      with high obtain w where h: "v = take k (c # s) @ w" "scan_string n (drop k (c # s)) = Some (w, r)" by auto
      from Suc.IH [OF h(2)] obtain q where q: "drop k (c # s) = q @ r" "literal_of q w" by blast
      let ?a = "take k (c # s)"
      note sh = sequence_shape [OF Some 4]
      obtain k' where k: "k = Suc k'" using sh by (cases k) auto
      have tk: "length ?a = k" using utf8_len_bounds [OF Some] by (simp add: min_def)
      have "utf8_len (?a @ q @ u) = Some k" for u
      proof -
        have "takeWhile cont (take k' s @ q @ u) = takeWhile cont (take k' s @ q @ r)"
          using sh literal_of_tail [OF q(2)] k by (simp add: takeWhile_append2 list_all_iff)
        moreover have "take k' s @ q @ r = s" using q(1) k by (metis append_take_drop_id drop_Suc_Cons)
        ultimately show ?thesis using utf8_len_same_conts [of "take k' s @ q @ u" s c] Some k by simp
      qed
      then have "literal_of (?a @ q) (?a @ w)"
        using sp tk by (intro literal_of_extend [OF q(2)]) (simp_all add: k)
      moreover have "t = ?a @ drop k (c # s)" by (simp only: t append_take_drop_id)
      ultimately show ?thesis using q(1) h(1) by (intro lift [of "drop k (c # s)" q ?a ?a w])
    qed
  qed
qed simp

section \<open>Members on their own\<close>

primrec scalar :: "json \<Rightarrow> bool" where
  "scalar JNull = True"
| "scalar (JBool b) = True"
| "scalar (JNum n) = True"
| "scalar (JStr s) = True"
| "scalar (JArr es) = False"
| "scalar (JObj ms) = False"

definition bracket :: "char \<Rightarrow> bool" where
  "bracket c \<longleftrightarrow> c = CHR ''['' \<or> c = CHR ''{''"

lemma scan_bracket: "bracket c \<Longrightarrow> scan_value d (c # t) = Some (v, r) \<Longrightarrow> \<not> scalar v"
  by (auto simp: bracket_def scan_value.simps [of d] split: nat.splits list.splits if_splits)

definition reads_alone :: "string \<Rightarrow> json \<Rightarrow> bool" where
  "reads_alone raw v \<longleftrightarrow>
     raw \<noteq> [] \<and> (if scalar v then \<forall>d. encodes d raw v else bracket (hd raw))"

lemma literal_encodes:
  assumes "literal_of q x" shows "encodes d (CHR 0x22 # q) (JStr x)"
proof -
  have "scan_string (length (q @ u)) (q @ u) = Some (x, u)" for u
    using assms by (simp add: literal_of_def del: scan_string.simps)
  then show ?thesis by (simp add: encodes_def scan_value.simps del: scan_string.simps)
qed

lemma reads_alone_words:
  "reads_alone ''true'' (JBool True)" "reads_alone ''false'' (JBool False)" "reads_alone ''null'' JNull"
  unfolding reads_alone_def encodes_def literal_values by (simp_all add: json_space_def)

lemma scan_value_reads_alone:
  assumes v: "scan_value d (c # t) = Some (v, r)"
  shows "\<exists>q. c # t = q @ r \<and> reads_alone q v"
proof -
  from scan_value_compacts [OF v] obtain q where q: "c # t = q @ r" "value_compacts d q v" by blast
  have ne: "q \<noteq> []" using q(2) compacts_to_self by (auto simp: value_compacts_def encodes_def)
  then obtain q' where q': "q = c # q'" using q(1) by (cases q) auto
  consider "bracket c" | "c = CHR 0x22"
    | w where "has_prefix (c # t) w" "w \<in> {''true'', ''false'', ''null''}"
    | "\<not> bracket c" "c \<noteq> CHR 0x22" "\<not> has_prefix (c # t) ''true''" "\<not> has_prefix (c # t) ''false''"
      "\<not> has_prefix (c # t) ''null''" by blast
  then show ?thesis
  proof cases
    case 1
    with scan_bracket [OF 1 v] q(1) show ?thesis by (intro exI [of _ q]) (simp add: reads_alone_def q')
  next
    case 2
    then obtain x where x: "scan_string (length t) t = Some (x, r)" "v = JStr x"
      using v by (auto simp: scan_value.simps simp del: scan_string.simps)
    from scan_string_literal [OF x(1)] obtain p where "t = p @ r" "literal_of p x" by blast
    with literal_encodes show ?thesis
      by (intro exI [of _ "CHR 0x22 # p"]) (simp add: reads_alone_def x(2) 2)
  next
    case (3 w)
    from has_prefix_split [OF 3(1)] have s: "c # t = w @ drop (length w) (c # t)" .
    then have "scan_value d (w @ drop (length w) (c # t)) = Some (v, r)" using v by metis
    moreover obtain x where x: "\<And>u. scan_value d (w @ u) = Some (x, u)" "reads_alone w x"
      using 3(2) literal_values [of d] reads_alone_words by blast
    ultimately have "x = v" "r = drop (length w) (c # t)" by simp_all
    with x(2) s show ?thesis by blast
  next
    case 4
    then have nb: "c \<notin> {CHR 0x22, CHR ''['', CHR ''{''}" by (auto simp: bracket_def)
    from scan_value_number [OF nb 4(3-5), of d] v obtain n where n: "scan_number (c # t) = Some (n, r)" "v = JNum n"
      by (cases "scan_number (c # t)") auto
    note sn = scan_number_split [OF n(1)]
    then obtain n' where n': "n = c # n'" by (cases n) auto
    have num: "list_all number_char n" using sn by blast
    have "scan_value d' (n @ u) = Some (v, u)" if u: "delimited u" for d' u
    proof -
      have again: "scan_number (n @ u) = Some (n, u)" using sn u by blast
      have "\<not> has_prefix (c # n' @ u) w" if "w \<in> {''true'', ''false'', ''null''}" for w
        using num that by (auto simp: n' number_char_def has_prefix_def is_digit_def)
      then show ?thesis using scan_value_number [OF nb, of "n' @ u" d'] again n(2) by (simp add: n')
    qed
    moreover have "\<not> json_space c" using num number_char_plain by (simp add: n' plain_char_def)
    ultimately have "reads_alone n v" by (simp add: reads_alone_def encodes_def n(2)) (simp add: n')
    with sn show ?thesis by blast
  qed
qed

definition scanned :: "json \<Rightarrow> bool" where
  "scanned v \<longleftrightarrow> (\<exists>d s r. scan_value d s = Some (v, r))"

lemma scan_members_read_alone:
  "scan_members (\<lambda>u. scan_value d u) n s = Some (ms, r) \<Longrightarrow> (k, raw, v) \<in> set ms \<Longrightarrow> reads_alone raw v \<and> scanned v"
proof (induction n arbitrary: s ms)
  case (Suc n)
  from scan_member_parts [OF Suc.prems(1)] obtain s2 k' v' t t' where
    m: "scan_value d (skip_ws s2) = Some (v', t)"
    and c: "ms = [(k', raw_of (skip_ws s2) t, v')] \<or> (\<exists>ms'. ms = (k', raw_of (skip_ws s2) t, v') # ms' \<and>
        scan_members (\<lambda>u. scan_value d u) n t' = Some (ms', r))"
    by blast
  obtain h u where hu: "skip_ws s2 = h # u" using m by (cases "skip_ws s2") (auto simp: scan_value.simps)
  from scan_value_reads_alone [OF m [unfolded hu]] obtain q where "h # u = q @ t" "reads_alone q v'" by blast
  then have "reads_alone (raw_of (skip_ws s2) t) v'" by (simp add: hu)
  moreover have "scanned v'" using m by (auto simp: scanned_def)
  ultimately show ?case using c Suc.IH Suc.prems(2) by auto
qed simp

lemma scanned_members: "scanned (JObj ms) \<Longrightarrow> (k, raw, v) \<in> set ms \<Longrightarrow> reads_alone raw v \<and> scanned v"
proof -
  assume "scanned (JObj ms)" and m: "(k, raw, v) \<in> set ms"
  then obtain d s r where v: "scan_value d s = Some (JObj ms, r)" by (auto simp: scanned_def)
  obtain c t where s: "s = c # t" using v by (cases s) (auto simp: scan_value.simps)
  have "ms = [] \<or> (\<exists>d n u. scan_members (\<lambda>u. scan_value d u) n u = Some (ms, r))"
    using v unfolding s
    by (auto simp: scan_value.simps [of d] split: if_splits nat.splits list.splits
        simp del: scan_members.simps scan_string.simps)
  with m scan_members_read_alone show ?thesis by auto
qed

lemma scanned_named: "scanned (JObj ms) \<Longrightarrow> (raw, v) \<in> set (members_named ms f) \<Longrightarrow> reads_alone raw v \<and> scanned v"
  by (auto simp: members_named_def dest: scanned_members)

lemma parsed_scanned: "json_parse raw = Some (q, v) \<Longrightarrow> scanned v"
  unfolding scanned_def
  by (auto simp: json_parse_def json_first_def Let_def split: option.splits if_splits) blast

text \<open>A decoder of scalars reads the same from the compacted text.\<close>

definition reads_scalars :: "'a decoder \<Rightarrow> 'a \<Rightarrow> bool" where
  "reads_scalars dec zero \<longleftrightarrow>
     (\<forall>raw v. \<not> scalar v \<longrightarrow> dec (raw, v) zero = None) \<and>
     (\<forall>raw raw' v. scalar v \<longrightarrow> dec (raw, v) zero = dec (raw', v) zero)"

lemma reads_scalars_f64: "reads_scalars dec_f64 x"
  by (auto simp: reads_scalars_def dec_f64_def split: json.splits)

lemma reads_scalars_string: "reads_scalars dec_string x"
  by (auto simp: reads_scalars_def dec_string_def split: json.splits)

lemma unmarshal_bracket:
  assumes "reads_scalars dec zero" "bracket c" shows "unmarshal dec zero (c # t) = None"
proof -
  have "\<not> json_space c" using assms(2) by (auto simp: bracket_def json_space_def)
  with assms show ?thesis
    by (auto simp: unmarshal_def json_parse_def json_first_def Let_def reads_scalars_def split: option.split
        dest: scan_bracket)
qed

lemma unmarshal_compact:
  assumes dec: "reads_scalars dec zero" and raw: "reads_alone raw v"
  shows "unmarshal dec zero (compact raw) = unmarshal dec zero raw"
proof (cases "scalar v")
  case True
  with raw have e: "encodes max_nesting_depth raw v" by (simp add: reads_alone_def)
  have "json_within max_nesting_depth raw v"
    using encodesD [OF e, of "[]"] encodes_skip_ws [OF e, of "[]"] by (simp add: json_within_def)
  from compact_encodes [OF this] have "encodes max_nesting_depth (compact raw) v" using True by (cases v) simp_all
  with e dec True show ?thesis by (simp add: unmarshal_encoded reads_scalars_def)
next
  case False
  with raw obtain c t where "raw = c # t" "bracket c" by (cases raw) (auto simp: reads_alone_def)
  moreover from this have "compact raw = c # compact t" by (auto simp: bracket_def intro!: compact_plain)
  ultimately show ?thesis using unmarshal_bracket [OF dec] by simp
qed

text \<open>A piece kept raw: nothing, or a member's text.\<close>

definition raw_piece :: "string \<Rightarrow> bool" where
  "raw_piece raw \<longleftrightarrow> raw = [] \<or> (\<exists>v. reads_alone raw v)"

lemma compact_piece_empty: "reads_alone raw v \<Longrightarrow> compact raw \<noteq> []"
proof
  assume r: "reads_alone raw v" and e: "compact raw = []"
  show False
  proof (cases "scalar v")
    case True
    with r have x: "encodes max_nesting_depth raw v" by (simp add: reads_alone_def)
    have "json_within max_nesting_depth raw v"
      using encodesD [OF x, of "[]"] encodes_skip_ws [OF x, of "[]"] by (simp add: json_within_def)
    from compact_encodes [OF this] e show False by (simp add: encodes_def)
  next
    case False
    with r obtain c t where "raw = c # t" "bracket c" by (cases raw) (auto simp: reads_alone_def)
    with compact_plain [of c t] structural_plain e show False by (auto simp: bracket_def)
  qed
qed

lemma piece_compact:
  assumes "raw_piece raw"
  shows "compact raw = [] \<longleftrightarrow> raw = []"
    and "reads_scalars dec zero \<Longrightarrow> unmarshal dec zero (compact raw) = unmarshal dec zero raw"
  using assms compact_piece_empty unmarshal_compact by (fastforce simp: raw_piece_def)+

section \<open>Decoders and compaction\<close>

lemma json_parse_compact:
  assumes "json_parse raw = Some (q, v)"
  shows "json_parse (compact raw) = Some (compact q, compact_json v)"
proof -
  obtain r where r: "scan_value max_nesting_depth (skip_ws raw) = Some (v, r)" "skip_ws r = []" "q = raw_of (skip_ws raw) r"
    using assms by (auto simp: json_parse_def json_first_def Let_def split: option.splits if_splits)
  from scan_value_compacts [OF r(1)] obtain q' where q': "skip_ws raw = q' @ r" "value_compacts max_nesting_depth q' v"
    by blast
  then have q: "q = q'" using r(3) by simp
  from skip_ws_split [of raw] q'(1) obtain w where w: "raw = w @ q' @ r" "list_all json_space w" by metis
  have "list_all json_space r" using skip_ws_split [of r] r(2) by simp
  then have "compact r = []" using compact_spaces [of r "[]"] by simp
  then have c: "compact raw = compact q"
    using q'(2) compact_spaces [OF w(2), of "q' @ r"] by (simp add: w(1) q value_compacts_def compacts_to_def)
  have e: "encodes max_nesting_depth (compact q) (compact_json v)" using q'(2) by (simp add: q value_compacts_def)
  from encodesD [OF e, of "[]"] encodes_skip_ws [OF e, of "[]"] raw_of_append [of "compact q" "[]"] show ?thesis
    by (simp add: c json_parse_def json_first_def)
qed

definition decodes_along :: "('a \<Rightarrow> 'a) \<Rightarrow> 'a decoder \<Rightarrow> bool" where
  "decodes_along f dec \<longleftrightarrow> (\<forall>raw v x. dec (compact raw, compact_json v) (f x) = map_option f (dec (raw, v) x))"

abbreviation keeps_no_raw :: "'a decoder \<Rightarrow> bool" where
  "keeps_no_raw \<equiv> decodes_along (\<lambda>x. x)"

lemma unmarshal_follows:
  assumes "decodes_along f dec" "json_valid raw"
  shows "unmarshal dec (f zero) (compact raw) = map_option f (unmarshal dec zero raw)"
proof -
  obtain q v where v: "json_parse raw = Some (q, v)" using assms(2) by (auto simp: json_valid_def)
  with json_parse_compact [OF v] assms(1) show ?thesis by (simp add: unmarshal_def decodes_along_def)
qed

lemma unmarshal_keeps_no_raw:
  "keeps_no_raw dec \<Longrightarrow> json_valid raw \<Longrightarrow> unmarshal dec zero (compact raw) = unmarshal dec zero raw"
  using unmarshal_follows [of "\<lambda>x. x" dec raw zero] by (simp add: option.map_ident)

lemma follows_scalars [simp]:
  "keeps_no_raw dec_string" "keeps_no_raw dec_bool" "keeps_no_raw dec_number" "keeps_no_raw dec_int64"
  "keeps_no_raw dec_uint64" "keeps_no_raw dec_f64"
  unfolding decodes_along_def option.map_ident
  by (auto simp: json_decoders split: json.split)

lemma follows_raw [simp]: "decodes_along compact dec_raw"
  by (simp add: decodes_along_def dec_raw_def)

lemma members_named_compact:
  "members_named (map compact_member ms) f = map (map_prod compact compact_json) (members_named ms f)"
  by (induction ms) (auto simp: members_named_def)

lemma follows_field [simp]:
  assumes "decodes_along f dec"
  shows "dec_field (map compact_member ms) k dec (f x) = map_option f (dec_field ms k dec x)"
proof -
  have "dec_seq dec (map (map_prod compact compact_json) rvs) (f x) = map_option f (dec_seq dec rvs x)" for rvs
    using assms by (induction rvs arbitrary: x) (auto simp: decodes_along_def split: option.split)
  then show ?thesis by (simp add: dec_field_def members_named_compact)
qed

lemma keeps_field [simp]: "keeps_no_raw dec \<Longrightarrow> dec_field (map compact_member ms) k dec x = dec_field ms k dec x"
  using follows_field [of "\<lambda>x. x" dec ms k x] by (simp add: option.map_ident)

lemma follows_struct:
  "(\<And>ms x. fields (map compact_member ms) (f x) = map_option f (fields ms x)) \<Longrightarrow> decodes_along f (dec_struct fields)"
  by (auto simp: decodes_along_def dec_struct_def split: json.split)

lemma keeps_struct [simp]:
  "(\<And>ms x. fields (map compact_member ms) x = fields ms x) \<Longrightarrow> keeps_no_raw (dec_struct fields)"
  by (rule follows_struct) (simp add: option.map_ident)

lemma keeps_slice [simp]:
  assumes "keeps_no_raw dec" shows "keeps_no_raw (dec_slice dec zero)"
proof -
  have "dec_list dec zero (map (map_prod compact compact_json) es) olds = dec_list dec zero es olds" for es olds
    using assms by (induction es arbitrary: olds) (auto simp: decodes_along_def option.map_ident split: option.split)
  then show ?thesis by (auto simp: decodes_along_def dec_slice_def option.map_ident split: json.split)
qed

lemma keeps_map [simp]:
  assumes "keeps_no_raw dec" shows "keeps_no_raw (dec_map dec zero)"
proof -
  have "dec_entries dec zero (map compact_member ms) m = dec_entries dec zero ms m" for ms m
    using assms by (induction ms arbitrary: m) (auto simp: decodes_along_def option.map_ident split: option.split)
  then show ?thesis by (auto simp: decodes_along_def dec_map_def option.map_ident split: json.split)
qed

lemma keeps_ptr [simp]: "keeps_no_raw dec \<Longrightarrow> keeps_no_raw (dec_ptr dec zero)"
proof -
  assume d: "keeps_no_raw dec"
  have "dec_ptr dec zero (compact raw, compact_json v) x = dec_ptr dec zero (raw, v) x" for raw v x
  proof -
    have "dec (compact raw, compact_json v) y = dec (raw, v) y" for y
      using d by (simp add: decodes_along_def option.map_ident)
    then show ?thesis by (cases v) (simp_all add: dec_ptr_def)
  qed
  then show ?thesis by (simp add: decodes_along_def option.map_ident)
qed

lemma piece_field:
  assumes "scanned (JObj ms)" "raw_piece x" "dec_field ms k dec_raw x = Some y"
  shows "raw_piece y"
proof -
  have "raw_piece y" if "dec_seq dec_raw rvs x = Some y" "set rvs \<subseteq> set (members_named ms k)" "raw_piece x" for rvs x
    using that
  proof (induction rvs arbitrary: x)
    case (Cons rv rvs)
    obtain raw v where rv: "rv = (raw, v)" by (cases rv)
    then have "reads_alone raw v" using Cons.prems(2) scanned_named [OF assms(1), of raw v k] by simp
    then have "raw_piece raw" by (auto simp: raw_piece_def)
    with Cons show ?case by (simp add: rv dec_raw_def)
  qed simp
  with assms(2,3) show ?thesis by (auto simp: dec_field_def)
qed

end
