(* ===== verification/Logs_End_To_End.thy ===== *)
theory Logs_End_To_End
  imports End_To_End Json_Parts Log_Collector
begin

text \<open>
  A log batch from the sentinel to Loki: \<open>json.Marshal\<close> of the payload, as \<open>flushLogs\<close> applies
  it, and what the watchtower makes of the text after it has travelled compressed.
\<close>

section \<open>The payload on the wire\<close>

text \<open>\<open>json.Marshal\<close> of \<open>protocol.LogPayload\<close>: the lines are \<open>json.RawMessage\<close>s, each compacted, and
  an invalid one is an error. An empty list of lines is a nil slice.\<close>

definition marshal_batch :: "batch \<Rightarrow> string option" where
  "marshal_batch b =
     (if list_all raw_marshals (bt_lines b) then
        Some (''{'' @ quote_string ''level'' @ '':'' @ quote_string (bt_level b) @ '','' @
          quote_string ''lines'' @ '':'' @
          (if bt_lines b = [] then ''null'' else ''['' @ join_with '','' (map marshal_raw (bt_lines b)) @ '']'') @ ''}'')
      else None)"

definition batch_members :: "batch \<Rightarrow> (string \<times> string \<times> json) list" where
  "batch_members b =
     [(''level'', quote_string (bt_level b), JStr (bt_level b)),
      (''lines'', if bt_lines b = [] then (''null'', JNull)
                  else (''['' @ join_with '','' (map marshal_raw (bt_lines b)) @ '']'',
                        JArr (map (\<lambda>l. (marshal_raw l, compact_json (the (tree_of l)))) (bt_lines b))))]"

lemma batch_members_ok:
  assumes "valid_utf8 (bt_level b)" "list_all raw_fits (bt_lines b)"
  shows "list_all (entry_ok (max_nesting_depth - 1)) (batch_members b)"
proof -
  have d: "max_nesting_depth - 1 = Suc (max_nesting_depth - 2)" by (simp add: max_nesting_depth_def)
  have "encodes (max_nesting_depth - 1) (''['' @ join_with '','' (map marshal_raw (bt_lines b)) @ '']'')
      (JArr (map (\<lambda>l. (marshal_raw l, compact_json (the (tree_of l)))) (bt_lines b)))"
    using assms(2) encodes_list [of "max_nesting_depth - 2" "map (\<lambda>l. (marshal_raw l, compact_json (the (tree_of l)))) (bt_lines b)"]
    unfolding d by (simp add: list_all_iff comp_def raw_fits_encodes)
  with assms(1) show ?thesis
    by (simp add: batch_members_def entry_ok_def encodes_string encodes_null ascii_valid_utf8)
qed

lemma dec_list_raw: "dec_list dec_raw [] es olds = Some (map fst es)"
  by (induction es arbitrary: olds) (simp_all add: dec_raw_def)

lemma batch_text: "marshal_batch b = Some text \<Longrightarrow> text = object_text (batch_members b)"
  by (auto simp: marshal_batch_def object_text_def batch_members_def entry_text_def split: if_splits)

text \<open>The decoder reads back what was encoded, with every line compacted.\<close>

lemma batch_decoded:
  assumes "marshal_batch b = Some text" "valid_utf8 (bt_level b)" "list_all raw_fits (bt_lines b)"
  shows "unmarshal dec_log_payload \<lparr>lp_level = [], lp_lines = []\<rparr> text =
    Some \<lparr>lp_level = bt_level b, lp_lines = map compact (bt_lines b)\<rparr>"
proof -
  have d: "max_nesting_depth = Suc (max_nesting_depth - 1)" by (simp add: max_nesting_depth_def)
  have "encodes max_nesting_depth text (JObj (batch_members b))"
    unfolding batch_text [OF assms(1)] by (subst d) (rule encodes_object [OF batch_members_ok [OF assms(2,3)]])
  moreover have "map marshal_raw (bt_lines b) = map compact (bt_lines b)"
    using assms(3) raw_fits_nonempty by (auto simp: list_all_iff marshal_raw_def)
  ultimately show ?thesis
    by (simp add: unmarshal_encoded dec_log_payload_def dec_struct_def)
       (simp add: batch_members_def dec_field_def members_named_def dec_string_def dec_slice_def dec_list_raw comp_def)
qed

section \<open>Compaction changes neither the module nor the time of a line\<close>

lemma log_line_follows: "decodes_along (map_prod id compact) dec_log_line"
  unfolding dec_log_line_def
  by (rule follows_struct) (auto simp: follows_field [OF follows_raw] split: bind_split)

lemma line_time_compact: "raw_piece raw \<Longrightarrow> line_time (compact raw) now = line_time raw now"
  unfolding line_time_def
  by (simp only: piece_compact(1) piece_compact(2) [OF _ reads_scalars_f64] piece_compact(2) [OF _ reads_scalars_string])

lemma log_line_piece:
  assumes "unmarshal dec_log_line ([], []) raw = Some (m, t)" shows "raw_piece t"
proof -
  obtain q v where v: "json_parse raw = Some (q, v)" "dec_log_line (q, v) ([], []) = Some (m, t)"
    using assms by (auto simp: unmarshal_def split: option.splits)
  show ?thesis
  proof (cases "\<exists>ms. v = JObj ms")
    case True
    then obtain ms where ms: "v = JObj ms" by blast
    then have "dec_field ms ''ts'' dec_raw [] = Some t"
      using v(2) by (auto simp: dec_log_line_def dec_struct_def bind_eq_Some_conv)
    with parsed_scanned [OF v(1)] show ?thesis using piece_field [of ms "[]"] by (simp add: ms raw_piece_def)
  next
    case False
    then have "t = []" using v(2) by (cases v) (auto simp: dec_log_line_def dec_struct_def)
    then show ?thesis by (simp add: raw_piece_def)
  qed
qed

lemma extract_compact:
  assumes "json_valid raw"
  shows "extract_module_and_ts (compact raw) now = extract_module_and_ts raw now"
  using unmarshal_follows [OF log_line_follows assms, of "([], [])"] log_line_piece [of raw]
  by (auto simp: extract_module_and_ts_def line_time_compact split: option.split)

section \<open>From the sentinel to Loki\<close>

lemma log_levels_utf8: "level \<in> set log_levels \<Longrightarrow> valid_utf8 level"
  by (auto simp: log_levels_def intro: ascii_valid_utf8)

lemma marshalled_valid:
  "marshal_batch b = Some text \<Longrightarrow> list_all raw_fits (bt_lines b) \<Longrightarrow> list_all json_valid (bt_lines b)"
  by (auto simp: marshal_batch_def list_all_iff raw_fits_valid split: if_splits)

lemma line_value_parts:
  "line_value now raw =
     (format_int (unix_nano (clamp_ts now (snd (extract_module_and_ts raw now)))),
      strip_body_fields raw [''ts'', ''level''], [(''module'', fst (extract_module_and_ts raw now))])"
  by (simp add: line_value_def loki_value_of_def log_entry_of_def split: prod.split)

text \<open>C3: a batch of log lines that the sentinel marshals, compresses and posts, and whose token the
  watchtower admits with the logs permission and a minimum level the batch reaches, is pushed
  to Loki as one stream (none for an empty batch) under the validator's name and the batch's
  level. The stream holds every line of the batch exactly once, in the order of the
  timestamps: as timestamp the time that the line as the sentinel read it names, replaced by
  the receive time where it lies outside the accepted window; as body the compacted line
  without its \<open>ts\<close> and \<open>level\<close> members; as metadata the module of the line as read.\<close>

theorem log_batch_reaches_loki:
  assumes marshalled: "marshal_batch b = Some text"
    and batch: "bt_level b \<in> set log_levels" "list_all raw_fits (bt_lines b)"
    and wire: "ev_zstd e (pack text) = Some (text, False)" "length text \<le> 500 * 2 ^ 20" "length (pack text) \<le> 50 * 2 ^ 20"
    and r: "r = arrived addr ''/logs'' (build_request sd ''/logs'' (pack text) ct ce)"
    and admitted: "ar_verdict (auth_middleware (ev_clock e) r (sv_auth s)) = Authenticated name v"
      "fst (allow (ev_new_bucket e) (ev_allow_bucket e) (ev_limit_now e) name (sv_rl s))"
    and allowed: "''logs'' \<in> set (vc_permissions v)"
      "vc_logs_min_level v = [] \<or> level_rank (vc_logs_min_level v) \<le> level_rank (bt_level b)"
    and sorter: "sorts (ev_sort e)"
  shows "\<exists>vals. sr_posted (serve e r s) = Some
      \<lparr>po_url = f_loki_url (sv_fwd s) @ ''/loki/api/v1/push'',
       po_body = encode_loki_push
         (if bt_lines b = [] then []
          else [\<lparr>lk_stream = [(''validator'', name), (''level'', bt_level b)], lk_values = vals\<rparr>]),
       po_content_type = ''application/json''\<rparr> \<and>
    mset vals = mset (map (\<lambda>raw.
      (format_int (unix_nano (clamp_ts (ev_now e) (snd (extract_module_and_ts raw (ev_now e))))),
       strip_body_fields (compact raw) [''ts'', ''level''],
       [(''module'', fst (extract_module_and_ts raw (ev_now e)))])) (bt_lines b)) \<and>
    sorted (map value_nano vals)"
proof -
  let ?p = "\<lparr>lp_level = bt_level b, lp_lines = map compact (bt_lines b)\<rparr>"
  have "sr_posted (serve e r s) = fr_posted (forward_payload e (sv_fwd s) ''logs'' name v (pack text))"
    using admitted_payload_posted [of "''logs''" r addr sd "pack text" ct ce e s name v] r admitted allowed(1) wire(3) by simp
  then have "sr_posted (serve e r s) = Some
      \<lparr>po_url = f_loki_url (sv_fwd s) @ ''/loki/api/v1/push'',
       po_body = encode_loki_push (to_loki_push (ev_sort e) (ev_now e) name ?p),
       po_content_type = ''application/json''\<rparr>"
    using batch_decoded [OF marshalled log_levels_utf8 [OF batch(1)] batch(2)] wire(1,2) allowed(2)
    by (auto simp: forward_payload_def forward_logs_def zstd_decompress_def max_logs_decompressed_bytes_def post_def)
  moreover obtain vals where
      "to_loki_push (ev_sort e) (ev_now e) name ?p =
         (if bt_lines b = [] then []
          else [\<lparr>lk_stream = [(''validator'', name), (''level'', bt_level b)], lk_values = vals\<rparr>])"
      "mset vals = mset (map (line_value (ev_now e)) (map compact (bt_lines b)))" "sorted (map value_nano vals)"
    by (rule push_stream [OF sorter, of "ev_now e" name ?p]) (cases "bt_lines b = []", simp_all)
  moreover have "map (line_value (ev_now e)) (map compact (bt_lines b)) = map (\<lambda>raw.
      (format_int (unix_nano (clamp_ts (ev_now e) (snd (extract_module_and_ts raw (ev_now e))))),
       strip_body_fields (compact raw) [''ts'', ''level''],
       [(''module'', fst (extract_module_and_ts raw (ev_now e)))])) (bt_lines b)"
    using marshalled_valid [OF marshalled batch(2)] by (simp add: line_value_parts list_all_iff extract_compact)
  ultimately show ?thesis by (intro exI [of _ vals]) (simp only: simp_thms)
qed

definition demo_batch :: batch where
  "demo_batch = \<lparr>bt_level = ''info'', bt_lines =
     [''{ '' @ quote_string ''level'' @ '': '' @ quote_string ''info'' @ '','' @
      quote_string ''msg'' @ '':'' @ [CHR 0x22] @ ''a<b'' @ [CHR 0x22] @ '' }'']\<rparr>"

definition demo_wire :: string where
  "demo_wire = ''{'' @ quote_string ''level'' @ '':'' @ quote_string ''info'' @ '','' @ quote_string ''lines'' @ '':[{'' @
     quote_string ''level'' @ '':'' @ quote_string ''info'' @ '','' @ quote_string ''msg'' @ '':'' @
     quote_string ''a<b'' @ ''}]}''"

lemma demo_batch_marshal: "marshal_batch demo_batch = Some demo_wire"
  by code_simp

lemma demo_batch_fits: "list_all raw_fits (bt_lines demo_batch)"
  by code_simp

lemma demo_wire_length: "length demo_wire < 100"
  by code_simp

lemmas demo_batch_wire = demo_batch_marshal demo_batch_fits demo_wire_length demo_batch_def [THEN arg_cong, of bt_level, simplified]

theorem log_batch_reaches_loki_witness:
  "\<exists>vals. sr_posted (serve demo_env (arrived ''10.0.0.7:40000'' ''/logs'' (build_request demo_sender ''/logs'' demo_wire [] []))
     demo_server) = Some
      \<lparr>po_url = f_loki_url (sv_fwd demo_server) @ ''/loki/api/v1/push'',
       po_body = encode_loki_push [\<lparr>lk_stream = [(''validator'', ''v1''), (''level'', ''info'')], lk_values = vals\<rparr>],
       po_content_type = ''application/json''\<rparr> \<and> length vals = 1"
proof -
  have e: "ev_sort demo_env = sort_key en_nano" "ev_zstd demo_env x = Some (x, False)" for x
    by (simp_all add: demo_env_def)
  have m: "''logs'' \<in> set (vc_permissions demo_validator)" "vc_logs_min_level demo_validator = ''info''"
    "''info'' \<in> set log_levels" "sorts (sort_key en_nano)"
    by (simp_all add: demo_validator_def log_levels_def sorts_def)
  have one: "bt_lines demo_batch \<noteq> []" "length (bt_lines demo_batch) = 1" by (simp_all add: demo_batch_def)
  note d = demo_batch_wire
  from log_batch_reaches_loki [where pack = "\<lambda>x. x" and addr = "''10.0.0.7:40000''" and ct = "[]" and ce = "[]", OF d(1) _ d(2) _ _ _ refl demo_admitted demo_within_limit m(1)] d m e
  obtain vals where "sr_posted (serve demo_env (arrived ''10.0.0.7:40000'' ''/logs'' (build_request demo_sender ''/logs'' demo_wire [] []))
     demo_server) = Some
      \<lparr>po_url = f_loki_url (sv_fwd demo_server) @ ''/loki/api/v1/push'',
       po_body = encode_loki_push [\<lparr>lk_stream = [(''validator'', ''v1''), (''level'', ''info'')], lk_values = vals\<rparr>],
       po_content_type = ''application/json''\<rparr>" "size (mset vals) = length (bt_lines demo_batch)"
    using one(1) by (auto dest: arg_cong [of _ _ size])
  with one(2) show ?thesis by auto
qed

end
