(* ===== verification/Duration_Text.thy ===== *)
theory Duration_Text
  imports Go_Duration
begin

text \<open>
  Durations as configuration text (\<open>pkg/tomlutil/duration.go\<close>): \<open>UnmarshalText\<close> is
  \<open>time.ParseDuration\<close>, \<open>MarshalText\<close> is \<open>Duration.String\<close>. The formatter fills a buffer from
  its end, as the library does; what it writes reads back as the same duration.
\<close>

section \<open>Duration.String\<close>

text \<open>\<open>fmtFrac\<close>: the fraction of \<open>v / 10 ^ n\<close> without trailing zeros in front of \<open>buf\<close>, and the
  integer part.\<close>

fun fmt_frac :: "nat \<Rightarrow> nat \<Rightarrow> bool \<Rightarrow> string \<Rightarrow> string \<times> nat" where
  "fmt_frac 0 v print buf = (if print then CHR ''.'' # buf else buf, v)"
| "fmt_frac (Suc n) v print buf =
     (let digit = v mod 10; print' = (print \<or> digit \<noteq> 0)
      in fmt_frac n (v div 10) print' (if print' then digit_char digit # buf else buf))"

definition below_second :: "nat \<Rightarrow> string" where
  "below_second u =
     (if u = 0 then ''0s''
      else if u < 10 ^ 3 then format_nat u @ ''ns''
      else
        (let (prec, unit) = (if u < 10 ^ 6 then (3, [CHR 0xC2, CHR 0xB5, CHR ''s'']) else (6, ''ms''));
             (buf, v) = fmt_frac prec u False unit
         in format_nat v @ buf))"

definition from_second :: "nat \<Rightarrow> string" where
  "from_second u =
     (let (buf, secs) = fmt_frac 9 u False ''s'';
          buf1 = format_nat (secs mod 60) @ buf;
          mins = secs div 60
      in if mins = 0 then buf1
         else
           (let buf2 = format_nat (mins mod 60) @ ''m'' @ buf1;
                hours = mins div 60
            in if hours = 0 then buf2 else format_nat hours @ ''h'' @ buf2))"

definition format_duration :: "duration \<Rightarrow> string" where
  "format_duration d =
     (let u = nat \<bar>d\<bar>; s = (if u < 10 ^ 9 then below_second u else from_second u)
      in if d < 0 then CHR ''-'' # s else s)"

section \<open>Configuration text\<close>

datatype duration_error = InvalidDuration string

definition unmarshal_duration :: "string \<Rightarrow> duration \<Rightarrow> duration_error option \<times> duration" where
  "unmarshal_duration str d =
     (case parse_duration str of None \<Rightarrow> (Some (InvalidDuration str), d) | Some dur \<Rightarrow> (None, dur))"

definition marshal_duration :: "duration \<Rightarrow> string" where
  "marshal_duration d = format_duration d"

section \<open>Digits\<close>

abbreviation digits_from :: "int \<Rightarrow> string \<Rightarrow> int" where
  "digits_from \<equiv> foldl (\<lambda>a c. 10 * a + digit_val c)"

definition no_digit_first :: "string \<Rightarrow> bool" where
  "no_digit_first s \<longleftrightarrow> (s = [] \<or> \<not> is_digit (hd s))"

lemma digit_val_nonneg: "is_digit c \<Longrightarrow> 0 \<le> digit_val c"
  unfolding is_digit_def digit_val_def
  by (metis diff_ge_0_iff_ge of_nat_of_char of_nat_le_iff of_nat_numeral)

lemma digits_from_ge: "list_all is_digit ds \<Longrightarrow> 0 \<le> x \<Longrightarrow> x \<le> digits_from x ds"
proof (induction ds arbitrary: x)
  case (Cons c ds)
  from Cons.prems have "x \<le> 10 * x + digit_val c" "0 \<le> 10 * x + digit_val c"
    using digit_val_nonneg [of c] by simp_all
  with Cons.IH [of "10 * x + digit_val c"] Cons.prems(1) show ?case by simp
qed simp

lemma leading_int_stop: "no_digit_first rest \<Longrightarrow> leading_int rest x = Some (x, rest)"
  by (cases rest) (simp_all add: no_digit_first_def)

lemma leading_int_digits:
  assumes "list_all is_digit ds" "0 \<le> x" "digits_from x ds \<le> 2 ^ 63" "no_digit_first rest"
  shows "leading_int (ds @ rest) x = Some (digits_from x ds, rest)"
  using assms
proof (induction ds arbitrary: x)
  case Nil
  then show ?case by (simp add: leading_int_stop)
next
  case (Cons c ds)
  then have c: "0 \<le> digit_val c" using digit_val_nonneg by simp
  with Cons.prems have "10 * x + digit_val c \<le> 2 ^ 63"
    using digits_from_ge [of ds "10 * x + digit_val c"] by simp
  with Cons c show ?case by (simp add: mult.commute)
qed

lemma leading_fraction_stop: "no_digit_first rest \<Longrightarrow> leading_fraction rest x k over = (x, k, rest)"
  by (cases rest) (simp_all add: no_digit_first_def)

lemma leading_fraction_digits:
  assumes "list_all is_digit ds" "0 \<le> x" "digits_from x ds < 2 ^ 63 - 10" "no_digit_first rest"
  shows "leading_fraction (ds @ rest) x k False = (digits_from x ds, k + length ds, rest)"
  using assms
proof (induction ds arbitrary: x k)
  case Nil
  then show ?case by (simp add: leading_fraction_stop)
next
  case (Cons c ds)
  then have c: "0 \<le> digit_val c" using digit_val_nonneg by simp
  with Cons.prems have "10 * x + digit_val c < 2 ^ 63 - 10"
    using digits_from_ge [of ds "10 * x + digit_val c"] by simp
  with Cons c show ?case by (simp add: mult.commute)
qed

section \<open>The fraction\<close>

lemma digits_of_mod: "int (v mod 10) + 10 * int (v div 10 mod 10 ^ n) = int (v mod 10 ^ Suc n)"
  using mod_mult2_eq [of v 10 "10 ^ n"] by simp

lemma fmt_frac_printing:
  "\<exists>ds. fmt_frac n v True buf = (CHR ''.'' # ds @ buf, v div 10 ^ n) \<and> list_all is_digit ds \<and>
     length ds = n \<and> digits_val ds = int (v mod 10 ^ n)"
proof (induction n arbitrary: v buf)
  case 0
  then show ?case by (simp add: digits_val_def)
next
  case (Suc n)
  obtain ds where ds: "fmt_frac n (v div 10) True (digit_char (v mod 10) # buf) =
      (CHR ''.'' # ds @ digit_char (v mod 10) # buf, v div 10 div 10 ^ n)"
      "list_all is_digit ds" "length ds = n" "digits_val ds = int (v div 10 mod 10 ^ n)"
    using Suc.IH by blast
  then show ?case
    using digit_char_digit [of "v mod 10"] digits_of_mod [of v n]
    by (intro exI [of _ "ds @ [digit_char (v mod 10)]"])
       (simp add: Let_def digits_val_snoc div_mult2_eq add.commute)
qed

text \<open>The text of a fraction of \<open>p\<close> decimal places: nothing, or its significant digits.\<close>

definition frac_text :: "nat \<Rightarrow> nat \<Rightarrow> string \<Rightarrow> bool" where
  "frac_text p f s \<longleftrightarrow>
     (if f = 0 then s = []
      else (\<exists>ds. s = CHR ''.'' # ds \<and> list_all is_digit ds \<and> ds \<noteq> [] \<and> length ds \<le> p \<and>
              digits_val ds * 10 ^ (p - length ds) = int f))"

lemma frac_text_intro:
  "list_all is_digit ds \<Longrightarrow> ds \<noteq> [] \<Longrightarrow> length ds \<le> p \<Longrightarrow>
   digits_val ds * 10 ^ (p - length ds) = int f \<Longrightarrow> f \<noteq> 0 \<Longrightarrow> frac_text p f (CHR ''.'' # ds)"
  by (auto simp: frac_text_def)

lemma frac_text_shift: "frac_text p f s \<Longrightarrow> frac_text (Suc p) (10 * f) s"
  by (auto simp: frac_text_def Suc_diff_le split: if_splits)

lemma fmt_frac_text:
  "\<exists>s. fmt_frac n v False buf = (s @ buf, v div 10 ^ n) \<and> frac_text n (v mod 10 ^ n) s"
proof (induction n arbitrary: v)
  case 0
  then show ?case by (simp add: frac_text_def)
next
  case (Suc n)
  show ?case
  proof (cases "v mod 10 = 0")
    case True
    then have "10 * (v div 10 mod 10 ^ n) = v mod 10 ^ Suc n"
      using mod_mult2_eq [of v 10 "10 ^ n"] by simp
    with Suc.IH [of "v div 10"] True frac_text_shift show ?thesis
      by (fastforce simp: Let_def div_mult2_eq)
  next
    case False
    obtain ds where ds: "fmt_frac n (v div 10) True (digit_char (v mod 10) # buf) =
        (CHR ''.'' # ds @ digit_char (v mod 10) # buf, v div 10 div 10 ^ n)"
        "list_all is_digit ds" "length ds = n" "digits_val ds = int (v div 10 mod 10 ^ n)"
      using fmt_frac_printing by blast
    have "v mod 10 ^ Suc n \<noteq> 0" using False mod_mult2_eq [of v 10 "10 ^ n"] by simp
    then have "frac_text (Suc n) (v mod 10 ^ Suc n) (CHR ''.'' # ds @ [digit_char (v mod 10)])"
      using ds digit_char_digit [of "v mod 10"] digits_of_mod [of v n]
      by (intro frac_text_intro) (simp_all add: digits_val_snoc)
    with ds(1) False show ?thesis
      by (intro exI [of _ "CHR ''.'' # ds @ [digit_char (v mod 10)]"]) (simp add: Let_def div_mult2_eq)
  qed
qed

section \<open>Reading one part\<close>

definition unit_text :: "string \<Rightarrow> int \<Rightarrow> bool" where
  "unit_text u un \<longleftrightarrow> u \<noteq> [] \<and> list_all unit_char u \<and> unit_map u = Some un \<and> 0 < un"

definition part_first :: "string \<Rightarrow> bool" where
  "part_first s \<longleftrightarrow> s = [] \<or> is_digit (hd s)"

lemma unit_texts:
  "unit_text ''ns'' 1" "unit_text [CHR 0xC2, CHR 0xB5, CHR ''s''] 1000" "unit_text ''ms'' 1000000"
  "unit_text ''s'' 1000000000" "unit_text ''m'' minute" "unit_text ''h'' hour"
  by (simp_all add: unit_text_def unit_map_def unit_char_def is_digit_def second_def minute_def hour_def)

lemma part_first_format: "part_first (format_nat n @ s)"
  using format_nat_digits [of n] by (cases "format_nat n") (auto simp: part_first_def)

lemma unit_span:
  assumes "unit_text u un" "part_first rest"
  shows "takeWhile unit_char (u @ rest) = u" "dropWhile unit_char (u @ rest) = rest"
    "no_digit_first (u @ rest)" "take 1 (u @ rest) \<noteq> ''.''"
proof -
  have r: "takeWhile unit_char rest = [] \<and> dropWhile unit_char rest = rest"
    using assms(2) by (cases rest) (auto simp: part_first_def unit_char_def)
  show "takeWhile unit_char (u @ rest) = u" "dropWhile unit_char (u @ rest) = rest"
    using assms(1) r by (simp_all add: unit_text_def list_all_iff)
  show "no_digit_first (u @ rest)" "take 1 (u @ rest) \<noteq> ''.''"
    using assms(1) by (cases u; simp add: unit_text_def no_digit_first_def unit_char_def)+
qed

lemma format_nat_start:
  "format_nat v @ s \<noteq> [] \<and> (hd (format_nat v @ s) = CHR ''.'' \<or> is_digit (hd (format_nat v @ s)))"
  using format_nat_digits [of v] by (cases "format_nat v") auto

lemma leading_int_format:
  "int v \<le> 2 ^ 63 \<Longrightarrow> no_digit_first s \<Longrightarrow> leading_int (format_nat v @ s) 0 = Some (int v, s)"
  using leading_int_digits [of "format_nat v" 0 s] format_nat_digits [of v] digits_val_format_nat [of v]
  by (simp add: digits_val_def)

lemma part_bound:
  assumes "0 < un" "int v * un \<le> 2 ^ 63"
  shows "int v \<le> 2 ^ 63" "\<not> 2 ^ 63 div un < int v"
proof -
  have "int v * 1 \<le> int v * un" using assms(1) by (intro mult_left_mono) simp_all
  with assms(2) show "int v \<le> 2 ^ 63" by simp
  show "\<not> 2 ^ 63 div un < int v" using assms by (metis leD zdiv_mono1 nonzero_mult_div_cancel_right order_less_irrefl)
qed

lemma whole_part:
  assumes u: "unit_text u un" and rest: "part_first rest" and v: "int v * un \<le> 2 ^ 63"
  shows "duration_part (format_nat v @ u @ rest) = Some (int v * un, rest)"
proof -
  have un: "0 < un" "unit_map u = Some un" "u \<noteq> []" using u by (simp_all add: unit_text_def)
  note b = part_bound [OF un(1) v]
  have "opt_fraction (u @ rest) = (0, 0, u @ rest)" using unit_span(4) [OF u rest] by (simp add: opt_fraction_def)
  then show ?thesis
    using format_nat_start [of v "u @ rest"] leading_int_format [OF b(1) unit_span(3) [OF u rest]]
      unit_span(1,2) [OF u rest] un b(2) format_nat_digits [of v]
    by (simp add: duration_part_def)
qed

lemma exact_fraction:
  assumes "0 \<le> x" "x * 10 ^ (p - k) < 10 ^ p" "k \<le> p" "p \<le> 9"
  shows "\<lfloor>f64_val (f64_of_int x * f64_val (of_int (10 ^ p) / 10 ^ k))\<rfloor> = x * 10 ^ (p - k)"
proof -
  have le: "(10 :: int) ^ p \<le> 10 ^ 9" using assms(4) by (intro power_increasing) simp_all
  have "x * 1 \<le> x * 10 ^ (p - k)" using assms(1) by (intro mult_left_mono) simp_all
  with le assms(2) have x: "\<bar>x\<bar> \<le> 2 ^ 53" using assms(1) by simp
  have "(10 :: int) ^ (p - k) \<le> 10 ^ 9" using assms(4) by (intro power_increasing) simp_all
  then have u: "\<bar>(10 :: int) ^ (p - k)\<bar> \<le> 2 ^ 53" by simp
  have y: "\<bar>x * 10 ^ (p - k)\<bar> \<le> 2 ^ 53" using assms(1,2) le by simp
  have "of_int (10 ^ p) / 10 ^ k = (of_int (10 ^ (p - k)) :: rat)"
    using assms(3) by (simp add: nonzero_divide_eq_eq flip: power_add)
  then have "f64_val (of_int (10 ^ p) / 10 ^ k) = of_int (10 ^ (p - k))"
    using f64_of_int_exact [OF u] unfolding f64_of_int_def by metis
  moreover have "f64_val (of_int (x * 10 ^ (p - k))) = of_int (x * 10 ^ (p - k))"
    using f64_of_int_exact [OF y] unfolding f64_of_int_def .
  ultimately show ?thesis using f64_of_int_exact [OF x] by (metis floor_of_int of_int_mult)
qed

lemma fraction_part:
  assumes u: "unit_text u (10 ^ p)" and rest: "part_first rest" and p: "p \<le> 9" and f: "f < 10 ^ p"
    and fs: "frac_text p f fs" and v: "int v * 10 ^ p + int f \<le> 2 ^ 63"
  shows "duration_part (format_nat v @ fs @ u @ rest) = Some (int v * 10 ^ p + int f, rest)"
proof (cases "f = 0")
  case True
  with fs whole_part [OF u rest] v show ?thesis by (simp add: frac_text_def)
next
  case False
  then obtain ds where ds: "fs = CHR ''.'' # ds" "list_all is_digit ds" "ds \<noteq> []" "length ds \<le> p"
      "digits_val ds * 10 ^ (p - length ds) = int f"
    using fs by (auto simp: frac_text_def)
  have un: "0 < (10 :: int) ^ p" "unit_map u = Some (10 ^ p)" "u \<noteq> []" using u by (simp_all add: unit_text_def)
  have b: "int v \<le> 2 ^ 63" "\<not> 2 ^ 63 div 10 ^ p < int v" using part_bound [OF un(1), of v] v by simp_all
  have x: "0 \<le> digits_val ds" using digits_from_ge [OF ds(2), of 0] by (simp add: digits_val_def)
  have f': "int f < 10 ^ p" using f by (metis of_nat_less_iff of_nat_numeral of_nat_power)
  have "digits_val ds * 1 \<le> int f" unfolding ds(5) [symmetric] using x by (intro mult_left_mono) simp_all
  moreover have "(10 :: int) ^ p \<le> 1000000000" using power_increasing [OF p, of "10 :: int"] by simp
  ultimately have "digits_val ds < 9223372036854775798" using f' by linarith
  then have "digits_val ds < 2 ^ 63 - 10" by simp
  then have "leading_fraction (ds @ u @ rest) 0 0 False = (digits_val ds, length ds, u @ rest)"
    using leading_fraction_digits [of ds 0 "u @ rest" 0] ds(2) unit_span(3) [OF u rest]
    by (simp add: digits_val_def)
  then have o: "opt_fraction (fs @ u @ rest) = (digits_val ds, length ds, u @ rest)"
    by (simp add: opt_fraction_def ds(1))
  have "no_digit_first (fs @ u @ rest)" by (simp add: ds(1) no_digit_first_def is_digit_def)
  note i = leading_int_format [OF b(1) this]
  have pos: "0 < digits_val ds" using x ds(5) False by (cases "digits_val ds = 0") auto
  have ex: "\<lfloor>f64_val (f64_of_int (digits_val ds) * f64_val (of_int (10 ^ p) / 10 ^ length ds))\<rfloor> = int f"
    using exact_fraction [OF x _ ds(4) p] ds(5) f' by simp
  show ?thesis
    using format_nat_start [of v "fs @ u @ rest"] i o unit_span(1,2) [OF u rest] un b(2) pos ex v
      format_nat_digits [of v]
    by (simp add: duration_part_def Let_def)
qed

section \<open>Reading the whole text\<close>

lemma duration_parts_step:
  assumes "duration_part s = Some (w, r)" "s \<noteq> []" "0 \<le> d" "0 \<le> w" "d + w \<le> 2 ^ 63" "length s \<le> n"
  shows "duration_parts n s d = duration_parts (length r) r (d + w)"
proof -
  obtain m where m: "n = Suc m" using assms(2,6) by (cases n) auto
  have "length r \<le> m" using duration_part_shorter [OF assms(1)] assms(6) m by simp
  with assms show ?thesis
    using duration_parts_fuel [of r m "length r"] by (simp add: m Let_def)
qed

lemma duration_parts_end: "duration_parts n [] d = Some d"
  by (cases n) simp_all

lemma scaled_part:
  assumes u: "unit_text u (10 ^ p)" and p: "p \<le> 9" and n: "int n \<le> 2 ^ 63"
    and buf: "fmt_frac p n False u = (buf, v)"
  shows "duration_part (format_nat v @ buf) = Some (int n, [])"
proof -
  obtain s where f: "fmt_frac p n False u = (s @ u, n div 10 ^ p)" "frac_text p (n mod 10 ^ p) s"
    using fmt_frac_text by blast
  have s: "buf = s @ u @ []" "v = n div 10 ^ p" using f(1) buf by simp_all
  have "v * 10 ^ p + n mod 10 ^ p = n" unfolding s(2) by (rule div_mult_mod_eq)
  then have "int (v * 10 ^ p + n mod 10 ^ p) = int n" by (rule arg_cong)
  then have sum: "int v * 10 ^ p + int (n mod 10 ^ p) = int n"
    by (simp only: of_nat_add of_nat_mult of_nat_power of_nat_numeral)
  have "duration_part (format_nat v @ buf) = Some (int v * 10 ^ p + int (n mod 10 ^ p), [])"
    unfolding s(1)
  proof (rule fraction_part [OF u _ p _ f(2)])
    show "part_first []" by (simp add: part_first_def)
    show "n mod 10 ^ p < 10 ^ p" by simp
    show "int v * 10 ^ p + int (n mod 10 ^ p) \<le> 2 ^ 63" unfolding sum by (rule n)
  qed
  then show ?thesis by (simp only: sum)
qed

lemma below_second_reads:
  assumes "u < 10 ^ 9" shows "duration_parts (length (below_second u)) (below_second u) 0 = Some (int u)"
proof -
  have one: "duration_parts (length s) s 0 = Some (int u)"
    if "duration_part s = Some (int u, [])" "s \<noteq> []" for s
    using duration_parts_step [OF that(1,2), of 0 "length s"] assms by (simp add: duration_parts_end)
  have e: "part_first []" by (simp add: part_first_def)
  consider "u = 0" | "0 < u" "u < 10 ^ 3" | "10 ^ 3 \<le> u" "u < 10 ^ 6" | "10 ^ 6 \<le> u" by linarith
  then show ?thesis
  proof cases
    case 1
    have "digit_char 0 = CHR ''0''" by code_simp
    then have "duration_part ''0s'' = Some (0, [])"
      using whole_part [OF unit_texts(4) e, of 0] by (simp add: format_nat.simps)
    with one [of "''0s''"] 1 show ?thesis by (simp add: below_second_def del: duration_parts.simps)
  next
    case 2
    have "duration_part (format_nat u @ ''ns'' @ []) = Some (int u * 1, [])"
      by (rule whole_part [OF unit_texts(1) e]) (use assms in simp)
    then show ?thesis using one 2 by (simp add: below_second_def)
  next
    case 3
    obtain buf v where b: "fmt_frac 3 u False [CHR 0xC2, CHR 0xB5, CHR ''s''] = (buf, v)" by fastforce
    show ?thesis
      using one [OF scaled_part [OF _ _ _ b]] unit_texts(2) 3 assms format_nat_digits [of v] by (simp add: below_second_def b)
  next
    case 4
    obtain buf v where b: "fmt_frac 6 u False ''ms'' = (buf, v)" by fastforce
    show ?thesis
      using one [OF scaled_part [OF _ _ _ b]] unit_texts(3) 4 assms format_nat_digits [of v] by (simp add: below_second_def b)
  qed
qed

text \<open>A text of whole parts before a text that is read from any sum.\<close>

definition reads :: "string \<Rightarrow> int \<Rightarrow> bool" where
  "reads s w \<longleftrightarrow> part_first s \<and> s \<noteq> [] \<and>
     (\<forall>d. 0 \<le> d \<and> d + w \<le> 2 ^ 63 \<longrightarrow> duration_parts (length s) s d = Some (d + w))"

lemma reads_last:
  assumes "duration_part (format_nat v @ s) = Some (w, [])" "0 \<le> w"
  shows "reads (format_nat v @ s) w"
  using assms format_nat_digits [of v] duration_parts_step [OF assms(1) _ _ assms(2)]
  by (simp add: reads_def part_first_format duration_parts_end)

lemma reads_before:
  assumes "reads r w" "unit_text u un" "int v * un \<le> 2 ^ 63" "0 \<le> w"
  shows "reads (format_nat v @ u @ r) (int v * un + w)"
proof -
  have un: "0 \<le> int v * un" using assms(2) by (simp add: unit_text_def)
  have r: "part_first r" using assms(1) by (simp add: reads_def)
  note p = whole_part [OF assms(2) r assms(3)]
  have "duration_parts (length (format_nat v @ u @ r)) (format_nat v @ u @ r) d = Some (d + (int v * un + w))"
    if "0 \<le> d" "d + (int v * un + w) \<le> 2 ^ 63" for d
  proof -
    have "format_nat v @ u @ r \<noteq> []" using format_nat_digits [of v] by simp
    with p that un assms(4) have "duration_parts (length (format_nat v @ u @ r)) (format_nat v @ u @ r) d =
        duration_parts (length r) r (d + int v * un)"
      by (intro duration_parts_step) simp_all
    with assms(1) that un show ?thesis by (simp add: reads_def add.assoc)
  qed
  then show ?thesis using format_nat_digits [of v] by (simp add: reads_def part_first_format)
qed

lemma from_second_reads:
  assumes "int u \<le> 2 ^ 63" shows "reads (from_second u) (int u)"
proof -
  obtain fs where fs: "fmt_frac 9 u False ''s'' = (fs @ ''s'', u div 10 ^ 9)" "frac_text 9 (u mod 10 ^ 9) fs"
    using fmt_frac_text by blast
  define secs mins hours where t: "secs = u div 10 ^ 9" "mins = secs div 60" "hours = mins div 60"
  have split: "int n = int (n div k) * int k + int (n mod k)" for n k :: nat
    using arg_cong [OF div_mult_mod_eq [of n k], of int] by (simp only: of_nat_add of_nat_mult)
  have parts: "int u = int secs * 10 ^ 9 + int (u mod 10 ^ 9)" "int secs = int mins * 60 + int (secs mod 60)"
    "int mins = int hours * 60 + int (mins mod 60)"
    using split [of u "10 ^ 9"] split [of secs 60] split [of mins 60]
    by (simp_all only: t of_nat_power of_nat_numeral)
  have units: "hour = 3600 * 10 ^ 9" "minute = 60 * 10 ^ 9" by (simp_all add: hour_def minute_def second_def)
  have sum: "int hours * hour + (int (mins mod 60) * minute + (int (secs mod 60) * 10 ^ 9 + int (u mod 10 ^ 9))) = int u"
    unfolding parts(1) parts(2) parts(3) units by (simp only: distrib_right mult.assoc add.assoc)
  have zero: "mins = 0 \<Longrightarrow> int (secs mod 60) * 10 ^ 9 + int (u mod 10 ^ 9) = int u"
    "hours = 0 \<Longrightarrow> int (mins mod 60) * minute + (int (secs mod 60) * 10 ^ 9 + int (u mod 10 ^ 9)) = int u"
    using sum by (simp_all only: t div_0 mod_0 of_nat_0 mult_zero_left add_0)
  have n: "0 \<le> int hours * hour" "0 \<le> int (mins mod 60) * minute" "0 \<le> int (secs mod 60) * 10 ^ 9 + int (u mod 10 ^ 9)"
    by (simp_all add: hour_def minute_def second_def)
  let ?b1 = "format_nat (secs mod 60) @ fs @ ''s''"
  let ?w1 = "int (secs mod 60) * 10 ^ 9 + int (u mod 10 ^ 9)"
  have "duration_part (format_nat (secs mod 60) @ fs @ ''s'' @ []) = Some (?w1, [])"
  proof (rule fraction_part [OF _ _ _ _ fs(2)])
    show "unit_text ''s'' (10 ^ 9)" using unit_texts(4) by simp
    show "part_first []" by (simp add: part_first_def)
    show "?w1 \<le> 2 ^ 63" using sum n assms by linarith
  qed simp_all
  then have b1: "reads ?b1 ?w1" using reads_last [OF _ n(3)] by simp
  have m: "int (mins mod 60) * minute \<le> 2 ^ 63" "int hours * hour \<le> 2 ^ 63" using sum n assms by linarith+
  have b2: "reads (format_nat (mins mod 60) @ ''m'' @ ?b1) (int (mins mod 60) * minute + ?w1)"
    by (rule reads_before [OF b1 unit_texts(5) m(1) n(3)])
  have b3: "reads (format_nat hours @ ''h'' @ format_nat (mins mod 60) @ ''m'' @ ?b1)
      (int hours * hour + (int (mins mod 60) * minute + ?w1))"
    by (rule reads_before [OF b2 unit_texts(6) m(2)]) (use n in linarith)
  have f: "from_second u =
      (if mins = 0 then ?b1
       else if hours = 0 then format_nat (mins mod 60) @ ''m'' @ ?b1
       else format_nat hours @ ''h'' @ format_nat (mins mod 60) @ ''m'' @ ?b1)"
    by (simp only: from_second_def fs(1) t Let_def prod.case append_assoc)
  show ?thesis
  proof (cases "mins = 0")
    case True
    then show ?thesis using b1 unfolding f zero(1) [OF True] by simp
  next
    case m: False
    show ?thesis
    proof (cases "hours = 0")
      case True
      then show ?thesis using b2 m unfolding f zero(2) [OF True] by simp
    next
      case False
      then show ?thesis using b3 m unfolding f sum by simp
    qed
  qed
qed

section \<open>Round trip\<close>

lemma below_second_start: "part_first (below_second u) \<and> below_second u \<noteq> []"
proof (cases "u = 0")
  case True
  then show ?thesis by (simp add: below_second_def part_first_def is_digit_def)
next
  case False
  obtain b v where b: "fmt_frac 3 u False [CHR 0xC2, CHR 0xB5, CHR ''s''] = (b, v)" by fastforce
  obtain b' v' where b': "fmt_frac 6 u False ''ms'' = (b', v')" by fastforce
  have "below_second u =
      (if u < 10 ^ 3 then format_nat u @ ''ns'' else if u < 10 ^ 6 then format_nat v @ b else format_nat v' @ b')"
    using False by (simp add: below_second_def b b')
  then obtain n s where "below_second u = format_nat n @ s" by metis
  then show ?thesis using part_first_format [of n s] format_nat_digits [of n] by simp
qed

lemma lone_zero: "duration_parts (length ''0'') ''0'' 0 = None"
  by code_simp

lemma parse_reads:
  assumes "part_first s" "s \<noteq> []" "duration_parts (length s) s 0 = Some d"
  shows "d \<le> 2 ^ 63 - 1 \<Longrightarrow> parse_duration s = Some d" "parse_duration (CHR ''-'' # s) = Some (wrap64 (- d))"
proof -
  have z: "s \<noteq> ''0''" using assms(3) lone_zero by auto
  obtain c r where s: "s = c # r" "is_digit c" using assms(1,2) by (cases s) (auto simp: part_first_def)
  show "parse_duration (CHR ''-'' # s) = Some (wrap64 (- d))"
    using z assms(2,3) by (simp add: parse_duration_def Let_def)
  show "d \<le> 2 ^ 63 - 1 \<Longrightarrow> parse_duration s = Some d"
    using z assms(3) is_digit_not_sign [OF s(2)] by (auto simp: parse_duration_def s(1) simp del: duration_parts.simps)
qed

text \<open>C24: every duration the configuration can hold, the most negative one included, is written
  out as text (\<open>2160h0m0s\<close>, \<open>1.5s\<close>, \<open>250ms\<close>) that \<open>UnmarshalText\<close> reads back as the same
  duration, to the nanosecond and whatever the field held before.\<close>

theorem duration_roundtrip:
  "unmarshal_duration (marshal_duration (wrap64 v)) old = (None, wrap64 v)"
proof -
  let ?d = "wrap64 v"
  define u where "u = nat \<bar>?d\<bar>"
  define s where "s = (if u < 10 ^ 9 then below_second u else from_second u)"
  have r: "int64_range ?d" by (rule wrap64_range)
  then have u: "int u \<le> 2 ^ 63" "int u = \<bar>?d\<bar>" by (auto simp: u_def int64_range_def)
  have "part_first s \<and> s \<noteq> [] \<and> duration_parts (length s) s 0 = Some (int u)"
    using below_second_start [of u] below_second_reads [of u] from_second_reads [OF u(1)] u(1)
    by (simp add: s_def reads_def)
  then have p: "part_first s" "s \<noteq> []" "duration_parts (length s) s 0 = Some (int u)" by simp_all
  have "format_duration ?d = (if ?d < 0 then CHR ''-'' # s else s)"
    by (simp only: format_duration_def u_def s_def Let_def)
  moreover have "parse_duration (if ?d < 0 then CHR ''-'' # s else s) = Some ?d"
  proof (cases "?d < 0")
    case True
    with parse_reads(2) [OF p] u(2) r show ?thesis by simp
  next
    case False
    with r u(2) have "int u \<le> 2 ^ 63 - 1" by (simp add: int64_range_def)
    with parse_reads(1) [OF p] u(2) False show ?thesis by simp
  qed
  ultimately show ?thesis by (simp add: unmarshal_duration_def marshal_duration_def)
qed

end
