(* ===== verification/Time_Text.thy ===== *)
theory Time_Text
  imports Rfc3339 Duration_Text Json_Roundtrip
begin

text \<open>
  \<open>time.Time.MarshalJSON\<close> of a UTC time: the civil date of a day number, the RFC 3339 text with
  as much of the fraction as is needed, and that the strict parser reads the same instant
  back.
\<close>

section \<open>The civil date\<close>

text \<open>Year and day of the year (from 0) of a day number counted from January 1, year 1: whole
  400-year, 100-year, 4-year and 1-year spans, the last century and the last year of a span
  being the ones that may be a day longer.\<close>

definition civil_year :: "int \<Rightarrow> int \<times> int" where
  "civil_year n =
     (let q400 = n div 146097; r400 = n mod 146097;
          q100 = min 3 (r400 div 36524); r100 = r400 - 36524 * q100;
          q4 = r100 div 1461; r4 = r100 mod 1461;
          q1 = min 3 (r4 div 365)
      in (400 * q400 + 100 * q100 + 4 * q4 + q1 + 1, r4 - 365 * q1))"

fun month_from :: "nat \<Rightarrow> int \<Rightarrow> int \<Rightarrow> int \<Rightarrow> int \<times> int" where
  "month_from 0 y m d = (m, d + 1)"
| "month_from (Suc k) y m d =
     (if d < days_in m y then (m, d + 1) else month_from k y (m + 1) (d - days_in m y))"

definition civil_date :: "int \<Rightarrow> int \<times> int \<times> int" where
  "civil_date n = (let (y, yday) = civil_year n; (m, d) = month_from 11 y 1 yday in (y, m, d))"

section \<open>The text\<close>

fun pad :: "nat \<Rightarrow> nat \<Rightarrow> string" where
  "pad 0 v = []"
| "pad (Suc k) v = pad k (v div 10) @ [digit_char (v mod 10)]"

text \<open>The text between the quotes; years beyond 9999 are an error.\<close>

definition time_text :: "gtime \<Rightarrow> string option" where
  "time_text t =
     (let ns = t - time_zero; secs = ns div 10 ^ 9; days = secs div 86400; s = nat (secs mod 86400);
          (y, m, d) = civil_date days
      in if y < 0 \<or> 9999 < y then None
         else Some (pad 4 (nat y) @ ''-'' @ pad 2 (nat m) @ ''-'' @ pad 2 (nat d) @ ''T'' @
           pad 2 (s div 3600) @ '':'' @ pad 2 (s div 60 mod 60) @ '':'' @ pad 2 (s mod 60) @
           fst (fmt_frac 9 (nat (ns mod 10 ^ 9)) False []) @ ''Z''))"

definition marshal_time :: "gtime \<Rightarrow> string option" where
  "marshal_time t = map_option quote_string (time_text t)"

section \<open>The date is the day's\<close>

lemma div_span: "0 \<le> k \<Longrightarrow> k < b \<Longrightarrow> x = b * q + k \<Longrightarrow> x div b = q \<and> x mod b = (k :: int)"
  by simp

lemma capped_span:
  assumes "0 \<le> r" "r \<le> 4 * b" "0 < (b :: int)" "q = min 3 (r div b)"
  shows "0 \<le> q" "q \<le> 3" "0 \<le> r - b * q" "r - b * q \<le> b" "q < 3 \<Longrightarrow> r - b * q < b"
proof -
  have r: "r = b * (r div b) + r mod b" "0 \<le> r mod b" "r mod b < b" "0 \<le> r div b"
    using assms by (simp_all add: pos_imp_zdiv_nonneg_iff)
  show "0 \<le> q" "q \<le> 3" using r(4) assms(4) by simp_all
  show "0 \<le> r - b * q" "r - b * q \<le> b" "q < 3 \<Longrightarrow> r - b * q < b"
  proof -
    show "q < 3 \<Longrightarrow> r - b * q < b" using r(3) assms(4) by (auto simp: min_def minus_mult_div_eq_mod split: if_splits)
    have "b * 3 \<le> b * (r div b)" if "3 \<le> r div b" using that assms(3) by simp
    then show "0 \<le> r - b * q" "r - b * q \<le> b" using r assms(2,4) by (cases "3 \<le> r div b"; simp; linarith)+
  qed
qed

lemma civil_year_correct:
  assumes "civil_year n = (y, yday)"
  shows "0 \<le> yday \<and> yday < (if leap_year y then 366 else 365) \<and>
    365 * (y - 1) + (y - 1) div 4 - (y - 1) div 100 + (y - 1) div 400 + yday = n"
proof -
  define q400 r400 where q400: "q400 = n div 146097" and r400: "r400 = n mod 146097"
  define q100 where q100: "q100 = min 3 (r400 div 36524)"
  define r100 where r100: "r100 = r400 - 36524 * q100"
  define q4 r4 where q4: "q4 = r100 div 1461" and r4: "r4 = r100 mod 1461"
  define q1 where q1: "q1 = min 3 (r4 div 365)"
  have y: "y = 400 * q400 + 100 * q100 + 4 * q4 + q1 + 1" and d: "yday = r4 - 365 * q1"
    using assms [unfolded civil_year_def Let_def, folded q400 r400, folded q100, folded r100, folded q4 r4, folded q1]
    by (simp_all only: prod.inject)
  have n: "n = 146097 * q400 + r400" "0 \<le> r400" "r400 \<le> 146096" by (simp_all add: q400 r400)
  note a = capped_span [of r400 36524, OF n(2) _ _ q100, folded r100, simplified, OF n(3)]
  have b: "r100 = 1461 * q4 + r4" "0 \<le> r4" "r4 \<le> 1460" by (simp_all add: q4 r4)
  note c = capped_span [of r4 365, OF b(2) _ _ q1, folded d, simplified, OF b(3)]
  have e: "0 \<le> q4" "q4 \<le> 24" using a(3,4) b by linarith+
  have p: "(y - 1) div 400 = q400" "(y - 1) div 100 = 4 * q400 + q100" "(y - 1) div 4 = 100 * q400 + 25 * q100 + q4"
    using a(1,2) c(1,2) e y div_span [of "100 * q100 + 4 * q4 + q1" 400 "y - 1" q400]
      div_span [of "4 * q4 + q1" 100 "y - 1" "4 * q400 + q100"] div_span [of q1 4 "y - 1" "100 * q400 + 25 * q100 + q4"]
    by linarith+
  have "365 * (y - 1) + (y - 1) div 4 - (y - 1) div 100 + (y - 1) div 400 + yday = n"
    unfolding p using n(1) b(1) by (simp add: y d r100)
  moreover have "leap_year y" if "yday = 365"
  proof -
    have "q1 = 3" using c(2,5) that by linarith
    then have q: "q1 = 3" "r4 = 1460" using that by (simp_all add: d)
    then have y4: "y = 4 * (100 * q400 + 25 * q100 + q4 + 1)" using y by simp
    have "q4 < 24 \<or> q4 = 24 \<and> q100 = 3" using a b(1) q(2) e by linarith
    then show ?thesis
    proof
      assume "q4 < 24"
      moreover have "y = 100 * (4 * q400 + q100) + (4 * q4 + 4)" using y4 by simp
      ultimately have "y mod 100 = 4 * q4 + 4"
        using e(1) div_span [of "4 * q4 + 4" 100 y "4 * q400 + q100", THEN conjunct2] by linarith
      then show ?thesis using e(1) by (simp add: leap_year_def) (simp add: y4)
    next
      assume "q4 = 24 \<and> q100 = 3"
      then have "y = 400 * (q400 + 1)" by (simp add: y4)
      then show ?thesis by (simp add: leap_year_def)
    qed
  qed
  ultimately show ?thesis using c(3,4) by (cases "yday = 365") auto
qed

lemma days_in_pos: "0 < days_in m y"
  by (simp add: days_in_def)

lemma days_before_Suc: "1 \<le> m \<Longrightarrow> days_before_month (m + 1) y = days_before_month m y + days_in m y"
  by (auto simp: days_before_month_def nat_add_distrib Suc_le_eq)

lemma month_from_correct:
  assumes "0 \<le> d" "1 \<le> m" "d < (\<Sum>i\<le>k. days_in (m + int i) y)" "month_from k y m d = (m', d')"
  shows "days_before_month m' y + (d' - 1) = days_before_month m y + d \<and>
    1 \<le> d' \<and> d' \<le> days_in m' y \<and> m \<le> m' \<and> m' \<le> m + int k"
  using assms
proof (induction k arbitrary: m d)
  case (Suc k)
  show ?case
  proof (cases "d < days_in m y")
    case False
    have "(\<Sum>i\<le>Suc k. days_in (m + int i) y) = days_in m y + (\<Sum>i\<le>k. days_in (m + 1 + int i) y)"
      by (subst sum.atMost_Suc_shift) (simp add: algebra_simps)
    with Suc.prems False Suc.IH [of "d - days_in m y" "m + 1"] days_before_Suc [of m y] show ?thesis by simp
  qed (use Suc.prems in auto)
qed auto

lemma year_days: "(\<Sum>i\<le>11. days_in (1 + int i) y) = (if leap_year y then 366 else 365)"
  by (simp add: numeral_eq_Suc days_in_def)

lemma civil_date_correct:
  assumes "civil_date n = (y, m, d)"
  shows "days_from_civil y m d = n" "1 \<le> m" "m \<le> 12" "1 \<le> d" "d \<le> days_in m y"
proof -
  obtain yday where y: "civil_year n = (y, yday)" and md: "month_from 11 y 1 yday = (m, d)"
    using assms by (auto simp: civil_date_def split: prod.splits)
  note c = civil_year_correct [OF y]
  have "days_before_month m y + (d - 1) = days_before_month 1 y + yday \<and> 1 \<le> d \<and> d \<le> days_in m y \<and> 1 \<le> m \<and> m \<le> 1 + int 11"
    using c by (intro month_from_correct [OF _ _ _ md]) (simp_all add: year_days)
  with c show "days_from_civil y m d = n" "1 \<le> m" "m \<le> 12" "1 \<le> d" "d \<le> days_in m y"
    by (simp_all add: days_from_civil_def days_before_month_def Let_def)
qed

section \<open>Reading the text back\<close>

lemma length_pad [simp]: "length (pad k v) = k"
  by (induction k arbitrary: v) simp_all

lemma pad_digits [simp]: "list_all is_digit (pad k v)"
  by (induction k arbitrary: v) (simp_all add: digit_char_digit)

lemma digits_val_pad: "digits_val (pad k v) = int (v mod 10 ^ k)"
proof (induction k arbitrary: v)
  case (Suc k)
  then show ?case
    using mod_mult2_eq [of v 10 "10 ^ k"] by (simp add: digits_val_snoc digit_char_digit)
qed (simp add: digits_val_def)

lemma digits_n_pad: "v < 10 ^ k \<Longrightarrow> digits_n k (pad k v @ rest) = Some (int v, rest)"
  by (simp add: digits_n_def digits_val_pad)

lemma hour_pad: "v < 100 \<Longrightarrow> hour_digits (pad 2 v @ rest) = Some (int v, rest)"
  using digits_n_pad [of v 2 rest] by (simp add: hour_digits_def)

lemma fraction_text:
  assumes "frac_text 9 f s" shows "fraction (s @ ''Z'') = (int f, ''Z'')"
proof (cases "f = 0")
  case True
  with assms show ?thesis by (simp add: frac_text_def fraction_def)
next
  case False
  with assms obtain ds where ds: "s = CHR ''.'' # ds" "list_all is_digit ds" "ds \<noteq> []" "length ds \<le> 9"
      "digits_val ds * 10 ^ (9 - length ds) = int f"
    by (auto simp: frac_text_def)
  have "\<not> is_digit (CHR ''Z'')" by (simp add: is_digit_def)
  with ds(2) have "takeWhile is_digit (ds @ ''Z'') = ds" "dropWhile is_digit (ds @ ''Z'') = ''Z''"
    by (simp_all add: list_all_iff takeWhile_append2 dropWhile_append2)
  with ds(1,3-5) show ?thesis by (simp add: fraction_def nanoseconds_def)
qed

lemma skip_char_same [simp]: "skip_char c (c # s) = Some s"
  by (simp add: skip_char_def)

lemma parse_text:
  assumes "y < 10000" "1 \<le> m" "m \<le> 12" "1 \<le> d" "int d \<le> days_in (int m) (int y)" "hh < 24" "mm < 60" "ss < 60"
    "frac_text 9 ns f"
  shows "parse_rfc3339_nano (pad 4 y @ ''-'' @ pad 2 m @ ''-'' @ pad 2 d @ ''T'' @
      pad 2 hh @ '':'' @ pad 2 mm @ '':'' @ pad 2 ss @ f @ ''Z'') =
    Some (utc_date (int y) (int m) (int d) (int hh) (int mm) (int ss) (int ns))"
proof -
  have "int d \<le> 31" using assms(5) by (simp add: days_in_def split: if_splits)
  then have d: "d < 100" by simp
  show ?thesis
    using assms d
    by (simp add: parse_rfc3339_nano_def digits_n_pad hour_pad in_range_def fraction_text zone_def)
qed

text \<open>An instant whose year has four digits is written as a text that reads back as that instant.\<close>

lemma time_text_parts:
  assumes "time_text t = Some s"
  obtains y m d hh mm ss ns f where
    "s = pad 4 y @ ''-'' @ pad 2 m @ ''-'' @ pad 2 d @ ''T'' @ pad 2 hh @ '':'' @ pad 2 mm @ '':'' @ pad 2 ss @ f @ ''Z''"
    "y < 10000" "1 \<le> m" "m \<le> 12" "1 \<le> d" "int d \<le> days_in (int m) (int y)" "hh < 24" "mm < 60" "ss < 60"
    "frac_text 9 ns f" "t = utc_date (int y) (int m) (int d) (int hh) (int mm) (int ss) (int ns)"
proof -
  define ns secs where ns: "ns = (t - time_zero) mod 10 ^ 9" and secs: "secs = (t - time_zero) div 10 ^ 9"
  define days k where days: "days = secs div 86400" and k: "k = nat (secs mod 86400)"
  obtain y m d where c: "civil_date days = (y, m, d)" by (cases "civil_date days")
  note cd = civil_date_correct [OF c]
  have y: "0 \<le> y" "y \<le> 9999"
    and s: "s = pad 4 (nat y) @ ''-'' @ pad 2 (nat m) @ ''-'' @ pad 2 (nat d) @ ''T'' @ pad 2 (k div 3600) @ '':'' @
      pad 2 (k div 60 mod 60) @ '':'' @ pad 2 (k mod 60) @ fst (fmt_frac 9 (nat ns) False []) @ ''Z''"
    using assms c by (auto simp: time_text_def Let_def ns secs days k split: if_splits)
  obtain f where f: "fmt_frac 9 (nat ns) False [] = (f, nat ns div 10 ^ 9)" "frac_text 9 (nat ns mod 10 ^ 9) f"
    using fmt_frac_text [of 9 "nat ns" "[]"] by auto
  have "nat ns < 10 ^ 9" "0 \<le> ns" by (simp_all add: ns nat_less_iff)
  with f have f': "frac_text 9 (nat ns) f" by simp
  have k86: "k < 86400" by (simp add: k nat_less_iff)
  have "k div 3600 = k div 60 div 60" by (simp add: div_mult2_eq [symmetric])
  then have "k div 3600 * 3600 + k div 60 mod 60 * 60 + k mod 60 = k"
    using div_mult_mod_eq [of k 60] div_mult_mod_eq [of "k div 60" 60] by linarith
  from this [symmetric, THEN arg_cong, of int]
  have hms: "int (k div 3600) * 3600 + int (k div 60 mod 60) * 60 + int (k mod 60) = int k" by simp
  have "t - time_zero = secs * 10 ^ 9 + ns" by (simp add: ns secs)
  moreover have "secs = days * 86400 + int k" by (simp add: days k)
  ultimately have t: "t = utc_date y m d (int (k div 3600)) (int (k div 60 mod 60)) (int (k mod 60)) ns"
    unfolding utc_date_def cd(1) using hms by simp
  show ?thesis
    by (rule that [OF s [unfolded f(1) fst_conv], of "nat ns"])
      (use y cd k86 f' t \<open>0 \<le> ns\<close> in \<open>simp_all add: nat_less_iff le_nat_iff\<close>)
qed

lemma time_text_parsed: "time_text t = Some s \<Longrightarrow> parse_rfc3339_nano s = Some t"
  by (erule time_text_parts) (simp only: parse_text)

section \<open>As a JSON string\<close>

definition quotes_as_is :: "char \<Rightarrow> bool" where
  "quotes_as_is c \<longleftrightarrow> 32 \<le> (of_char c :: nat) \<and> (of_char c :: nat) < 128 \<and>
     c \<notin> {CHR 0x22, CHR 0x5C, CHR ''<'', CHR ''>'', CHR ''&''}"

lemma quote_char_as_is:
  assumes "quotes_as_is c" shows "quote_char c = [c]"
proof -
  have "32 \<le> (of_char c :: nat)" using assms by (simp add: quotes_as_is_def)
  then have "c \<noteq> CHR 0x08" "c \<noteq> CHR 0x0C" "c \<noteq> CHR 0x0A" "c \<noteq> CHR 0x0D" "c \<noteq> CHR 0x09" "\<not> (of_char c :: nat) < 32"
    by auto
  with assms show ?thesis by (simp add: quotes_as_is_def quote_char_def Let_def)
qed

lemma quote_as_is: "list_all quotes_as_is s \<Longrightarrow> quote_string s = CHR 0x22 # s @ [CHR 0x22]"
proof -
  assume s: "list_all quotes_as_is s"
  have "quote_body (length s) s = s"
    using s by (induction s) (simp_all add: quote_char_as_is, simp add: quotes_as_is_def)
  then show ?thesis by (simp add: quote_string_def)
qed

lemma digit_as_is: "is_digit c \<Longrightarrow> quotes_as_is c"
  unfolding is_digit_def quotes_as_is_def by (safe; simp)

lemma digits_as_is: "list_all is_digit ds \<Longrightarrow> list_all quotes_as_is ds"
  using digit_as_is by (auto simp: list_all_iff)

lemma frac_as_is: "frac_text p f s \<Longrightarrow> list_all quotes_as_is s"
  by (auto simp: frac_text_def digits_as_is quotes_as_is_def split: if_splits)

lemma pad_2: "\<exists>a b. pad 2 v = [a, b] \<and> is_digit a \<and> is_digit b"
  by (simp add: numeral_2_eq_2 digit_char_digit)

text \<open>The strict conditions hold of the text, whatever follows the seconds.\<close>

lemma time_text_strict:
  assumes "time_text t = Some s"
  shows "s ! 12 \<noteq> CHR '':'' \<and> s ! 19 \<noteq> CHR '','' \<and> last s = CHR ''Z'' \<and> list_all quotes_as_is s"
proof (rule time_text_parts [OF assms])
  fix y m d hh mm ss ns f
  assume s: "s = pad 4 y @ ''-'' @ pad 2 m @ ''-'' @ pad 2 d @ ''T'' @ pad 2 hh @ '':'' @ pad 2 mm @ '':'' @ pad 2 ss @ f @ ''Z''"
    and f: "frac_text 9 ns f"
  obtain a b where h: "pad 2 hh = [a, b]" "is_digit b" using pad_2 by blast
  have q: "list_all quotes_as_is s"
    using frac_as_is [OF f] by (simp add: s digits_as_is) (simp add: quotes_as_is_def)
  have "s = (pad 4 y @ ''-'' @ pad 2 m @ ''-'' @ pad 2 d @ ''T'') @ a # b # '':'' @ pad 2 mm @ '':'' @ pad 2 ss @ f @ ''Z''"
    by (simp add: s h(1))
  then have "s ! 12 = b" by (simp add: nth_append)
  then have twelve: "s ! 12 \<noteq> CHR '':''" using h(2) by (auto simp: is_digit_def)
  have "s = (pad 4 y @ ''-'' @ pad 2 m @ ''-'' @ pad 2 d @ ''T'' @ pad 2 hh @ '':'' @ pad 2 mm @ '':'' @ pad 2 ss) @ f @ ''Z''"
    by (simp add: s)
  then have "s ! 19 = (f @ ''Z'') ! 0" by (simp add: nth_append)
  moreover have "(f @ ''Z'') ! 0 \<noteq> CHR '',''"
    using f by (cases f) (auto simp: frac_text_def split: if_splits)
  moreover have "last s = CHR ''Z''" by (simp add: s)
  ultimately show ?thesis using twelve q by simp
qed

lemma marshalled_time_decoded:
  assumes "marshal_time t = Some raw"
  shows "\<exists>s. raw = quote_string s \<and> valid_utf8 s \<and> dec_time (raw, JStr s) old = Some t"
proof -
  obtain s where s: "time_text t = Some s" "raw = quote_string s" using assms by (auto simp: marshal_time_def)
  note st = time_text_strict [OF s(1)]
  have "valid_utf8 s"
    using st by (intro ascii_valid_utf8) (auto simp: list_all_iff quotes_as_is_def)
  moreover have "raw = CHR 0x22 # s @ [CHR 0x22]" using st s(2) quote_as_is by simp
  moreover have "parse_rfc3339_strict s = Some t"
    using st time_text_parsed [OF s(1)] by (simp add: parse_rfc3339_strict_def)
  ultimately show ?thesis using s(2) by (intro exI [of _ s]) (simp add: dec_time_def)
qed

end
