(* ===== verification/Payload_End_To_End.thy ===== *)
theory Payload_End_To_End
  imports End_To_End Json_Parts Time_Text
begin

text \<open>
  An RPC or resource payload from the sentinel to VictoriaMetrics: \<open>json.Marshal\<close> of the payload,
  the decoder's view of the text, and that the watchtower extracts from it the samples the
  payload held when the sentinel built it.
\<close>

section \<open>The payload on the wire\<close>

text \<open>\<open>json.Marshal\<close> of \<open>protocol.RPCPayload\<close> and \<open>protocol.MetricsPayload\<close>. A time beyond the year 9999
  and an invalid raw message are errors.\<close>

definition marshal_data :: "string gomap \<Rightarrow> string" where
  "marshal_data m =
     (case m of None \<Rightarrow> ''null'' | Some kvs \<Rightarrow> marshal_entries (map (\<lambda>(k, raw). (k, marshal_raw raw)) kvs))"

definition marshal_payload :: "payload \<Rightarrow> string option" where
  "marshal_payload p =
     (case marshal_time (collected_at p) of
        None \<Rightarrow> None
      | Some t \<Rightarrow>
          if list_all (\<lambda>(k, raw). raw_marshals raw) (gomap_items (p_data p)) then
            Some (''{'' @ quote_string ''collected_at'' @ '':'' @ t @ '','' @
              quote_string ''data'' @ '':'' @ marshal_data (p_data p) @ ''}'')
          else None)"

section \<open>What the decoder reads\<close>

definition data_fits :: "(string \<times> string) list \<Rightarrow> bool" where
  "data_fits m \<longleftrightarrow> distinct_keys m \<and> list_all (\<lambda>(k, raw). valid_utf8 k \<and> raw_fits raw) m"

abbreviation raw_tree :: "string \<Rightarrow> json" where
  "raw_tree raw \<equiv> compact_json (the (tree_of raw))"

abbreviation compact_data :: "(string \<times> string) list \<Rightarrow> (string \<times> string) list" where
  "compact_data m \<equiv> map (\<lambda>(k, raw). (k, compact raw)) m"

lemma data_encodes:
  assumes "data_fits m"
  shows "encodes (max_nesting_depth - 1) (marshal_data (Some m)) (JObj (map_members marshal_raw raw_tree m))"
proof -
  have d: "max_nesting_depth - 1 = Suc (max_nesting_depth - 2)" by (simp add: max_nesting_depth_def)
  have "list_all (entry_ok (max_nesting_depth - 2)) (map_members marshal_raw raw_tree m)"
    using assms by (intro map_members_ok) (auto simp: data_fits_def list_all_iff raw_fits_encodes)
  then show ?thesis
    unfolding d by (simp add: marshal_data_def marshal_entries_text [of marshal_raw _ raw_tree] encodes_object)
qed

lemma data_decodes:
  assumes "data_fits m"
  shows "dec_map dec_raw [] (raw, JObj (map_members marshal_raw raw_tree m)) None = Some (Some (sort_keys (compact_data m)))"
proof -
  have "dec_entries dec_raw [] (map_members marshal_raw raw_tree m) [] = Some (map (\<lambda>(k, raw). (k, marshal_raw raw)) (sort_keys m))"
    using assms by (intro dec_entries_members) (auto simp: data_fits_def dec_raw_def)
  moreover have "map (\<lambda>(k, raw). (k, marshal_raw raw)) (sort_keys m) = compact_data (sort_keys m)"
    using assms raw_fits_nonempty by (fastforce simp: data_fits_def list_all_iff marshal_raw_def)
  ultimately show ?thesis by (simp add: dec_map_def gomap_items_def sort_keys_map)
qed

text \<open>The decoder reads back the time, and the data in key order with every message compacted.\<close>

lemma payload_decoded:
  assumes "marshal_payload p = Some text" "p_data p = Some m" "data_fits m"
  shows "unmarshal dec_payload zero_payload text =
    Some \<lparr>collected_at = collected_at p, p_data = Some (compact_data (sort_keys m))\<rparr>"
proof -
  have d: "max_nesting_depth = Suc (max_nesting_depth - 1)" by (simp add: max_nesting_depth_def)
  obtain t where t: "marshal_time (collected_at p) = Some t"
    and tx: "text = ''{'' @ quote_string ''collected_at'' @ '':'' @ t @ '','' @
              quote_string ''data'' @ '':'' @ marshal_data (Some m) @ ''}''"
    using assms(1,2) by (auto simp: marshal_payload_def split: option.splits if_splits)
  from marshalled_time_decoded [OF t] obtain s where
    s: "t = quote_string s" "valid_utf8 s" "dec_time (t, JStr s) time_zero = Some (collected_at p)" by blast
  let ?ms = "[(''collected_at'', t, JStr s), (''data'', marshal_data (Some m), JObj (map_members marshal_raw raw_tree m))]"
  have "list_all (entry_ok (max_nesting_depth - 1)) ?ms"
    using data_encodes [OF assms(3)] s(1,2) by (simp add: entry_ok_def encodes_string ascii_valid_utf8)
  from encodes_object [OF this] have "encodes max_nesting_depth text (JObj ?ms)"
    by (subst d) (simp add: tx object_text_def entry_text_def)
  then show ?thesis
    using s(3) data_decodes [OF assms(3)]
    by (simp add: unmarshal_encoded dec_payload_def dec_struct_def dec_field_def members_named_def zero_payload_def
        sort_keys_map)
qed

section \<open>Compaction changes no sample\<close>

lemma rpc_decoders_keep [simp]:
  "keeps_no_raw dec_rpc_status" "keeps_no_raw dec_net_info" "keeps_no_raw dec_mempool" "keeps_no_raw dec_consensus"
  "keeps_no_raw dec_block" "keeps_no_raw dec_rpc_validators"
proof -
  have "keeps_no_raw dec_node_info" "keeps_no_raw dec_sync_info" "keeps_no_raw dec_validator_info"
    by (simp_all add: dec_node_info_def dec_sync_info_def dec_validator_info_def)
  then show "keeps_no_raw dec_rpc_status" by (simp add: dec_rpc_status_def)
  have "keeps_no_raw dec_rpc_validator" by (simp add: dec_rpc_validator_def)
  then show "keeps_no_raw dec_rpc_validators" by (simp add: dec_rpc_validators_def)
qed (simp_all add: dec_net_info_def dec_mempool_def dec_consensus_def dec_block_def)

lemma metrics_decoders_keep [simp]:
  "keeps_no_raw dec_self_type_stats" "keeps_no_raw dec_memory_stat" "keeps_no_raw dec_disk_stat"
  "keeps_no_raw dec_net_stat" "keeps_no_raw dec_container_stats"
proof -
  have "keeps_no_raw dec_memory_usage" "keeps_no_raw dec_network"
    by (simp_all add: dec_memory_usage_def dec_network_def)
  then show "keeps_no_raw dec_container_stats" by (simp add: dec_container_stats_def)
qed (simp_all add: dec_self_type_stats_def dec_memory_stat_def dec_disk_stat_def dec_net_stat_def)

text \<open>The genesis document alone keeps a message raw, its app hash, and decodes it when needed.\<close>

definition compact_app_hash :: "genesis_doc \<Rightarrow> genesis_doc" where
  "compact_app_hash g = g\<lparr>g_app_hash := compact (g_app_hash g)\<rparr>"

lemma genesis_follows: "decodes_along compact_app_hash dec_genesis_result"
proof -
  have k: "keeps_no_raw dec_genesis_block_params" "keeps_no_raw dec_genesis_validator"
    by (simp_all add: dec_genesis_block_params_def dec_genesis_validator_def)
  have "decodes_along compact_app_hash dec_genesis_doc"
    unfolding dec_genesis_doc_def
    by (rule follows_struct) (auto simp: k compact_app_hash_def split: bind_split)
  then show ?thesis unfolding dec_genesis_result_def by (intro follows_struct) simp
qed

lemma genesis_piece:
  assumes "unmarshal dec_genesis_result zero_genesis_doc raw = Some g" shows "raw_piece (g_app_hash g)"
proof -
  obtain q v where v: "json_parse raw = Some (q, v)" "dec_genesis_result (q, v) zero_genesis_doc = Some g"
    using assms by (auto simp: unmarshal_def split: option.splits)
  have zero: "raw_piece (g_app_hash zero_genesis_doc)" by (simp add: raw_piece_def zero_genesis_doc_def)
  have doc: "raw_piece (g_app_hash y)"
    if "dec_genesis_doc (q, v) x = Some y" "scanned v" "raw_piece (g_app_hash x)" for q v x y
    using that piece_field
    by (auto simp: dec_genesis_doc_def dec_struct_def bind_eq_Some_conv split: json.splits)
  have seq: "raw_piece (g_app_hash y)"
    if "dec_seq dec_genesis_doc rvs x = Some y" "\<forall>(raw, v) \<in> set rvs. scanned v" "raw_piece (g_app_hash x)" for rvs x y
    using that by (induction rvs arbitrary: x) (auto split: option.splits dest: doc)
  show ?thesis
  proof (cases "\<exists>ms. v = JObj ms")
    case True
    then obtain ms where ms: "v = JObj ms" by blast
    then have "dec_seq dec_genesis_doc (members_named ms ''genesis'') zero_genesis_doc = Some g"
      using v(2) by (simp add: dec_genesis_result_def dec_struct_def dec_field_def)
    moreover have "\<forall>(raw, v) \<in> set (members_named ms ''genesis''). scanned v"
      using scanned_named parsed_scanned [OF v(1)] by (auto simp: ms)
    ultimately show ?thesis using seq zero by blast
  next
    case False
    then show ?thesis using v(2) zero by (cases v) (auto simp: dec_genesis_result_def dec_struct_def)
  qed
qed

lemma genesis_compact:
  assumes "json_valid raw"
  shows "append_rpc_genesis ls validator ts (compact raw) = append_rpc_genesis ls validator ts raw"
proof -
  have z: "compact_app_hash zero_genesis_doc = zero_genesis_doc"
    by (simp add: compact_app_hash_def zero_genesis_doc_def)
  have u: "unmarshal dec_genesis_result zero_genesis_doc (compact raw) =
      map_option compact_app_hash (unmarshal dec_genesis_result zero_genesis_doc raw)"
    using unmarshal_follows [OF genesis_follows assms, of zero_genesis_doc] by (simp add: z)
  show ?thesis
  proof (cases "unmarshal dec_genesis_result zero_genesis_doc raw")
    case (Some g)
    have "normalize_app_hash (compact (g_app_hash g)) = normalize_app_hash (g_app_hash g)"
      using genesis_piece [OF Some] unfolding normalize_app_hash_def
      by (simp only: piece_compact(1) piece_compact(2) [OF _ reads_scalars_string])
    with Some show ?thesis
      by (simp add: append_rpc_genesis_def decode_result_def u)
         (simp add: compact_app_hash_def genesis_params_def)
  qed (simp add: append_rpc_genesis_def decode_result_def u)
qed

lemma rpc_key_compact:
  assumes "json_valid raw"
  shows "append_rpc_key validator ts ls (k, compact raw) = append_rpc_key validator ts ls (k, raw)"
  unfolding append_rpc_key_def Let_def split genesis_compact [OF assms]
  by (simp add: append_rpc_status_def append_rpc_net_info_def append_rpc_mempool_def
      append_rpc_consensus_def append_rpc_validators_def append_rpc_block_def
      append_rpc_sentry_status_def append_rpc_sentry_net_info_def append_rpc_sentry_config_def
      append_rpc_reachable_def decode_result_def unmarshal_keeps_no_raw [OF _ assms])

lemma metrics_key_compact:
  assumes "json_valid raw"
  shows "append_metrics_key validator ts ls (k, compact raw) = append_metrics_key validator ts ls (k, raw)"
  by (simp add: append_metrics_key_def append_host_cpu_def append_host_memory_def append_host_disk_def
      append_host_network_def append_container_def append_node_config_def append_self_stats_def
      unmarshal_keeps_no_raw [OF _ assms])

lemma fold_compact:
  assumes "list_all (\<lambda>(k, raw). json_valid raw) m"
  shows "foldl (append_rpc_key validator ts) ls (compact_data m) = foldl (append_rpc_key validator ts) ls m"
    and "foldl (append_metrics_key validator ts) ls (compact_data m) = foldl (append_metrics_key validator ts) ls m"
  using assms by (induction m arbitrary: ls) (auto simp: rpc_key_compact metrics_key_compact)

section \<open>From the sentinel to VictoriaMetrics\<close>

definition extract_payload :: "string \<Rightarrow> string \<Rightarrow> payload \<Rightarrow> vm_line list" where
  "extract_payload perm = (if perm = ''rpc'' then extract_rpc else extract_metrics)"

lemma extract_decoded:
  assumes "marshal_payload p = Some text" "p_data p = Some m" "data_fits m"
  shows "extract_payload perm name \<lparr>collected_at = collected_at p, p_data = Some (compact_data (sort_keys m))\<rparr> =
    extract_payload perm name (p\<lparr>p_data := Some (sort_keys m)\<rparr>)"
proof -
  have "list_all (\<lambda>(k, raw). raw_marshals raw) m"
    using assms(1,2) by (simp add: marshal_payload_def gomap_items_def split: option.splits if_splits)
  with assms(3) have "list_all (\<lambda>(k, raw). json_valid raw) (sort_keys m)"
    by (fastforce simp: data_fits_def list_all_iff raw_fits_valid)
  from fold_compact [OF this] show ?thesis
    by (simp add: extract_payload_def extract_rpc_def extract_metrics_def gomap_items_def)
qed

text \<open>C4: a payload that the sentinel's RPC or resource collector builds, marshals and posts, and that
  the watchtower admits, makes the watchtower import exactly the samples that the payload's
  messages held before they were marshalled, with the payload's own collection time, taken
  in key order (and post nothing when they hold none): nothing is lost or altered on the wire.\<close>

theorem payload_samples_delivered:
  assumes marshalled: "marshal_payload p = Some body" and data: "p_data p = Some m" "data_fits m"
    and perm: "perm \<in> {''rpc'', ''metrics''}"
    and r: "r = arrived addr (''/'' @ perm) (build_request sd (''/'' @ perm) body ct ce)"
    and admitted: "ar_verdict (auth_middleware (ev_clock e) r (sv_auth s)) = Authenticated name v"
      "fst (allow (ev_new_bucket e) (ev_allow_bucket e) (ev_limit_now e) name (sv_rl s))"
    and allowed: "perm \<in> set (vc_permissions v)" "length body \<le> 50 * 2 ^ 20"
  shows "sr_posted (serve e r s) =
    (let ls = extract_payload perm name (p\<lparr>p_data := Some (sort_keys m)\<rparr>)
     in if ls = [] then None
        else Some \<lparr>po_url = f_vm_url (sv_fwd s) @ ''/api/v1/import'', po_body = encode_vm_lines ls,
                   po_content_type = ''application/json''\<rparr>)"
proof -
  have "sr_posted (serve e r s) = fr_posted (forward_payload e (sv_fwd s) perm name v body)"
    using admitted_payload_posted [OF _ r admitted allowed] perm by blast
  also have "\<dots> = fr_posted (post_vm_lines (ev_client e) (sv_fwd s) (extract_payload perm name
      \<lparr>collected_at = collected_at p, p_data = Some (compact_data (sort_keys m))\<rparr>))"
    using perm payload_decoded [OF marshalled data]
    by (auto simp: forward_payload_def forward_rpc_def forward_metrics_def extract_payload_def)
  finally show ?thesis
    unfolding extract_decoded [OF marshalled data] by (simp add: post_vm_lines_def post_def fwd_noop_def Let_def)
qed

definition demo_payload :: payload where
  "demo_payload = \<lparr>collected_at = 1699920061000000500, p_data = Some [(''net_info'',
     ''{ '' @ quote_string ''n_peers'' @ '': '' @ quote_string ''3'' @ '' }'')]\<rparr>"

definition demo_body :: string where
  "demo_body = ''{'' @ quote_string ''collected_at'' @ '':'' @ quote_string ''2023-11-14T00:01:01.0000005Z'' @ '','' @
     quote_string ''data'' @ '':{'' @ quote_string ''net_info'' @ '':{'' @ quote_string ''n_peers'' @ '':'' @
     quote_string ''3'' @ ''}}}''"

lemma demo_payload_marshal: "marshal_payload demo_payload = Some demo_body"
  by code_simp

lemma demo_payload_fits: "data_fits (the (p_data demo_payload))"
  by code_simp

lemma demo_peers: "decode_result dec_net_info [] (''{ '' @ quote_string ''n_peers'' @ '': '' @ quote_string ''3'' @ '' }'') = Some ''3''"
  by code_simp

lemma demo_payload_lines:
  "extract_payload ''rpc'' ''v1'' (demo_payload\<lparr>p_data := Some (sort_keys (the (p_data demo_payload)))\<rparr>) =
    [vm_sample ''sentinel_rpc_peers'' [(''validator'', ''v1'')] (f64_of_int 3) 1699920061000]"
proof -
  have three: "parse_int64 ''3'' = Some 3" by code_simp
  have ms: "unix_milli 1699920061000000500 = 1699920061000" by (simp add: unix_milli_def wrap64_id int64_range_def)
  show ?thesis
    using demo_peers
    by (simp add: extract_payload_def extract_rpc_def gomap_items_def demo_payload_def sort_keys_def append_rpc_key_def
        append_rpc_net_info_def append_opt_def int_sample_def three ms)
qed

theorem payload_samples_delivered_witness:
  "marshal_payload demo_payload = Some demo_body \<and>
   sr_posted (serve demo_env (arrived ''10.0.0.7:40000'' ''/rpc''
       (build_request demo_sender ''/rpc'' demo_body ''application/json'' [])) demo_server) =
     Some \<lparr>po_url = f_vm_url (sv_fwd demo_server) @ ''/api/v1/import'',
       po_body = encode_vm_lines [vm_sample ''sentinel_rpc_peers'' [(''validator'', ''v1'')] (f64_of_int 3) 1699920061000],
       po_content_type = ''application/json''\<rparr>"
proof -
  have m: "''rpc'' \<in> set (vc_permissions demo_validator)" by (simp add: demo_validator_def)
  have len: "length demo_body \<le> 50 * 2 ^ 20"
    by (rule order_trans [of _ 100]) (code_simp, simp)
  have d: "p_data demo_payload = Some (the (p_data demo_payload))" by (simp add: demo_payload_def)
  from payload_samples_delivered [where perm = "''rpc''", OF demo_payload_marshal d demo_payload_fits, OF _ _ _ _ m len, simplified,
      OF refl, unfolded append_Cons append_Nil, OF demo_admitted demo_within_limit] demo_payload_lines demo_payload_marshal
  show ?thesis by simp
qed

end
