(* ===== verification/Flush_End_To_End.thy ===== *)
theory Flush_End_To_End
  imports End_To_End
begin

text \<open>
  A whole flush of one of the sentinel's buffers against the watchtower's server: item after
  item and attempt after attempt, every answer delivered. Both ends keep byte counts of their
  own; they agree.
\<close>

section \<open>The exchange\<close>

definition encoding_of :: "flush_kind \<Rightarrow> string" where
  "encoding_of kind = (if fk_zstd kind then ''zstd'' else [])"

text \<open>The request of an item, its attempts against the server in state \<open>sv\<close>, and the server after
  them. \<open>we j i\<close> is the watchtower's environment at attempt \<open>i\<close> of item \<open>j\<close>.\<close>

definition item_request :: "string \<Rightarrow> 'c sender \<Rightarrow> flush_kind \<Rightarrow> string \<Rightarrow> http_request" where
  "item_request addr sd kind wire =
     arrived addr (fk_path kind) (build_request sd (fk_path kind) wire ''application/json'' (encoding_of kind))"

definition item_attempts ::
  "(nat \<Rightarrow> ('l, 'v, 'x, 'm, 'q) env) \<Rightarrow> (nat \<Rightarrow> bool) \<Rightarrow> string \<Rightarrow> 'c sender \<Rightarrow> flush_kind \<Rightarrow> string \<Rightarrow>
   'l server \<Rightarrow> retry_result \<times> retry_event list" where
  "item_attempts we cancel addr sd kind wire sv =
     retry (\<lambda>i. send_post (\<lambda>q. answer we (arrived addr (fk_path kind) q) sv i) sd (fk_path kind) wire
              ''application/json'' (encoding_of kind)) cancel max_send_attempts initial_backoff"

definition after_item ::
  "(nat \<Rightarrow> ('l, 'v, 'x, 'm, 'q) env) \<Rightarrow> (nat \<Rightarrow> bool) \<Rightarrow> string \<Rightarrow> 'c sender \<Rightarrow> flush_kind \<Rightarrow> string \<Rightarrow>
   'l server \<Rightarrow> 'l server" where
  "after_item we cancel addr sd kind wire sv =
     before_attempt we (item_request addr sd kind wire) sv
       (attempts (snd (item_attempts we cancel addr sd kind wire sv)))"

text \<open>The server after a flush: as \<open>flush_items\<close>, with the server in place of the statistics.\<close>

fun flushed_server ::
  "'p flush_env \<Rightarrow> (nat \<Rightarrow> nat \<Rightarrow> ('l, 'v, 'x, 'm, 'q) env) \<Rightarrow> string \<Rightarrow> 'c sender \<Rightarrow> flush_kind \<Rightarrow> nat \<Rightarrow>
   'p list \<Rightarrow> 'l server \<Rightarrow> 'l server" where
  "flushed_server e we addr sd kind j [] sv = sv"
| "flushed_server e we addr sd kind j (p # ps) sv =
     (case fe_marshal e p of
        None \<Rightarrow> flushed_server e we addr sd kind (Suc j) ps sv
      | Some b \<Rightarrow>
          (let wire = wire_form e kind b;
               sv1 = after_item (we j) (fe_cancel e j) addr sd kind wire sv
           in if send_item e sd kind j wire \<noteq> Sent \<and> fe_done e j then sv1
              else flushed_server e we addr sd kind (Suc j) ps sv1))"

text \<open>The sentinel's HTTP client is connected to that server: each attempt gets the server's answer.\<close>

fun linked_to ::
  "'p flush_env \<Rightarrow> (nat \<Rightarrow> nat \<Rightarrow> ('l, 'v, 'x, 'm, 'q) env) \<Rightarrow> string \<Rightarrow> 'c sender \<Rightarrow> flush_kind \<Rightarrow> nat \<Rightarrow>
   'p list \<Rightarrow> 'l server \<Rightarrow> bool" where
  "linked_to e we addr sd kind j [] sv = True"
| "linked_to e we addr sd kind j (p # ps) sv =
     (case fe_marshal e p of
        None \<Rightarrow> linked_to e we addr sd kind (Suc j) ps sv
      | Some b \<Rightarrow>
          (\<forall>i q. fe_clients e j i q = answer (we j) (arrived addr (fk_path kind) q) sv i) \<and>
          linked_to e we addr sd kind (Suc j) ps
            (after_item (we j) (fe_cancel e j) addr sd kind (wire_form e kind b) sv))"

definition delivered_wire :: "'p flush_env \<Rightarrow> flush_kind \<Rightarrow> ('p \<times> item_fate) list \<Rightarrow> int" where
  "delivered_wire e kind pfs =
     sum_list (map (\<lambda>(p, f). if f = Delivered
       then (case fe_marshal e p of None \<Rightarrow> 0 | Some b \<Rightarrow> int (length (wire_form e kind b))) else 0) pfs)"

definition wire_total :: "string \<Rightarrow> sn_stats \<Rightarrow> int" where
  "wire_total typ st = en_total_wire_bytes (get_or_create typ st)"

section \<open>One item\<close>

lemma send_item_attempts:
  assumes "\<And>i q. fe_clients e j i q = answer we (arrived addr (fk_path kind) q) sv i"
  shows "send_item e sd kind j wire = fst (item_attempts we (fe_cancel e j) addr sd kind wire sv)"
proof -
  have "fe_clients e j i = (\<lambda>q. answer we (arrived addr (fk_path kind) q) sv i)" for i
    using assms by blast
  then show ?thesis
    by (simp add: send_item_def item_attempts_def send_compressed_with_retry_def send_raw_with_retry_def
        encoding_of_def)
qed

lemma after_item_counts:
  assumes perm: "perm \<in> {''rpc'', ''metrics'', ''logs'', ''otlp''}" "fk_path kind = ''/'' @ perm"
    and ok: "stats_ok (sv_stats sv)"
    and token: "tokens (sv_auth sv) (sd_token sd) = Some \<lparr>te_validator_name = name, te_config = v\<rparr>"
  shows "e_total (entry_at (sv_stats (after_item we cancel addr sd kind wire sv)) (name, perm)) =
      wrap64 (e_total (entry_at (sv_stats sv) (name, perm)) +
        (if fst (item_attempts we cancel addr sd kind wire sv) = Sent then int (length wire) else 0))"
    and "stats_ok (sv_stats (after_item we cancel addr sd kind wire sv))"
    and "tokens (sv_auth (after_item we cancel addr sd kind wire sv)) = tokens (sv_auth sv)"
proof -
  obtain res evs where r: "item_attempts we cancel addr sd kind wire sv = (res, evs)"
    by (cases "item_attempts we cancel addr sd kind wire sv")
  show "e_total (entry_at (sv_stats (after_item we cancel addr sd kind wire sv)) (name, perm)) =
      wrap64 (e_total (entry_at (sv_stats sv) (name, perm)) +
        (if fst (item_attempts we cancel addr sd kind wire sv) = Sent then int (length wire) else 0))"
    using sent_iff_counted_once [OF perm(1) ok token refl r [unfolded item_attempts_def perm(2)]]
    by (simp add: after_item_def item_request_def r perm(2))
qed (simp_all add: after_item_def before_attempt_ok ok)

lemma wire_total_sent:
  "wire_total typ (record_sent typ u w st) = wrap64 (wire_total typ st + w)"
  "wire_total typ (record_drop typ2 reason st) = wire_total typ st"
  by (simp_all add: wire_total_def record_sent_def record_drop_def Let_def get_or_create_update)

section \<open>The two accounts agree\<close>

lemma flush_items_agree:
  assumes perm: "perm \<in> {''rpc'', ''metrics'', ''logs'', ''otlp''}" "fk_path kind = ''/'' @ perm"
  shows "stats_ok (sv_stats sv) \<Longrightarrow> int64_range (wire_total (fk_type kind) st) \<Longrightarrow>
    tokens (sv_auth sv) (sd_token sd) = Some \<lparr>te_validator_name = name, te_config = v\<rparr> \<Longrightarrow>
    linked_to e we addr sd kind j ps sv \<Longrightarrow> flush_items e sd kind j ps st = (fates, st') \<Longrightarrow>
    e_total (entry_at (sv_stats (flushed_server e we addr sd kind j ps sv)) (name, perm)) =
      wrap64 (e_total (entry_at (sv_stats sv) (name, perm)) + delivered_wire e kind (zip ps fates)) \<and>
    wire_total (fk_type kind) st' = wrap64 (wire_total (fk_type kind) st + delivered_wire e kind (zip ps fates))"
proof (induction ps arbitrary: j sv st fates)
  case Nil
  then show ?case by (simp add: delivered_wire_def stats_ok_wrap wrap64_id)
next
  case (Cons p ps)
  show ?case
  proof (cases "fe_marshal e p")
    case None
    with Cons.prems Cons.IH [of sv st "Suc j"] show ?thesis
      by (auto simp: delivered_wire_def Let_def split: prod.splits)
  next
    case (Some b)
    let ?wire = "wire_form e kind b"
    let ?sv = "after_item (we j) (fe_cancel e j) addr sd kind ?wire sv"
    have c: "linked_to e we addr sd kind (Suc j) ps ?sv"
      and cl: "\<And>i q. fe_clients e j i q = answer (we j) (arrived addr (fk_path kind) q) sv i"
      using Cons.prems(4) Some by simp_all
    note res = send_item_attempts [OF cl, where wire = ?wire]
    note step = after_item_counts [OF perm Cons.prems(1,3), of "we j" "fe_cancel e j" addr ?wire, folded res]
    show ?thesis
    proof (cases "send_item e sd kind j ?wire = Sent")
      case True
      obtain fs where f: "fates = Delivered # fs"
          "flush_items e sd kind (Suc j) ps (record_sent (fk_type kind) (int (length b)) (int (length ?wire)) st) = (fs, st')"
        using Cons.prems(5) Some True by (auto simp: Let_def split: prod.splits)
      from Cons.IH [OF step(2) _ _ c f(2)] step(1,3) Cons.prems(3) True Some show ?thesis
        by (simp add: f(1) delivered_wire_def Let_def wire_total_sent wrap64_range add.assoc)
    next
      case unsent: False
      show ?thesis
      proof (cases "fe_done e j")
        case True
        have "delivered_wire e kind (zip qs (map (\<lambda>_. Lost) qs)) = 0" for qs
          by (induction qs) (simp_all add: delivered_wire_def)
        with True unsent Some Cons.prems step(1) show ?thesis
          by (auto simp: Let_def delivered_wire_def stats_ok_wrap wrap64_id)
      next
        case False
        obtain fs where f: "fates = Dropped # fs"
            "flush_items e sd kind (Suc j) ps (record_drop (fk_type kind) ''retry_exhausted'' st) = (fs, st')"
          using Cons.prems(5) Some unsent False by (auto simp: Let_def split: prod.splits)
        from Cons.IH [OF step(2) _ _ c f(2)] step(1,3) Cons.prems(2,3) unsent False Some show ?thesis
          by (simp add: f(1) delivered_wire_def Let_def wire_total_sent stats_ok_wrap Cons.prems(1))
      qed
    qed
  qed
qed

text \<open>C2: let the sentinel flush a buffer to the watchtower under the token of one of its validators,
  with every answer delivered: the wire bytes the sentinel's statistics add for that type and
  the bytes the watchtower's statistics add for that validator are the same number, the wire
  sizes of the items the sentinel takes for delivered, however many attempts each item
  took, whether items were given up, could not be encoded or the flush was cut short.\<close>

theorem flush_agrees_with_watchtower:
  assumes perm: "perm \<in> {''rpc'', ''metrics'', ''logs'', ''otlp''}" "fk_path kind = ''/'' @ perm"
    and ok: "stats_ok (sv_stats sv)" "int64_range (wire_total (fk_type kind) st)"
    and token: "tokens (sv_auth sv) (sd_token sd) = Some \<lparr>te_validator_name = name, te_config = v\<rparr>"
    and linked: "linked_to e we addr sd kind 0 (fst (drain buf)) sv"
    and flush: "flush_buffer e sd kind buf st = (fates, buf', st')"
  shows "\<exists>n. n = delivered_wire e kind (zip (fst (drain buf)) fates) \<and>
     wire_total (fk_type kind) st' = wrap64 (wire_total (fk_type kind) st + n) \<and>
     e_total (entry_at (sv_stats (flushed_server e we addr sd kind 0 (fst (drain buf)) sv)) (name, perm)) =
       wrap64 (e_total (entry_at (sv_stats sv) (name, perm)) + n)"
proof -
  have "flush_items e sd kind 0 (fst (drain buf)) st = (fates, st')"
    using flush by (simp add: flush_buffer_def split: prod.splits)
  from flush_items_agree [OF perm ok token linked this] show ?thesis by simp
qed

definition demo_linked_env :: "string flush_env" where
  "demo_linked_env =
     \<lparr>fe_clients = \<lambda>j i q. answer (\<lambda>_. demo_env) (arrived ''10.0.0.7:40000'' ''/rpc'' q) demo_server i,
      fe_cancel = \<lambda>j k. False, fe_done = \<lambda>j. False, fe_marshal = Some, fe_compress = \<lambda>b. b\<rparr>"

theorem flush_agrees_with_watchtower_witness:
  "\<exists>fates buf' st'. flush_buffer demo_linked_env demo_sender flush_rpc_kind
       \<lparr>b_items = [sample_rpc_body], b_max_size = 5\<rparr> (new_sn_stats 0) = (fates, buf', st') \<and>
     fates = [Delivered] \<and> wire_total ''rpc'' st' = int (length sample_rpc_body) \<and>
     e_total (entry_at (sv_stats (flushed_server demo_linked_env (\<lambda>_ _. demo_env) ''10.0.0.7:40000'' demo_sender
        flush_rpc_kind 0 [sample_rpc_body] demo_server)) (''v1'', ''rpc'')) = int (length sample_rpc_body)"
proof -
  let ?buf = "\<lparr>b_items = [sample_rpc_body], b_max_size = 5\<rparr>"
  let ?w = "\<lambda>_ _. demo_env"
  have linked: "linked_to demo_linked_env ?w ''10.0.0.7:40000'' demo_sender flush_rpc_kind 0 (fst (drain ?buf)) demo_server"
    by (simp add: drain_def demo_linked_env_def flush_rpc_kind_def)
  have "demo_attempt 0 = None" using demo_arrived_accepted by (subst send_post_answer) simp
  then have sent: "send_item demo_linked_env demo_sender flush_rpc_kind 0 sample_rpc_body = Sent"
    by (simp add: send_item_def flush_rpc_kind_def send_raw_with_retry_def retry_def max_send_attempts_def
        demo_linked_env_def eval_nat_numeral)
  obtain buf' st' where flush: "flush_buffer demo_linked_env demo_sender flush_rpc_kind ?buf (new_sn_stats 0) =
      ([Delivered], buf', st')"
    using sent by (simp add: flush_buffer_def drain_def wire_form_def flush_rpc_kind_def demo_linked_env_def Let_def)
  have n: "delivered_wire demo_linked_env flush_rpc_kind (zip (fst (drain ?buf)) [Delivered]) = int (length sample_rpc_body)"
    by (simp add: delivered_wire_def drain_def wire_form_def flush_rpc_kind_def demo_linked_env_def)
  have z: "e_total (entry_at (sv_stats demo_server) (''v1'', ''rpc'')) = 0" "stats_ok (sv_stats demo_server)"
      "wire_total ''rpc'' (new_sn_stats 0) = 0"
    by (simp_all add: demo_server_def new_server_stats new_stats_def entry_at_def stats_ok_def wire_total_def
        get_or_create_def new_sn_stats_def zero_sn_entry_def)
  have t: "tokens (sv_auth demo_server) (sd_token demo_sender) = Some \<lparr>te_validator_name = ''v1'', te_config = demo_validator\<rparr>"
    by (simp add: demo_server_def new_server_def new_authenticator_def set_metrics_def demo_sender_def demo_validator_def)
  have k: "fk_path flush_rpc_kind = ''/'' @ ''rpc''" "fk_type flush_rpc_kind = ''rpc''" by (simp_all add: flush_rpc_kind_def)
  have len: "wrap64 (int (length sample_rpc_body)) = int (length sample_rpc_body)"
    by (simp add: sample_rpc_body_def wrap64_id int64_range_def)
  from flush_agrees_with_watchtower [OF _ k(1) z(2) _ t linked flush] z n len k(2) flush show ?thesis
    by (simp add: drain_def int64_range_def)
qed

end
