(* ===== verification/Server_Loops.thy ===== *)
theory Server_Loops
  imports Sn_Run Beacon_App Watchtower_Run
begin

text \<open>
  How the four HTTP servers run: the relay (\<open>Run\<close> in \<open>otlp/relay.go\<close>), the health endpoint
  (\<open>app/health.go\<close>), the beacon (\<open>Run\<close> in \<open>beacon/server/server.go\<close>) and the watchtower
  (\<open>cmd/watchtower/main.go\<close>). Each binds its address, serves until the context is done, when
  it shuts down and that is not an error, or until accepting fails, when it is. A request is
  served in one step; the grace period of a shutdown and the timeouts are left out.
\<close>

section \<open>The loop\<close>

datatype 'r net_event = Arrives 'r | CtxDone | AcceptFails

datatype loop_end = StillServing | ShutDown | ServeFailed

fun serve_loop :: "('r \<Rightarrow> 's \<Rightarrow> 'o \<times> 's) \<Rightarrow> 'r net_event list \<Rightarrow> 's \<Rightarrow> 'o list \<times> 's \<times> loop_end" where
  "serve_loop handle [] s = ([], s, StillServing)"
| "serve_loop handle (Arrives r # evs) s =
     (let (resp, s1) = handle r s; (outs, s2, fin) = serve_loop handle evs s1 in (resp # outs, s2, fin))"
| "serve_loop handle (CtxDone # evs) s = ([], s, ShutDown)"
| "serve_loop handle (AcceptFails # evs) s = ([], s, ServeFailed)"

text \<open>The requests that arrived before the end.\<close>

fun in_time :: "'r net_event list \<Rightarrow> 'r list" where
  "in_time (Arrives r # evs) = r # in_time evs"
| "in_time _ = []"

section \<open>The servers\<close>

datatype listen_error = CannotListen | CannotServe

definition run_result :: "loop_end \<Rightarrow> listen_error option" where
  "run_result fin = (if fin = ServeFailed then Some CannotServe else None)"

definition relay_serving ::
  "bool \<Rightarrow> (('m, 's, 'r, 'q) relay_env \<times> http_request) net_event list \<Rightarrow> relay \<Rightarrow>
   http_response list \<times> relay \<times> listen_error option" where
  "relay_serving bound evs rl =
     (if \<not> bound then ([], rl, Some CannotListen)
      else
        (let (outs, rl', fin) = serve_loop (\<lambda>(e, r). relay_serve e r) evs rl in (outs, rl', run_result fin)))"

text \<open>The health endpoint logs its error, of binding too, and keeps no state.\<close>

definition health_serving ::
  "bool \<Rightarrow> bool \<Rightarrow> http_request net_event list \<Rightarrow> http_response list \<times> listen_error option" where
  "health_serving enabled bound evs =
     (if \<not> enabled then ([], None)
      else if \<not> bound then ([], Some CannotServe)
      else
        (let (outs, _, fin) = serve_loop (\<lambda>r u. (case health_serve True r of Some resp \<Rightarrow> resp | None \<Rightarrow> no_page, u)) evs ()
         in (outs, run_result fin)))"

datatype bn_run_error = BnListen hs_error | BnServe

definition beacon_serving ::
  "hs_error + 'c listener \<Rightarrow>
   (augment_env \<times> (proxied \<Rightarrow> http_response option) \<times> http_request) net_event list \<Rightarrow> beacon \<Rightarrow>
   (http_response \<times> proxied option) list \<times> beacon \<times> bn_run_error option" where
  "beacon_serving listener evs b =
     (case listener of
        Inl err \<Rightarrow> ([], b, Some (BnListen err))
      | Inr _ \<Rightarrow>
          (let (outs, b', fin) = serve_loop
                 (\<lambda>(e, upstream, r) b. let (resp, fwd, b1) = beacon_serve e upstream r b in ((resp, fwd), b1)) evs b
           in (outs, b', if fin = ServeFailed then Some BnServe else None)))"

text \<open>\<open>app.Run\<close> of the beacon logs the server's error unless the context is done.\<close>

definition beacon_app_run ::
  "bool \<Rightarrow> (http_response \<times> proxied option) list \<times> beacon \<times> bn_run_error option \<Rightarrow> bn_run_error option" where
  "beacon_app_run ctx_done res = (if ctx_done then None else snd (snd res))"

text \<open>The watchtower exits with status 1 when it cannot bind or accepting fails, else with 0.\<close>

definition watchtower_serving ::
  "bool \<Rightarrow> (('l, 'v, 'x, 'm, 'q) env \<times> http_request) net_event list \<Rightarrow> 'l server \<Rightarrow>
   http_response list \<times> 'l server \<times> int" where
  "watchtower_serving bound evs s =
     (if \<not> bound then ([], s, 1)
      else
        (let (outs, s', fin) = serve_loop
               (\<lambda>(e, r) s. let sv = serve e r s in (sr_response sv, sr_state sv)) evs s
         in (outs, s', if fin = ServeFailed then 1 else 0)))"

section \<open>What a handler keeps, its server keeps\<close>

locale http_handler =
  fixes handle :: "'r \<Rightarrow> 's \<Rightarrow> 'o \<times> 's" and ok :: "'s \<Rightarrow> bool"
  assumes keeps: "ok s \<Longrightarrow> ok (snd (handle r s))"
begin

lemma loop_state: "fst (snd (serve_loop handle evs s)) = foldl (\<lambda>s r. snd (handle r s)) s (in_time evs)"
proof (induction evs arbitrary: s)
  case (Cons ev evs)
  then show ?case by (cases ev) (simp_all add: case_prod_unfold Let_def)
qed simp

lemma loop_answers: "length (fst (serve_loop handle evs s)) = length (in_time evs)"
proof (induction evs arbitrary: s)
  case (Cons ev evs)
  then show ?case by (cases ev) (simp_all add: case_prod_unfold Let_def)
qed simp

lemma loop_keeps: "ok s \<Longrightarrow> ok (fst (snd (serve_loop handle evs s)))"
proof (induction evs arbitrary: s)
  case (Cons ev evs)
  then show ?case by (cases ev) (simp_all add: case_prod_unfold Let_def keeps)
qed simp

end

lemma offer_within: "length (rl_out rl) \<le> rl_cap rl \<Longrightarrow> length (rl_out (offer b rl)) \<le> rl_cap (offer b rl)"
  by (simp add: offer_def)

lemma relay_serve_within:
  assumes "length (rl_out rl) \<le> rl_cap rl"
  shows "length (rl_out (snd (relay_serve e r rl))) \<le> rl_cap (snd (relay_serve e r rl))"
proof -
  have "length (rl_out (snd (relay_metrics e r rl))) \<le> rl_cap (snd (relay_metrics e r rl))"
    using assms offer_within by (auto simp: relay_metrics_def Let_def split: sum.split option.split prod.split)
  with assms show ?thesis by (simp add: relay_serve_def relay_traces_def)
qed

interpretation relay_http: http_handler "\<lambda>(e, r). relay_serve e r" "\<lambda>rl. length (rl_out rl) \<le> rl_cap rl"
  by unfold_locales (auto intro: relay_serve_within)

lemma serve_stats_ok: "stats_ok (sv_stats s) \<Longrightarrow> stats_ok (sv_stats (sr_state (serve e r s)))"
  using wt_step_entry(3) [where ev = "Request e r"] by simp

interpretation watchtower_http: http_handler "\<lambda>(e, r) s. let sv = serve e r s in (sr_response sv, sr_state sv)"
    "\<lambda>s. stats_ok (sv_stats s)"
  by unfold_locales (auto simp: Let_def intro: serve_stats_ok)

interpretation beacon_http: http_handler
    "\<lambda>(e, upstream, r) b. let (resp, fwd, b1) = beacon_serve e upstream r b in ((resp, fwd), b1)"
    "\<lambda>b. bn_upstream_path b = path" for path
  by unfold_locales
     (auto simp: Let_def beacon_serve_def beacon_handle_def split: prod.splits option.splits if_splits)

section \<open>What a run amounts to\<close>

text \<open>A watchtower that binds its address answers every request that arrives before it stops, in
  the state the requests before left; it exits with status 0 exactly when it was not
  accepting that failed.\<close>

lemma watchtower_serving_run:
  assumes "watchtower_serving True evs s = (outs, s', code)"
  shows "s' = wt_run (map (\<lambda>(e, r). Request e r) (in_time evs)) s" "length outs = length (in_time evs)"
    "code = 1 \<longleftrightarrow> snd (snd (serve_loop (\<lambda>(e, r) s. let sv = serve e r s in (sr_response sv, sr_state sv)) evs s)) = ServeFailed"
proof -
  have f: "foldl (\<lambda>s p. sr_state (serve (fst p) (snd p) s)) s rs = wt_run (map (\<lambda>p. Request (fst p) (snd p)) rs) s" for rs
    by (induction rs arbitrary: s) (auto simp: wt_run_def)
  show "s' = wt_run (map (\<lambda>(e, r). Request e r) (in_time evs)) s" "length outs = length (in_time evs)"
    using assms watchtower_http.loop_state [of evs s] watchtower_http.loop_answers [of evs s]
    by (auto simp: watchtower_serving_def f case_prod_unfold Let_def split: if_splits)
  show "code = 1 \<longleftrightarrow> snd (snd (serve_loop (\<lambda>(e, r) s. let sv = serve e r s in (sr_response sv, sr_state sv)) evs s)) = ServeFailed"
    using assms by (auto simp: watchtower_serving_def case_prod_unfold Let_def split: if_splits)
qed

text \<open>A relay or a beacon that the end of the context stops reports no error.\<close>

lemma cancelled_loop: "CtxDone \<in> set evs \<Longrightarrow> AcceptFails \<notin> set evs \<Longrightarrow> snd (snd (serve_loop h evs s)) = ShutDown"
proof (induction evs arbitrary: s)
  case (Cons ev evs)
  then show ?case by (cases ev) (simp_all add: case_prod_unfold Let_def)
qed simp

lemma cancelled_without_error:
  assumes "CtxDone \<in> set evs" "AcceptFails \<notin> set evs"
  shows "snd (snd (relay_serving True evs rl)) = None" 
  using cancelled_loop [OF assms, where h = "\<lambda>p. relay_serve (fst p) (snd p)" and s = rl] by (simp add: relay_serving_def case_prod_unfold Let_def run_result_def)

end
