(* ===== verification/Spec2Isabelle.thy ===== *)
theory Spec2Isabelle
  imports Handlers_Props Forwarder_Props Gpub_Props Delta Sn_App_Props Log_Collector Rpc_Collector
    Otlp_Relay Self_Collector Resource_Collector Doctor_Props Beacon_App Commands Ban_Table Watchtower_Run
    Sn_Run Sn_Detect Logs_End_To_End Payload_End_To_End Flush_End_To_End
    Server_Loops
begin

text \<open>
  Verification of gno-watchtower, a monitoring system for gnoland validators.

  \<^bold>\<open>The program.\<close> Three binaries. A \<^emph>\<open>sentinel\<close> runs beside a validator node: collectors poll the
  node's RPC, tail its logs, read host, container and configuration values and relay its OTLP
  exports; their payloads go through bounded buffers to a sender that posts them, with retries,
  to a watchtower. A \<^emph>\<open>watchtower\<close> authenticates each post by its bearer token, limits its rate,
  checks the validator's permission and turns the payload into VictoriaMetrics lines, a Loki
  push or an OTLP request. A \<^emph>\<open>beacon\<close> may sit between the two: sentinels reach it over Noise
  sessions, it adds the sentry node's own view to RPC payloads and passes everything else on.

  \<^bold>\<open>Conventions.\<close> A struct is a record, a handler a function from the state and the request to
  the response and the new state; an error is a value of an option or a sum. Go strings and
  byte slices are lists of 8-bit characters. Go \<open>int64\<close> is \<open>int\<close> with the wrap-around written
  out (\<open>wrap64\<close>), IEEE doubles are exact rationals with rounding (\<open>Float64\<close>), a map that is
  ranged over is an association list with distinct keys. Each clock reading is an argument.
  Third-party packages (the TOML decoder, zstd, protobuf, the token bucket, gopsutil, docker,
  journald, the Noise handshake and cipher states, the metrics registry), the network, the
  disk and the shell are arguments of the definitions that use them; where a theorem relies on
  one, a hypothesis says on what.

  \<^bold>\<open>Shared theories.\<close> \<open>Prelude\<close>: integers, time, strings, association lists. \<open>Http\<close>: requests and
  responses. \<open>Json\<close>, \<open>Json_Codec\<close>, \<open>Json_Roundtrip\<close>: the syntax of \<open>encoding/json\<close>, decoding
  into Go types, encoding, and that the second undoes the third. \<open>Json_Compact\<close>, \<open>Json_Parts\<close>: what a
  decoder reads from a \<open>RawMessage\<close>, alone or compacted, is what the text said. \<open>Float64\<close>, \<open>Rfc3339\<close>,
  \<open>Go_Duration\<close>, \<open>Go_Flag\<close>, \<open>Sha256\<close>: the parts of the Go library the program uses.
  \<open>Duration_Text\<close> (\<open>pkg/tomlutil\<close>), \<open>Time_Text\<close>: durations and instants written as text and read back.
  \<open>Keyed_Store\<close>, \<open>Traffic_Counter\<close>: the interfaces that the rate limiter and the delta filter,
  and the two statistics, implement (locales, interpreted on each of them); \<open>Buffer\<close> and
  \<open>Vm_Lines\<close> state the interfaces of the payload buffer and of the line extractors.

  \<^bold>\<open>Watchtower.\<close>
  \<^item> \<open>Wt_Config\<close> (\<open>internal/watchtower/config\<close>): \<open>load\<close>, \<open>validate\<close>, the token index.
  \<^item> \<open>Auth\<close>, \<open>Auth_Props\<close>, \<open>Ban_Table\<close> (\<open>auth/auth.go\<close>): who is admitted, when an IP is
    banned, the invariant of the ban table under every interleaving, that bans end.
  \<^item> \<open>Ratelimit\<close>, \<open>Wt_Stats\<close>, \<open>Wt_Metrics\<close>: buckets per validator, hourly byte counts, counters.
  \<^item> \<open>Vm_Lines\<close>, \<open>Fwd_Metrics\<close>, \<open>Fwd_Rpc\<close>, \<open>Loki\<close>, \<open>Forwarder\<close>, \<open>Forwarder_Props\<close>
    (\<open>forwarder/*.go\<close>): every extractor, the Loki conversion, the four Forward functions; samples
    carry the authenticated validator, order of maps does not matter, pushes pass Loki's gates.
  \<^item> \<open>Handlers\<close>, \<open>Handlers_Props\<close> (\<open>handlers/handlers.go\<close>, the wiring of \<open>cmd/watchtower\<close>):
    routing, the middleware chain and the handlers as one function \<open>serve\<close>.
  \<^item> \<open>Watchtower_Run\<close>: the server over any sequence of requests, reloads and statistics ticks:
    what is forwarded follows the configuration in force, every accepted byte is counted once.
  \<^item> \<open>End_To_End\<close>, \<open>Flush_End_To_End\<close>: the sentinel's retry loop, then a whole flush, against
    \<open>serve\<close>, attempt by attempt: the byte counts of the two ends agree.
  \<^item> \<open>Payload_End_To_End\<close>: an RPC or resource payload as the sentinel marshals it, and that the
    watchtower imports exactly the samples it held.
  \<^item> \<open>Logs_End_To_End\<close>: a log batch as the sentinel marshals it, and that the watchtower pushes to
    Loki every line of it once, without its \<open>ts\<close> and \<open>level\<close>, at the time it names or, outside
    Loki's window, the receive time.

  \<^bold>\<open>Sentinel.\<close>
  \<^item> \<open>Sn_Config\<close> (\<open>internal/sentinel/config\<close>): byte sizes, defaults, validation, the Noise
    configuration and generation; \<open>Sn_Detect\<close> (\<open>detect.go\<close>): the probes behind a generated file.
  \<^item> \<open>Sn_Run\<close> (\<open>Run\<close> in \<open>app/run.go\<close>, \<open>health.go\<close>): what a configuration starts, or panics on (a
    ticker interval that is not positive), the listeners' routes, the reconnect and self-report
    loops and the statistics line.
  \<^item> \<open>Delta\<close>, \<open>Rpc_Collector\<close>, \<open>Metadata_Collector\<close>, \<open>Resource_Collector\<close>, \<open>Self_Collector\<close>,
    \<open>Log_Source\<close>, \<open>Log_Collector\<close>, \<open>Otlp_Relay\<close>: what each collector emits and when; the values of
    the metadata and self collectors are followed into the watchtower's lines.
  \<^item> \<open>Buffer\<close>, \<open>Sender\<close>, \<open>Sn_Stats\<close>, \<open>Sn_App\<close>, \<open>Sn_App_Props\<close> (\<open>sender\<close>, \<open>stats\<close>, \<open>app/run.go\<close>):
    the buffers, the retry loop, the flushes and the main loop as a function on events; what
    becomes of every drained item and why, which items a shutdown loses, and that the buffers
    stay within their capacities at every moment of the loop.
  \<^item> \<open>Sn_Doctor\<close>, \<open>Doctor_Props\<close> (\<open>internal/sentinel/doctor\<close>, \<open>pkg/termstyle\<close> in \<open>Termstyle\<close>): the
    checks, the report, and that its verdict on a token is the watchtower's.

  \<^bold>\<open>Noise and the beacon.\<close>
  \<^item> \<open>Noise_Keys\<close>, \<open>Noise_Conn\<close>, \<open>Noise_Session\<close> (\<open>pkg/noise\<close>): key files, the framed connection
    as a byte stream, the handshake loop, the dialer, and the listener as a step relation.
  \<^item> \<open>Beacon_Config\<close>, \<open>Beacon_Augment\<close>, \<open>Beacon_Server\<close>, \<open>Beacon_App\<close>, \<open>Beacon_Doctor\<close>
    (\<open>internal/beacon\<close>): the configuration, the augmenter, the reverse proxy, and that a request
    through the beacon does to the watchtower what it does when sent directly, under any
    upstream path and behind any proxy that passes the end-to-end headers on.

  \<^bold>\<open>Servers.\<close> \<open>Server_Loops\<close>: how the relay, the health endpoint, the beacon and the watchtower serve
  until they are cancelled or accepting fails, and what their handlers keep of the state.

  \<^bold>\<open>Commands.\<close> \<open>Commands\<close> (\<open>cmd/*/main.go\<close>), \<open>Build_Version\<close> (\<open>pkg/version\<close>), \<open>Logger\<close>
  (\<open>pkg/logger\<close>), \<open>Gpub\<close>, \<open>Gpub_Props\<close> (\<open>pkg/gpub\<close>): subcommands, flags, exit codes, key
  generation, generated configurations, log levels, bech32 addresses whose checksum verifies.

  \<^bold>\<open>Bounds and fuel.\<close> The JSON scanner recurses on the nesting depth, which Go limits to 10000
  (\<open>max_nesting_depth\<close>); inside one level it runs on a fuel of the input's length, enough because
  every step consumes a character. \<open>duration_parts\<close>, \<open>quote_body\<close> and the rune counter run on the
  length of their input for the same reason. The retry loop recurses on the attempts left, the
  handshake and write loops on the messages and bytes left; they and the flag parser are total.

  \<^bold>\<open>Not modelled.\<close> The goroutines, channels and timers themselves: an interleaving is a sequence of
  steps, and a theorem about all sequences covers all interleavings of those steps. What
  \<open>net/http\<close> does beside calling the handlers: timeouts, the grace period of a shutdown, TLS and
  URL parsing. Log output other than what a property is about. The text of usage messages.
  The TOML syntax: where a theorem follows a generated file into the loader, its hypotheses are
  that the decoder reads back what the encoder wrote and ignores comment lines.
\<close>

end
